(* ===== verification/Prelude.thy ===== *)
theory Prelude
  imports Main "HOL-Library.Word"
begin

text \<open>
  Shared vocabulary of the development: the Rust integer types and the arithmetic
  the sources use on them, results with the \<^verbatim>\<open>?\<close> operator, and the ordered map
  that stands for \<^verbatim>\<open>BTreeMap\<close>.

  \<^item> A byte is an \<^typ>\<open>8 word\<close>.  The types \<^verbatim>\<open>u16\<close>, \<^verbatim>\<open>u32\<close>, \<^verbatim>\<open>u64\<close> and \<^verbatim>\<open>usize\<close> are
    naturals; saturating, wrapping and checked operations are written out at 64
    bits (\<open>sat_add\<close>, \<open>sat_mul\<close>, \<open>wrapping_add\<close>, \<open>checked_add\<close>, \<open>checked_sub\<close>).
    The saturating subtraction of Rust is the subtraction of naturals.
  \<^item> \<^verbatim>\<open>Instant\<close> and \<^verbatim>\<open>Duration\<close> are counted in nanoseconds.
  \<^item> \<^verbatim>\<open>Result<T, E>\<close> is the sum \<open>'e + 't\<close> with the error on the left.
\<close>

unbundle bit_operations_syntax

named_theorems bmap_simps \<open>laws of the ordered map\<close>
named_theorems arith_defs \<open>definitions of the 64-bit arithmetic\<close>

type_synonym u8 = "8 word"
type_synonym bytes = "u8 list"
type_synonym u64 = nat
type_synonym instant = nat
type_synonym duration = nat

section \<open>Numbers in error texts\<close>

fun decimal :: "nat \<Rightarrow> string" where
  "decimal n =
     (if n < 10 then [char_of (48 + n)] else decimal (n div 10) @ [char_of (48 + n mod 10)])"

declare decimal.simps [simp del]

section \<open>64-bit arithmetic\<close>

definition U64_MAX :: nat where
  "U64_MAX = 2 ^ 64 - 1"

definition sat_add :: "nat \<Rightarrow> nat \<Rightarrow> nat" where
  [arith_defs]: "sat_add a b = min (a + b) U64_MAX"

definition sat_mul :: "nat \<Rightarrow> nat \<Rightarrow> nat" where
  [arith_defs]: "sat_mul a b = min (a * b) U64_MAX"

definition wrapping_add :: "nat \<Rightarrow> nat \<Rightarrow> nat" where
  [arith_defs]: "wrapping_add a b = (a + b) mod 2 ^ 64"

definition checked_add :: "nat \<Rightarrow> nat \<Rightarrow> nat option" where
  [arith_defs]: "checked_add a b = (if a + b \<le> U64_MAX then Some (a + b) else None)"

definition checked_sub :: "nat \<Rightarrow> nat \<Rightarrow> nat option" where
  [arith_defs]: "checked_sub a b = (if b \<le> a then Some (a - b) else None)"

lemma sat_add_exact: "a + b \<le> U64_MAX \<Longrightarrow> sat_add a b = a + b"
  by (simp add: sat_add_def)

lemma sat_add_le_max: "sat_add a b \<le> U64_MAX"
  by (simp add: sat_add_def)

lemma sat_add_le_sum: "sat_add a b \<le> a + b"
  by (simp add: sat_add_def)

lemma sat_add_ge_left: "a \<le> U64_MAX \<Longrightarrow> a \<le> sat_add a b"
  by (simp add: sat_add_def)

lemma sat_add_mono: "b \<le> c \<Longrightarrow> sat_add a b \<le> sat_add a c"
  by (auto simp add: sat_add_def)

lemma wrapping_add_exact: "a + b < 2 ^ 64 \<Longrightarrow> wrapping_add a b = a + b"
  by (simp add: wrapping_add_def)

section \<open>Results\<close>

definition bind_result :: "'e + 'a \<Rightarrow> ('a \<Rightarrow> 'e + 'b) \<Rightarrow> 'e + 'b" where
  "bind_result m f = (case m of Inl e \<Rightarrow> Inl e | Inr x \<Rightarrow> f x)"

definition map_err :: "('e \<Rightarrow> 'f) \<Rightarrow> 'e + 'a \<Rightarrow> 'f + 'a" where
  "map_err g m = (case m of Inl e \<Rightarrow> Inl (g e) | Inr x \<Rightarrow> Inr x)"

definition ok_or :: "'e \<Rightarrow> 'a option \<Rightarrow> 'e + 'a" where
  "ok_or e m = (case m of None \<Rightarrow> Inl e | Some x \<Rightarrow> Inr x)"

definition is_ok :: "'e + 'a \<Rightarrow> bool" where
  "is_ok m = (case m of Inl _ \<Rightarrow> False | Inr _ \<Rightarrow> True)"

lemma bind_result_simps [simp]:
  "bind_result (Inl e) f = Inl e"
  "bind_result (Inr x) f = f x"
  by (simp_all add: bind_result_def)

lemma map_err_simps [simp]:
  "map_err g (Inl e) = Inl (g e)"
  "map_err g (Inr x) = Inr x"
  by (simp_all add: map_err_def)

lemma ok_or_simps [simp]:
  "ok_or e None = Inl e"
  "ok_or e (Some x) = Inr x"
  by (simp_all add: ok_or_def)

lemma is_ok_simps [simp]:
  "\<not> is_ok (Inl e)"
  "is_ok (Inr x)"
  by (simp_all add: is_ok_def)

lemma bind_result_eq_InrD:
  "bind_result m f = Inr y \<Longrightarrow> \<exists>x. m = Inr x \<and> f x = Inr y"
  by (cases m) auto

section \<open>Ordered maps\<close>

text \<open>
  \<^verbatim>\<open>BTreeMap<K, V>\<close> is an association list with strictly ascending keys.
\<close>

type_synonym 'v bmap = "(nat \<times> 'v) list"

definition bmap_ok :: "'v bmap \<Rightarrow> bool" where
  "bmap_ok m = sorted_wrt (<) (map fst m)"

fun bmap_insert :: "nat \<Rightarrow> 'v \<Rightarrow> 'v bmap \<Rightarrow> 'v bmap" where
  "bmap_insert k v [] = [(k, v)]"
| "bmap_insert k v ((k', v') # m) =
     (if k < k' then (k, v) # (k', v') # m
      else if k = k' then (k, v) # m
      else (k', v') # bmap_insert k v m)"

definition bmap_remove :: "nat \<Rightarrow> 'v bmap \<Rightarrow> 'v bmap" where
  "bmap_remove k m = filter (\<lambda>(k', _). k' \<noteq> k) m"

definition bmap_get :: "nat \<Rightarrow> 'v bmap \<Rightarrow> 'v option" where
  "bmap_get k m = map_of m k"

definition bmap_keys :: "'v bmap \<Rightarrow> nat list" where
  "bmap_keys m = map fst m"

text \<open>\<^verbatim>\<open>range(..=k).next_back()\<close>: the entry with the greatest key not above \<open>k\<close>.\<close>

definition bmap_last_le :: "nat \<Rightarrow> 'v bmap \<Rightarrow> (nat \<times> 'v) option" where
  "bmap_last_le k m =
     (case filter (\<lambda>(k', _). k' \<le> k) m of [] \<Rightarrow> None | es \<Rightarrow> Some (last es))"

text \<open>\<^verbatim>\<open>entry(k).or_insert(v)\<close> and an update through \<^verbatim>\<open>get_mut(k)\<close>.\<close>

definition bmap_or_insert :: "nat \<Rightarrow> 'v \<Rightarrow> 'v bmap \<Rightarrow> 'v bmap" where
  "bmap_or_insert k v m = (case bmap_get k m of None \<Rightarrow> bmap_insert k v m | Some _ \<Rightarrow> m)"

definition bmap_update :: "nat \<Rightarrow> ('v \<Rightarrow> 'v) \<Rightarrow> 'v bmap \<Rightarrow> 'v bmap" where
  "bmap_update k f m = (case bmap_get k m of None \<Rightarrow> m | Some v \<Rightarrow> bmap_insert k (f v) m)"

lemma bmap_ok_Nil [simp]: "bmap_ok []"
  by (simp add: bmap_ok_def)

lemma bmap_ok_Cons [simp]:
  "bmap_ok ((k, v) # m) \<longleftrightarrow> (\<forall>e \<in> set m. k < fst e) \<and> bmap_ok m"
  by (simp add: bmap_ok_def)

lemma set_bmap_insert:
  "set (bmap_insert k v m) \<subseteq> insert (k, v) (set m)"
  by (induction k v m rule: bmap_insert.induct) auto

lemma bmap_insert_mem:
  "bmap_ok m \<Longrightarrow> e \<in> set (bmap_insert k v m) \<longleftrightarrow> e = (k, v) \<or> (e \<in> set m \<and> fst e \<noteq> k)"
  by (induction k v m rule: bmap_insert.induct) (auto split: if_splits)

lemma bmap_ok_insert [simp, intro]: "bmap_ok m \<Longrightarrow> bmap_ok (bmap_insert k v m)"
proof (induction m)
  case (Cons e m)
  then show ?case
    using set_bmap_insert [of k v m] by (cases e) fastforce
qed simp

lemma bmap_get_insert [bmap_simps]:
  "bmap_get k' (bmap_insert k v m) = (if k' = k then Some v else bmap_get k' m)"
  if "bmap_ok m"
  using that unfolding bmap_get_def
  by (induction k v m rule: bmap_insert.induct) auto

lemma bmap_ok_filter [simp, intro]: "bmap_ok m \<Longrightarrow> bmap_ok (filter P m)"
  by (induction m) auto

lemma bmap_ok_remove [simp, intro]: "bmap_ok m \<Longrightarrow> bmap_ok (bmap_remove k m)"
  by (simp add: bmap_remove_def)

lemma bmap_get_remove [bmap_simps]:
  "bmap_get k' (bmap_remove k m) = (if k' = k then None else bmap_get k' m)"
  unfolding bmap_get_def bmap_remove_def by (induction m) auto

lemma bmap_remove_mem [simp]:
  "e \<in> set (bmap_remove k m) \<longleftrightarrow> e \<in> set m \<and> fst e \<noteq> k"
  by (auto simp add: bmap_remove_def)

lemma bmap_ok_distinct: "bmap_ok m \<Longrightarrow> distinct (map fst m)"
  by (simp add: bmap_ok_def strict_sorted_iff)

lemma bmap_get_iff_mem: "bmap_ok m \<Longrightarrow> bmap_get k m = Some v \<longleftrightarrow> (k, v) \<in> set m"
  by (simp add: bmap_get_def bmap_ok_distinct)

lemma bmap_unique: "bmap_ok m \<Longrightarrow> (k, v) \<in> set m \<Longrightarrow> (k, w) \<in> set m \<Longrightarrow> v = w"
  using bmap_get_iff_mem [of m k v] bmap_get_iff_mem [of m k w] by simp

lemma bmap_get_None_iff: "bmap_get k m = None \<longleftrightarrow> k \<notin> fst ` set m"
  by (simp add: bmap_get_def map_of_eq_None_iff)

lemma bmap_length_remove:
  "e \<in> set m \<Longrightarrow> length (bmap_remove (fst e) m) < length m"
  unfolding bmap_remove_def by (rule length_filter_less) auto

lemma bmap_last_le_SomeD:
  assumes "bmap_last_le k m = Some e"
  shows "e \<in> set m" and "fst e \<le> k"
proof -
  obtain es where *: "filter (\<lambda>(k', _). k' \<le> k) m = es" "es \<noteq> []" "e = last es"
    using assms by (auto simp add: bmap_last_le_def split: list.splits)
  then have "e \<in> set (filter (\<lambda>(k', _). k' \<le> k) m)"
    by (metis last_in_set)
  then show "e \<in> set m" and "fst e \<le> k" by auto
qed

lemma bmap_last_le_None_iff:
  "bmap_last_le k m = None \<longleftrightarrow> (\<forall>e \<in> set m. k < fst e)"
proof -
  have "bmap_last_le k m = None \<longleftrightarrow> filter (\<lambda>(k', _). k' \<le> k) m = []"
    by (simp add: bmap_last_le_def split: list.splits)
  then show ?thesis by (auto simp add: filter_empty_conv)
qed

lemma bmap_ok_or_insert [simp, intro]: "bmap_ok m \<Longrightarrow> bmap_ok (bmap_or_insert k v m)"
  by (simp add: bmap_or_insert_def split: option.split)

lemma bmap_ok_update [simp, intro]: "bmap_ok m \<Longrightarrow> bmap_ok (bmap_update k f m)"
  by (simp add: bmap_update_def split: option.split)

lemma bmap_get_or_insert [bmap_simps]:
  "bmap_get k' (bmap_or_insert k v m) = (if k' = k \<and> bmap_get k m = None then Some v else bmap_get k' m)"
  if "bmap_ok m"
  using that by (simp add: bmap_or_insert_def bmap_get_insert split: option.split)

lemma bmap_get_update [bmap_simps]:
  "bmap_get k' (bmap_update k f m) = (if k' = k then map_option f (bmap_get k m) else bmap_get k' m)"
  if "bmap_ok m"
  using that by (simp add: bmap_update_def bmap_get_insert split: option.split)

text \<open>The sum of a measure over the values of a map.\<close>

definition bmap_sum :: "('v \<Rightarrow> nat) \<Rightarrow> 'v bmap \<Rightarrow> nat" where
  "bmap_sum f m = sum_list (map (\<lambda>(_, v). f v) m)"

lemma bmap_sum_insert:
  assumes "bmap_ok m"
  shows "bmap_sum f (bmap_insert k v m) + (case bmap_get k m of None \<Rightarrow> 0 | Some w \<Rightarrow> f w)
    = bmap_sum f m + f v"
  using assms
proof (induction m)
  case (Cons e m)
  obtain k' w where e: "e = (k', w)" by (cases e)
  have "\<forall>x \<in> set m. k' < fst x" using Cons.prems e by simp
  then have "k < k' \<Longrightarrow> map_of m k = None" by (auto simp add: map_of_eq_None_iff)
  then show ?case using Cons e by (auto simp add: bmap_sum_def bmap_get_def)
qed (simp add: bmap_sum_def bmap_get_def)

lemma bmap_sum_member: "bmap_get k m = Some v \<Longrightarrow> f v \<le> bmap_sum f m"
  by (induction m) (auto simp add: bmap_sum_def bmap_get_def split: if_splits)

end
