(* ===== verification/Coding.thy ===== *)
theory Coding
  imports Prelude
begin

text \<open>
  \<^verbatim>\<open>oxiquic-transport/src/coding.rs\<close>: the read cursor \<^verbatim>\<open>Buf\<close>, variable-length
  integers and packet-number truncation.

  A decoder maps a cursor to an error or to a value and the advanced cursor; the
  \<^verbatim>\<open>?\<close> operator is \<open>bind_d\<close>.  A writer that appends to \<^verbatim>\<open>out\<close> is modelled by the
  bytes it appends.
\<close>

section \<open>The read cursor\<close>

datatype codec_error = UnexpectedEnd | Malformed string

record Buf =
  buf_bytes :: bytes
  buf_pos :: nat

type_synonym ('e, 'a) decoder = "Buf \<Rightarrow> 'e + ('a \<times> Buf)"

definition VARINT_MAX :: nat where
  "VARINT_MAX = 2 ^ 62 - 1"

definition varint_size :: "u64 \<Rightarrow> nat" where
  "varint_size value =
     (if value < 2 ^ 6 then 1
      else if value < 2 ^ 14 then 2
      else if value < 2 ^ 30 then 4
      else 8)"

definition Buf_new :: "bytes \<Rightarrow> Buf" where
  "Buf_new bs = \<lparr>buf_bytes = bs, buf_pos = 0\<rparr>"

definition remaining :: "Buf \<Rightarrow> nat" where
  "remaining b = length (buf_bytes b) - buf_pos b"

definition buf_is_empty :: "Buf \<Rightarrow> bool" where
  "buf_is_empty b = (remaining b = 0)"

definition return_d :: "'a \<Rightarrow> ('e, 'a) decoder" where
  "return_d x = (\<lambda>b. Inr (x, b))"

definition fail_d :: "'e \<Rightarrow> ('e, 'a) decoder" where
  "fail_d e = (\<lambda>b. Inl e)"

definition bind_d :: "('e, 'a) decoder \<Rightarrow> ('a \<Rightarrow> ('e, 'b) decoder) \<Rightarrow> ('e, 'b) decoder" where
  "bind_d p f = (\<lambda>b. case p b of Inl e \<Rightarrow> Inl e | Inr (x, b') \<Rightarrow> f x b')"

definition map_err_d :: "('e \<Rightarrow> 'f) \<Rightarrow> ('e, 'a) decoder \<Rightarrow> ('f, 'a) decoder" where
  "map_err_d g p = (\<lambda>b. map_err g (p b))"

definition get_u8 :: "(codec_error, u8) decoder" where
  "get_u8 b =
     (if buf_pos b < length (buf_bytes b)
      then Inr (buf_bytes b ! buf_pos b, b\<lparr>buf_pos := buf_pos b + 1\<rparr>)
      else Inl UnexpectedEnd)"

definition get_u16 :: "(codec_error, nat) decoder" where
  "get_u16 =
     bind_d get_u8 (\<lambda>hi. bind_d get_u8 (\<lambda>lo.
       return_d (push_bit 8 (unat hi) OR unat lo)))"

definition get_u32 :: "(codec_error, nat) decoder" where
  "get_u32 =
     bind_d get_u16 (\<lambda>hi. bind_d get_u16 (\<lambda>lo.
       return_d (push_bit 16 hi OR lo)))"

definition get_bytes :: "nat \<Rightarrow> (codec_error, bytes) decoder" where
  "get_bytes len b =
     (case checked_add (buf_pos b) len of
        None \<Rightarrow> Inl UnexpectedEnd
      | Some end \<Rightarrow>
          if end \<le> length (buf_bytes b)
          then Inr (take len (drop (buf_pos b) (buf_bytes b)), b\<lparr>buf_pos := end\<rparr>)
          else Inl UnexpectedEnd)"

fun get_varint_loop :: "nat \<Rightarrow> u64 \<Rightarrow> (codec_error, u64) decoder" where
  "get_varint_loop 0 value = return_d value"
| "get_varint_loop (Suc n) value =
     bind_d get_u8 (\<lambda>byte. get_varint_loop n (push_bit 8 value OR unat byte))"

definition get_varint :: "(codec_error, u64) decoder" where
  "get_varint =
     bind_d get_u8 (\<lambda>first.
       let len_log = unat (drop_bit 6 first);
           value = unat (first AND 0x3f);
           extra = push_bit len_log 1 - 1
       in get_varint_loop extra value)"

section \<open>Writers\<close>

definition put_varint :: "u64 \<Rightarrow> bytes" where
  "put_varint v =
     (let value = min v VARINT_MAX; size = varint_size value in
      if size = 1 then [word_of_nat value]
      else if size = 2 then
        [0x40 OR word_of_nat (drop_bit 8 value), word_of_nat value]
      else if size = 4 then
        [0x80 OR word_of_nat (drop_bit 24 value), word_of_nat (drop_bit 16 value),
         word_of_nat (drop_bit 8 value), word_of_nat value]
      else
        [0xc0 OR word_of_nat (drop_bit 56 value), word_of_nat (drop_bit 48 value),
         word_of_nat (drop_bit 40 value), word_of_nat (drop_bit 32 value),
         word_of_nat (drop_bit 24 value), word_of_nat (drop_bit 16 value),
         word_of_nat (drop_bit 8 value), word_of_nat value])"

definition packet_number_len :: "u64 \<Rightarrow> u64 option \<Rightarrow> nat" where
  "packet_number_len pn largest_acked =
     (let range = (case largest_acked of
                     Some acked \<Rightarrow> sat_mul (pn - acked) 2
                   | None \<Rightarrow> sat_mul (sat_add pn 1) 2)
      in if range < 2 ^ 8 then 1
         else if range < 2 ^ 16 then 2
         else if range < 2 ^ 24 then 3
         else 4)"

definition encode_packet_number :: "u64 \<Rightarrow> nat \<Rightarrow> bytes" where
  "encode_packet_number pn len =
     (let len = max 1 (min 4 len)
      in map (\<lambda>shift. word_of_nat (drop_bit (shift * 8) pn)) (rev [0..<len]))"

definition decode_packet_number :: "u64 option \<Rightarrow> u64 \<Rightarrow> nat \<Rightarrow> u64" where
  "decode_packet_number largest_pn truncated pn_len =
     (let expected = (case largest_pn of Some largest \<Rightarrow> largest + 1 | None \<Rightarrow> 0);
          pn_nbits = pn_len * 8;
          pn_win = push_bit pn_nbits 1;
          pn_hwin = pn_win div 2;
          candidate = push_bit pn_nbits (drop_bit pn_nbits expected) OR truncated
      in if wrapping_add candidate pn_hwin \<le> expected
            \<and> candidate < U64_MAX - pn_win
            \<and> expected - candidate > pn_hwin
         then candidate + pn_win
         else if candidate > expected + pn_hwin \<and> candidate \<ge> pn_win
         then candidate - pn_win
         else candidate)"

section \<open>Decoder laws\<close>

definition buf_ok :: "Buf \<Rightarrow> bool" where
  "buf_ok b \<longleftrightarrow> buf_pos b \<le> length (buf_bytes b) \<and> length (buf_bytes b) \<le> U64_MAX"

definition rest :: "Buf \<Rightarrow> bytes" where
  "rest b = drop (buf_pos b) (buf_bytes b)"

definition advance :: "nat \<Rightarrow> Buf \<Rightarrow> Buf" where
  "advance n b = b\<lparr>buf_pos := buf_pos b + n\<rparr>"

text \<open>\<open>reads p enc x\<close>: on any cursor whose remaining bytes start with \<open>enc\<close>, the
  decoder \<open>p\<close> returns \<open>x\<close> and consumes exactly \<open>enc\<close>.\<close>

definition reads :: "('e, 'a) decoder \<Rightarrow> bytes \<Rightarrow> 'a \<Rightarrow> bool" where
  "reads p enc x \<longleftrightarrow>
     (\<forall>b tail. buf_ok b \<longrightarrow> rest b = enc @ tail \<longrightarrow> p b = Inr (x, advance (length enc) b))"

text \<open>\<open>within p\<close>: a decoder that succeeds moves the cursor forward only, stays
  inside the slice and leaves the slice alone.\<close>

definition within :: "('e, 'a) decoder \<Rightarrow> bool" where
  "within p \<longleftrightarrow>
     (\<forall>b x b'. buf_ok b \<longrightarrow> p b = Inr (x, b') \<longrightarrow>
        buf_ok b' \<and> buf_bytes b' = buf_bytes b \<and> buf_pos b \<le> buf_pos b')"

lemma advance_0 [simp]: "advance 0 b = b"
  by (simp add: advance_def)

lemma advance_advance [simp]: "advance n (advance m b) = advance (m + n) b"
  by (simp add: advance_def add.assoc)

lemma rest_advance_drop: "rest (advance n b) = drop n (rest b)"
  by (simp add: rest_def advance_def add.commute)

lemma rest_advance: "rest b = enc @ tail \<Longrightarrow> rest (advance (length enc) b) = tail"
  by (simp add: rest_advance_drop)

lemma length_rest: "buf_ok b \<Longrightarrow> length (rest b) = remaining b"
  by (simp add: rest_def remaining_def)

lemma buf_ok_advance: "buf_ok b \<Longrightarrow> rest b = enc @ tail \<Longrightarrow> buf_ok (advance (length enc) b)"
proof -
  assume b: "buf_ok b" and r: "rest b = enc @ tail"
  have "length (buf_bytes b) - buf_pos b = length enc + length tail"
    using r by (metis rest_def length_drop length_append)
  then show "buf_ok (advance (length enc) b)"
    using b by (auto simp add: buf_ok_def advance_def)
qed

lemma rest_new [simp]: "rest (Buf_new bs) = bs"
  by (simp add: rest_def Buf_new_def)

lemma buf_ok_new [simp]: "buf_ok (Buf_new bs) \<longleftrightarrow> length bs \<le> U64_MAX"
  by (simp add: buf_ok_def Buf_new_def)

lemma reads_return: "reads (return_d x) [] x"
  by (simp add: reads_def return_d_def)

lemma reads_bind:
  assumes "reads p enc x" and "reads (f x) enc' y"
  shows "reads (bind_d p f) (enc @ enc') y"
  unfolding reads_def
proof (intro allI impI)
  fix b tail
  assume b: "buf_ok b" and r: "rest b = (enc @ enc') @ tail"
  have "p b = Inr (x, advance (length enc) b)"
    using assms(1) b r by (auto simp add: reads_def)
  moreover have "f x (advance (length enc) b) =
      Inr (y, advance (length enc') (advance (length enc) b))"
    using assms(2) buf_ok_advance [OF b] rest_advance r unfolding reads_def by auto
  ultimately show "bind_d p f b = Inr (y, advance (length (enc @ enc')) b)"
    by (simp add: bind_d_def)
qed

lemma reads_map_err: "reads p enc x \<Longrightarrow> reads (map_err_d g p) enc x"
  by (simp add: reads_def map_err_d_def)

lemma reads_get_u8: "reads get_u8 [x] x"
  unfolding reads_def
proof (intro allI impI)
  fix b tail
  assume r: "rest b = [x] @ tail"
  then have "buf_pos b < length (buf_bytes b)"
    by (cases "buf_pos b < length (buf_bytes b)") (simp_all add: rest_def)
  moreover have "buf_bytes b ! buf_pos b = x"
    using r hd_drop_conv_nth [OF calculation] by (simp add: rest_def)
  ultimately show "get_u8 b = Inr (x, advance (length [x]) b)"
    by (simp add: get_u8_def advance_def)
qed

lemma reads_get_bytes: "reads (get_bytes (length data)) data data"
  unfolding reads_def
proof (intro allI impI)
  fix b tail
  assume b: "buf_ok b" and r: "rest b = data @ tail"
  have "buf_ok (advance (length data) b)"
    by (rule buf_ok_advance [OF b r])
  then have "buf_pos b + length data \<le> length (buf_bytes b)"
    and "buf_pos b + length data \<le> U64_MAX"
    by (auto simp add: buf_ok_def advance_def)
  moreover have "take (length data) (drop (buf_pos b) (buf_bytes b)) = data"
    using r by (simp add: rest_def)
  ultimately show "get_bytes (length data) b = Inr (data, advance (length data) b)"
    by (simp add: get_bytes_def checked_add_def advance_def)
qed

lemma reads_get_bytes_len: "n = length data \<Longrightarrow> reads (get_bytes n) data data"
  by (simp add: reads_get_bytes)

lemma within_return: "within (return_d x)"
  by (simp add: within_def return_d_def)

lemma within_fail: "within (fail_d e)"
  by (simp add: within_def fail_d_def)

lemma withinD:
  "within p \<Longrightarrow> p b = Inr (x, b') \<Longrightarrow> buf_ok b \<Longrightarrow>
   buf_ok b' \<and> buf_bytes b' = buf_bytes b \<and> buf_pos b \<le> buf_pos b'"
  unfolding within_def by blast

lemma bind_d_InrE:
  assumes "bind_d p f b = Inr r"
  obtains x b' where "p b = Inr (x, b')" and "f x b' = Inr r"
  using assms by (auto simp add: bind_d_def split: sum.splits)

lemma within_bind:
  assumes "within p" and "\<And>x. within (f x)"
  shows "within (bind_d p f)"
  unfolding within_def
proof (intro allI impI)
  fix b y b''
  assume b: "buf_ok b" and r: "bind_d p f b = Inr (y, b'')"
  from r obtain x b' where p: "p b = Inr (x, b')" and f: "f x b' = Inr (y, b'')"
    by (rule bind_d_InrE)
  show "buf_ok b'' \<and> buf_bytes b'' = buf_bytes b \<and> buf_pos b \<le> buf_pos b''"
    using withinD [OF assms(1) p b] withinD [OF assms(2) f] by simp
qed

lemma map_err_d_Inr_iff: "map_err_d g p b = Inr r \<longleftrightarrow> p b = Inr r"
  by (simp add: map_err_d_def map_err_def split: sum.splits)

lemma within_map_err: "within p \<Longrightarrow> within (map_err_d g p)"
  unfolding within_def map_err_d_Inr_iff by blast

lemma within_get_u8: "within get_u8"
  by (auto simp add: within_def get_u8_def buf_ok_def)

lemma within_get_bytes: "within (get_bytes n)"
  by (auto simp add: within_def get_bytes_def checked_add_def buf_ok_def split: if_splits)

lemmas within_base = within_return within_fail within_bind within_map_err within_get_u8
  within_get_bytes

lemma within_get_varint_loop: "within (get_varint_loop n v)"
  by (induction n arbitrary: v) (simp_all add: within_return within_bind within_get_u8)

lemma within_get_varint: "within get_varint"
  unfolding get_varint_def Let_def
  by (intro within_bind within_get_u8 within_get_varint_loop)

lemma get_varint_progress:
  assumes "buf_ok b" and "get_varint b = Inr (v, b')"
  shows "buf_pos b < buf_pos b'"
proof -
  obtain first b1 n v0 where first: "get_u8 b = Inr (first, b1)"
    and loop: "get_varint_loop n v0 b1 = Inr (v, b')"
    using assms(2) unfolding get_varint_def Let_def by (rule bind_d_InrE)
  have "buf_ok b1" and "buf_pos b1 = buf_pos b + 1"
    using first assms(1) by (auto simp add: get_u8_def buf_ok_def split: if_splits)
  then show ?thesis
    using withinD [OF within_get_varint_loop loop] by simp
qed

section \<open>Variable-length integers\<close>

lemma bits_or_ident: "push_bit n (drop_bit n x) OR take_bit n x = (x::nat)"
  by (rule bit_eqI) (auto simp add: bit_or_iff bit_push_bit_iff bit_drop_bit_eq bit_take_bit_iff)

lemma unat_byte: "unat (word_of_nat x :: u8) = take_bit 8 x"
  by (simp add: unsigned_of_nat)

lemma push_byte: "push_bit 8 (drop_bit (n + 8) x) OR unat (word_of_nat (drop_bit n x) :: u8) = drop_bit n x"
  using bits_or_ident [of 8 "drop_bit n x"] by (simp add: unat_byte add.commute)

lemma lead_byte:
  assumes "h < 64" "t < 4"
  shows "unat (drop_bit 6 (word_of_nat (t * 64) OR word_of_nat h :: u8)) = t"
    and "unat ((word_of_nat (t * 64) OR word_of_nat h :: u8) AND 0x3f) = h"
proof -
  have h: "take_bit 8 h = h" "drop_bit 6 h = 0" "take_bit 6 h = h"
    using assms(1) by (simp_all add: take_bit_eq_mod drop_bit_eq_div)
  have t: "take_bit 8 (t * 64) = t * 64" "drop_bit 6 (t * 64) = t" "take_bit 6 (t * 64) = 0"
    using assms(2) by (simp_all add: take_bit_eq_mod drop_bit_eq_div)
  define w :: u8 where "w = word_of_nat (t * 64) OR word_of_nat h"
  have u: "unat w = (t * 64) OR h"
    by (simp only: w_def unsigned_or_eq unat_byte h t)
  have "unat (drop_bit 6 w) = t"
    by (simp add: unat_drop_bit_eq u h t)
  then show "unat (drop_bit 6 (word_of_nat (t * 64) OR word_of_nat h :: u8)) = t"
    by (simp only: w_def)
  have "w AND 0x3f = take_bit 6 w"
    by (simp add: take_bit_eq_mask mask_eq_exp_minus_1)
  then have "unat (w AND 0x3f) = h"
    by (simp add: unsigned_take_bit_eq u h t)
  then show "unat ((word_of_nat (t * 64) OR word_of_nat h :: u8) AND 0x3f) = h"
    by (simp only: w_def)
qed

lemma reads_bind_u8: "reads (f x) enc y \<Longrightarrow> reads (bind_d get_u8 f) (x # enc) y"
  using reads_bind [OF reads_get_u8, of f x enc y] by simp

lemma reads_get_varint_loop:
  "reads (get_varint_loop (length bs) v) bs (foldl (\<lambda>v b. push_bit 8 v OR unat b) v bs)"
proof (induction bs arbitrary: v)
  case (Cons b bs)
  show ?case
    by (simp add: reads_bind_u8 Cons.IH)
qed (simp add: reads_return)

lemma reads_get_varint:
  assumes "h < 64" "t < 4" "length bs = 2 ^ t - 1"
  shows "reads get_varint ((word_of_nat (t * 64) OR word_of_nat h) # bs)
           (foldl (\<lambda>v b. push_bit 8 v OR unat b) h bs)"
  unfolding get_varint_def Let_def
proof (rule reads_bind_u8)
  have "push_bit t (1::nat) - 1 = length bs"
    by (simp add: push_bit_eq_mult assms(3))
  then show "reads (get_varint_loop (push_bit (unat (drop_bit 6 (word_of_nat (t * 64) OR word_of_nat h :: u8))) 1 - 1)
      (unat ((word_of_nat (t * 64) OR word_of_nat h :: u8) AND 0x3f))) bs
      (foldl (\<lambda>v b. push_bit 8 v OR unat b) h bs)"
    unfolding lead_byte [OF assms(1,2)] by (simp only: reads_get_varint_loop)
qed

lemma drop_bit_less_64: "x < 2 ^ (n + 6) \<Longrightarrow> drop_bit n (x::nat) < 64"
  by (simp add: drop_bit_eq_div less_mult_imp_div_less power_add)

lemma foldl_push_bytes [simp]:
  "push_bit 8 (drop_bit 8 x) OR unat (word_of_nat x :: u8) = x"
  "push_bit 8 (drop_bit 16 x) OR unat (word_of_nat (drop_bit 8 x) :: u8) = drop_bit 8 x"
  "push_bit 8 (drop_bit 24 x) OR unat (word_of_nat (drop_bit 16 x) :: u8) = drop_bit 16 x"
  "push_bit 8 (drop_bit 32 x) OR unat (word_of_nat (drop_bit 24 x) :: u8) = drop_bit 24 x"
  "push_bit 8 (drop_bit 40 x) OR unat (word_of_nat (drop_bit 32 x) :: u8) = drop_bit 32 x"
  "push_bit 8 (drop_bit 48 x) OR unat (word_of_nat (drop_bit 40 x) :: u8) = drop_bit 40 x"
  "push_bit 8 (drop_bit 56 x) OR unat (word_of_nat (drop_bit 48 x) :: u8) = drop_bit 48 x"
  using push_byte [of 0 x] push_byte [of 8 x] push_byte [of 16 x] push_byte [of 24 x]
    push_byte [of 32 x] push_byte [of 40 x] push_byte [of 48 x]
  by simp_all

lemma reads_put_varint_min: "reads get_varint (put_varint v) (min v VARINT_MAX)"
proof -
  define x where "x = min v VARINT_MAX"
  have x: "x < 2 ^ 62" by (simp add: x_def VARINT_MAX_def min_def)
  consider (1) "x < 2 ^ 6" | (2) "2 ^ 6 \<le> x" "x < 2 ^ 14" | (4) "2 ^ 14 \<le> x" "x < 2 ^ 30"
    | (8) "2 ^ 30 \<le> x" by linarith
  then have "reads get_varint (put_varint v) x"
  proof cases
    case 1
    then show ?thesis
      using reads_get_varint [of x 0 "[]"]
      by (simp add: put_varint_def varint_size_def Let_def flip: x_def)
  next
    case 2
    then have h: "drop_bit 8 x < 64" by (simp add: drop_bit_less_64)
    show ?thesis
      using reads_get_varint [OF h, of 1 "[word_of_nat x]"] 2
      by (simp add: put_varint_def varint_size_def Let_def flip: x_def)
  next
    case 4
    then have h: "drop_bit 24 x < 64" by (simp add: drop_bit_less_64)
    show ?thesis
      using reads_get_varint [OF h, of 2
          "[word_of_nat (drop_bit 16 x), word_of_nat (drop_bit 8 x), word_of_nat x]"] 4
      by (simp add: put_varint_def varint_size_def Let_def flip: x_def)
  next
    case 8
    then have h: "drop_bit 56 x < 64" using x by (simp add: drop_bit_less_64)
    show ?thesis
      using reads_get_varint [OF h, of 3
          "[word_of_nat (drop_bit 48 x), word_of_nat (drop_bit 40 x), word_of_nat (drop_bit 32 x),
            word_of_nat (drop_bit 24 x), word_of_nat (drop_bit 16 x), word_of_nat (drop_bit 8 x),
            word_of_nat x]"] 8
      by (simp add: put_varint_def varint_size_def Let_def flip: x_def)
  qed
  then show ?thesis by (simp add: x_def)
qed

lemma push_or_eq_add:
  assumes "r < 2 ^ n"
  shows "push_bit n q OR r = q * 2 ^ n + (r::nat)"
proof -
  have r: "take_bit n r = r" using assms by (simp add: take_bit_eq_mod)
  have "push_bit n q OR take_bit n r = push_bit n q + take_bit n r"
    by (rule disjunctive_add [symmetric]) (auto simp add: bit_push_bit_iff bit_take_bit_iff)
  then show ?thesis by (simp add: r push_bit_eq_mult)
qed

lemma unat_byte_less [simp]: "unat (b :: u8) < 256"
proof -
  have "unat b < 2 ^ LENGTH(8)" by (rule unsigned_less)
  then show ?thesis by simp
qed

lemma push_byte_eq_add: "push_bit 8 v OR unat (byte :: u8) = v * 256 + unat byte"
  using push_or_eq_add [of "unat byte" 8 v] by simp

lemma length_put_varint: "length (put_varint v) = varint_size (min v VARINT_MAX)"
  by (simp add: put_varint_def varint_size_def Let_def)

lemma length_put_varint_le: "length (put_varint v) \<le> 8"
  by (simp add: length_put_varint varint_size_def)

lemma length_put_varint_small: "v < 2 ^ 30 \<Longrightarrow> length (put_varint v) \<le> 4"
  by (simp add: length_put_varint varint_size_def VARINT_MAX_def min_def)

lemma length_put_varint_tag: "v < 64 \<Longrightarrow> length (put_varint v) = 1"
  by (simp add: length_put_varint varint_size_def VARINT_MAX_def min_def)

lemma get_varint_loop_bound:
  "get_varint_loop n v b = Inr (r, b') \<Longrightarrow> v < 2 ^ k \<Longrightarrow> r < 2 ^ (k + 8 * n)"
proof (induction n arbitrary: v b k)
  case 0
  then show ?case by (simp add: return_d_def)
next
  case (Suc n)
  obtain byte b1 where "get_u8 b = Inr (byte, b1)"
    and rec: "get_varint_loop n (push_bit 8 v OR unat byte) b1 = Inr (r, b')"
    using Suc.prems(1) unfolding get_varint_loop.simps by (rule bind_d_InrE)
  have "v * 256 + unat byte < 2 ^ k * 256"
    using Suc.prems(2) unat_byte_less [of byte] by linarith
  then have "push_bit 8 v OR unat byte < 2 ^ (k + 8)"
    unfolding push_byte_eq_add by (simp add: power_add)
  with rec have "r < 2 ^ (k + 8 + 8 * n)" by (rule Suc.IH)
  then show ?case by (simp add: algebra_simps)
qed

lemma get_varint_bound:
  assumes "get_varint b = Inr (v, b')"
  shows "v \<le> VARINT_MAX"
proof -
  obtain first b1 where "get_u8 b = Inr (first, b1)"
    and loop: "get_varint_loop (push_bit (unat (drop_bit 6 first)) 1 - 1)
                 (unat (first AND 0x3f)) b1 = Inr (v, b')"
    using assms unfolding get_varint_def Let_def by (rule bind_d_InrE)
  have "first AND 0x3f = take_bit 6 first"
    by (simp add: take_bit_eq_mask mask_eq_exp_minus_1)
  then have "unat (first AND 0x3f) < 2 ^ 6"
    by (simp only: unsigned_take_bit_eq take_bit_nat_less_exp)
  with loop have "v < 2 ^ (6 + 8 * (push_bit (unat (drop_bit 6 first)) 1 - 1))"
    by (rule get_varint_loop_bound)
  also have "unat (drop_bit 6 first) \<le> 3"
  proof -
    have "unat (drop_bit 6 first) = unat first div 2 ^ 6"
      unfolding unat_drop_bit_eq by (rule drop_bit_eq_div)
    moreover have "unat first div 64 < 4"
      by (rule less_mult_imp_div_less) simp
    ultimately show ?thesis by simp
  qed
  then have "push_bit (unat (drop_bit 6 first)) (1::nat) \<le> 2 ^ 3"
    by (simp add: push_bit_eq_mult power_increasing del: power_numeral)
  then have "(2::nat) ^ (6 + 8 * (push_bit (unat (drop_bit 6 first)) 1 - 1)) \<le> 2 ^ 62"
    by (intro power_increasing) simp_all
  finally show ?thesis by (simp add: VARINT_MAX_def)
qed

section \<open>Packet numbers\<close>

text \<open>The big-endian value of a byte string, as the packet parser accumulates it.\<close>

definition be_value :: "bytes \<Rightarrow> nat" where
  "be_value bs = foldl (\<lambda>v b. push_bit 8 v OR unat b) 0 bs"

text \<open>The next packet number a receiver expects.\<close>

definition expected_pn :: "u64 option \<Rightarrow> u64" where
  "expected_pn largest = (case largest of Some l \<Rightarrow> l + 1 | None \<Rightarrow> 0)"

lemma be_value_encode_aux:
  "foldl (\<lambda>v b. push_bit 8 v OR unat b) v
     (map (\<lambda>shift. word_of_nat (drop_bit (shift * 8) pn) :: u8) (rev [0..<n])) =
   v * 2 ^ (8 * n) + pn mod 2 ^ (8 * n)"
proof (induction n arbitrary: v)
  case (Suc n)
  have "take_bit 8 (drop_bit (n * 8) pn) * 2 ^ (8 * n) + pn mod 2 ^ (8 * n) = pn mod 2 ^ (8 * Suc n)"
    using mod_mult2_eq [of pn "2 ^ (8 * n)" 256]
    by (simp add: take_bit_eq_mod drop_bit_eq_div mult.commute power_add)
  then show ?case
    by (simp add: Suc.IH push_byte_eq_add [of v] unat_byte power_add distrib_right)
qed simp

lemma be_value_encode:
  assumes "1 \<le> len" "len \<le> 4"
  shows "be_value (encode_packet_number pn len) = pn mod 2 ^ (8 * len)"
proof -
  have "max 1 (min 4 len) = len" using assms by simp
  then show ?thesis
    by (simp only: be_value_def encode_packet_number_def Let_def be_value_encode_aux
        mult_0 add_0)
qed
lemma decode_packet_number_arith:
  assumes "1 \<le> len" "len \<le> 4" "r < 2 ^ (8 * len)" "expected_pn largest \<le> VARINT_MAX"
  defines "W \<equiv> (2::nat) ^ (8 * len)" and "H \<equiv> (2::nat) ^ (8 * len - 1)"
    and "E \<equiv> expected_pn largest"
    and "c \<equiv> expected_pn largest div 2 ^ (8 * len) * 2 ^ (8 * len) + r"
  shows "decode_packet_number largest r len =
    (if c + H \<le> E \<and> H < E - c then c + W else if E + H < c \<and> W \<le> c then c - W else c)"
proof -
  have WH: "W = 2 * H"
    using assms(1) by (simp add: W_def H_def flip: power_Suc)
  have W4: "W \<le> 2 ^ 32"
    using assms(2) unfolding W_def by (intro power_increasing) auto
  have win: "push_bit (len * 8) 1 = W"
    by (simp add: W_def push_bit_eq_mult mult.commute)
  have cand: "push_bit (len * 8) (drop_bit (len * 8) E) OR r = c"
    using push_or_eq_add [of r "len * 8" "drop_bit (len * 8) E"] assms(3)
    by (simp add: E_def c_def drop_bit_eq_div mult.commute)
  have "E div W * W \<le> E" by (rule div_times_less_eq_dividend)
  moreover have "c = E div W * W + r" "r < W"
    using assms(3) by (simp_all add: c_def E_def W_def)
  moreover have "E < 2 ^ 62"
    using assms(4) by (simp add: E_def VARINT_MAX_def)
  moreover have "(2::nat) ^ 62 + 2 ^ 32 < 2 ^ 63" by simp
  ultimately have "c < 2 ^ 63"
    using W4 by linarith
  then have "wrapping_add c H = c + H" and "c < U64_MAX - W"
    using W4 WH by (auto intro: wrapping_add_exact simp add: U64_MAX_def)
  then show ?thesis
    unfolding decode_packet_number_def Let_def expected_pn_def [symmetric] E_def [symmetric]
      win cand by (simp add: WH)
qed

lemma decode_pn_window:
  assumes len: "1 \<le> len" "len \<le> 4" and ex: "expected_pn largest \<le> VARINT_MAX"
    and lo: "expected_pn largest < pn + 2 ^ (8 * len - 1)"
    and hi: "pn < expected_pn largest + 2 ^ (8 * len - 1)"
  shows "decode_packet_number largest (pn mod 2 ^ (8 * len)) len = pn"
proof -
  define H :: nat where "H = 2 ^ (8 * len - 1)"
  define W :: nat where "W = 2 ^ (8 * len)"
  define E where "E = expected_pn largest"
  define A where "A = E div W * W"
  define P where "P = pn div W * W"
  have W0: "0 < W" by (simp add: W_def)
  have WH: "W = 2 * H"
    using len by (simp add: W_def H_def flip: power_Suc)
  have E: "A \<le> E" "E < A + W"
    using div_mult_mod_eq [of E W] mod_less_divisor [OF W0, of E] unfolding A_def
    by linarith+
  have pn: "pn = P + pn mod W" "pn mod W < W"
    using div_mult_mod_eq [of pn W] mod_less_divisor [OF W0, of pn] unfolding P_def
    by linarith+
  have lohi: "E < pn + H" "pn < E + H"
    using lo hi by (simp_all add: E_def H_def)
  have "P < A + W + W" and "A < P + W + W"
    using lohi E pn WH by linarith+
  then have "pn div W * W < (E div W + 2) * W" and "E div W * W < (pn div W + 2) * W"
    by (simp_all add: A_def P_def algebra_simps)
  then have "pn div W < E div W + 2" and "E div W < pn div W + 2"
    by (simp_all only: mult_less_cancel2)
  then consider "pn div W = E div W" | "pn div W = E div W + 1" | "E div W = pn div W + 1"
    by linarith
  then have "P = A \<or> P = A + W \<or> A = P + W"
    by cases (simp_all add: A_def P_def)
  then show ?thesis
    using decode_packet_number_arith [OF len _ ex, of "pn mod W"] lohi E pn WH
    unfolding W_def [symmetric] H_def [symmetric] E_def [symmetric] A_def [symmetric]
    by (elim disjE) auto
qed

text \<open>The sender's choice of \<open>packet_number_len\<close> leaves the number inside the window.\<close>

lemma packet_number_len_bounds: "1 \<le> packet_number_len pn a" "packet_number_len pn a \<le> 4"
  by (simp_all add: packet_number_len_def Let_def)

lemma packet_number_len_covers:
  assumes "pn - a < 2 ^ 31"
  shows "pn - a < 2 ^ (8 * packet_number_len pn (Some a) - 1)"
  using assms by (auto simp add: packet_number_len_def Let_def sat_mul_def U64_MAX_def)

section \<open>Wire codecs\<close>

text \<open>
  The contract of an encoder and a decoder for the same wire form: the decoder
  reads back what the encoder wrote, whatever follows.
\<close>

fun repeat_d :: "nat \<Rightarrow> ('e, 'a) decoder \<Rightarrow> ('e, 'a list) decoder" where
  "repeat_d 0 p = return_d []"
| "repeat_d (Suc n) p =
     bind_d p (\<lambda>x. bind_d (repeat_d n p) (\<lambda>xs. return_d (x # xs)))"

locale wire_codec =
  fixes enc :: "'a \<Rightarrow> bytes"
    and dec :: "('e, 'a) decoder"
    and valid :: "'a \<Rightarrow> bool"
  assumes enc_reads: "valid x \<Longrightarrow> reads dec (enc x) x"
begin

lemma round_trip:
  assumes "valid x" and "length (enc x @ tail) \<le> U64_MAX"
  shows "dec (Buf_new (enc x @ tail)) = Inr (x, advance (length (enc x)) (Buf_new (enc x @ tail)))"
  using enc_reads [OF assms(1)] assms(2) unfolding reads_def by simp

lemma prefix_free:
  assumes "valid x" and "valid y" and "length (enc x @ s) \<le> U64_MAX"
    and eq: "enc x @ s = enc y @ t"
  shows "x = y \<and> s = t"
proof -
  have "dec (Buf_new (enc x @ s)) = Inr (x, advance (length (enc x)) (Buf_new (enc x @ s)))"
    using assms by (intro round_trip)
  moreover have "dec (Buf_new (enc x @ s)) = Inr (y, advance (length (enc y)) (Buf_new (enc y @ t)))"
    unfolding eq using assms by (intro round_trip) auto
  ultimately show ?thesis using eq by simp
qed

lemma reads_repeat:
  "list_all valid xs \<Longrightarrow> reads (repeat_d (length xs) dec) (concat (map enc xs)) xs"
proof (induction xs)
  case (Cons x xs)
  then have "reads (repeat_d (length (x # xs)) dec)
      (enc x @ concat (map enc xs) @ []) (x # xs)"
    unfolding length_Cons repeat_d.simps
    by (intro reads_bind [where x = x] reads_bind [where x = xs] reads_return enc_reads) auto
  then show ?case by simp
qed (simp add: reads_return)

end

interpretation varint: wire_codec put_varint get_varint "\<lambda>v. v \<le> VARINT_MAX"
proof unfold_locales
  fix x
  assume "x \<le> VARINT_MAX"
  then have "min x VARINT_MAX = x" by simp
  then show "reads get_varint (put_varint x) x"
    using reads_put_varint_min [of x] by simp
qed

lemma within_repeat: "within p \<Longrightarrow> within (repeat_d n p)"
  by (induction n) (simp_all add: within_return within_bind)

section \<open>Properties\<close>

text \<open>
  C36: variable-length integers round trip.  For every value a QUIC varint can hold,
  decoding the bytes \<open>put_varint\<close> wrote, whatever follows them in the buffer, returns
  the value and moves the cursor by \<open>varint_size\<close> bytes.
\<close>

theorem varint_roundtrip:
  assumes "v \<le> VARINT_MAX" and "length (put_varint v @ tail) \<le> U64_MAX"
  shows "get_varint (Buf_new (put_varint v @ tail)) =
    Inr (v, \<lparr>buf_bytes = put_varint v @ tail, buf_pos = varint_size v\<rparr>)"
  using varint.round_trip [OF assms] assms(1)
  by (simp add: advance_def Buf_new_def length_put_varint)

theorem varint_roundtrip_witness:
  "get_varint (Buf_new (put_varint 16384 @ [7])) =
    Inr (16384, \<lparr>buf_bytes = [0x80, 0, 0x40, 0, 7], buf_pos = 4\<rparr>)"
  using varint_roundtrip [of 16384 "[7]"]
  by (simp add: VARINT_MAX_def U64_MAX_def varint_size_def put_varint_def drop_bit_eq_div)



end
