(* ===== verification/Core_Types.thy ===== *)
theory Core_Types
  imports Prelude
begin

text \<open>
  The data types of \<^verbatim>\<open>oxiquic-core/src\<close>: stream and connection identifiers, packet
  and frame classification, versions, transport error codes, the unified error
  type, transport parameters and connection statistics.  A message built by
  \<^verbatim>\<open>format!\<close> is represented by its fixed text.
\<close>

section \<open>Streams\<close>

datatype Initiator = Client | Server

datatype Direction = Bidirectional | Unidirectional

text \<open>\<^verbatim>\<open>StreamId(u64)\<close> is its raw value.\<close>

type_synonym StreamId = nat

definition MAX_INDEX :: nat where
  "MAX_INDEX = 2 ^ 60 - 1"

definition StreamId_new :: "Initiator \<Rightarrow> Direction \<Rightarrow> nat \<Rightarrow> StreamId" where
  "StreamId_new initiator direction index =
     (let initiator_bit = (case initiator of Client \<Rightarrow> 0 | Server \<Rightarrow> 1);
          direction_bit = (case direction of Bidirectional \<Rightarrow> 0 | Unidirectional \<Rightarrow> 1);
          index = index AND MAX_INDEX
      in (push_bit 2 index OR push_bit 1 direction_bit) OR initiator_bit)"

definition stream_initiator :: "StreamId \<Rightarrow> Initiator" where
  "stream_initiator sid = (if sid AND 1 = 0 then Client else Server)"

definition stream_direction :: "StreamId \<Rightarrow> Direction" where
  "stream_direction sid = (if sid AND 2 = 0 then Bidirectional else Unidirectional)"

definition stream_index :: "StreamId \<Rightarrow> nat" where
  "stream_index sid = drop_bit 2 sid"

definition stream_text :: "StreamId \<Rightarrow> string" where
  "stream_text sid =
     (case stream_initiator sid of Client \<Rightarrow> ''client'' | Server \<Rightarrow> ''server'') @ '' ''
     @ (case stream_direction sid of Bidirectional \<Rightarrow> ''bidirectional'' | Unidirectional \<Rightarrow> ''unidirectional'')
     @ '' stream '' @ decimal (stream_index sid)"

section \<open>Versions and packet types\<close>

datatype QuicVersion = V1 | V2 | Negotiation | UnknownVersion nat

definition V1_VALUE :: nat where "V1_VALUE = 0x00000001"
definition V2_VALUE :: nat where "V2_VALUE = 0x6b3343cf"
definition NEGOTIATION_VALUE :: nat where "NEGOTIATION_VALUE = 0x00000000"

definition version_from_u32 :: "nat \<Rightarrow> QuicVersion" where
  "version_from_u32 value =
     (if value = V1_VALUE then V1
      else if value = V2_VALUE then V2
      else if value = NEGOTIATION_VALUE then Negotiation
      else UnknownVersion value)"

fun version_to_u32 :: "QuicVersion \<Rightarrow> nat" where
  "version_to_u32 V1 = V1_VALUE"
| "version_to_u32 V2 = V2_VALUE"
| "version_to_u32 Negotiation = NEGOTIATION_VALUE"
| "version_to_u32 (UnknownVersion value) = value"

definition version_is_supported :: "QuicVersion \<Rightarrow> bool" where
  "version_is_supported v = (case v of V1 \<Rightarrow> True | V2 \<Rightarrow> True | _ \<Rightarrow> False)"

definition version_is_negotiation :: "QuicVersion \<Rightarrow> bool" where
  "version_is_negotiation v = (case v of Negotiation \<Rightarrow> True | _ \<Rightarrow> False)"

datatype PacketType =
  PT_Initial | PT_ZeroRtt | PT_Handshake | PT_Retry | PT_VersionNegotiation | PT_Short

definition from_first_byte :: "u8 \<Rightarrow> PacketType" where
  "from_first_byte first_byte =
     (if first_byte AND 0x80 = 0 then PT_Short
      else let bits = drop_bit 4 (first_byte AND 0x30)
           in if bits = 0 then PT_Initial
              else if bits = 1 then PT_ZeroRtt
              else if bits = 2 then PT_Handshake
              else PT_Retry)"

definition from_first_byte_and_version :: "u8 \<Rightarrow> nat \<Rightarrow> PacketType" where
  "from_first_byte_and_version first_byte version =
     (if first_byte AND 0x80 \<noteq> 0 \<and> version = 0 then PT_VersionNegotiation
      else from_first_byte first_byte)"

definition is_long_header :: "PacketType \<Rightarrow> bool" where
  "is_long_header t = (case t of PT_Short \<Rightarrow> False | _ \<Rightarrow> True)"

section \<open>Transport error codes\<close>

datatype TransportErrorCode =
    NoError | InternalError | ConnectionRefused | FlowControlError | StreamLimitError
  | StreamStateError | FinalSizeError | FrameEncodingError | TransportParameterError
  | ConnectionIdLimitError | ProtocolViolation | InvalidToken | ApplicationError
  | CryptoBufferExceeded | KeyUpdateError | AeadLimitReached | NoViablePath
  | CryptoError u8 | UnknownCode nat

definition error_from_u64 :: "nat \<Rightarrow> TransportErrorCode" where
  "error_from_u64 value =
     (if value = 0x00 then NoError
      else if value = 0x01 then InternalError
      else if value = 0x02 then ConnectionRefused
      else if value = 0x03 then FlowControlError
      else if value = 0x04 then StreamLimitError
      else if value = 0x05 then StreamStateError
      else if value = 0x06 then FinalSizeError
      else if value = 0x07 then FrameEncodingError
      else if value = 0x08 then TransportParameterError
      else if value = 0x09 then ConnectionIdLimitError
      else if value = 0x0a then ProtocolViolation
      else if value = 0x0b then InvalidToken
      else if value = 0x0c then ApplicationError
      else if value = 0x0d then CryptoBufferExceeded
      else if value = 0x0e then KeyUpdateError
      else if value = 0x0f then AeadLimitReached
      else if value = 0x10 then NoViablePath
      else if 0x0100 \<le> value \<and> value \<le> 0x01ff then CryptoError (word_of_nat (value AND 0xff))
      else UnknownCode value)"

fun error_to_u64 :: "TransportErrorCode \<Rightarrow> nat" where
  "error_to_u64 NoError = 0x00"
| "error_to_u64 InternalError = 0x01"
| "error_to_u64 ConnectionRefused = 0x02"
| "error_to_u64 FlowControlError = 0x03"
| "error_to_u64 StreamLimitError = 0x04"
| "error_to_u64 StreamStateError = 0x05"
| "error_to_u64 FinalSizeError = 0x06"
| "error_to_u64 FrameEncodingError = 0x07"
| "error_to_u64 TransportParameterError = 0x08"
| "error_to_u64 ConnectionIdLimitError = 0x09"
| "error_to_u64 ProtocolViolation = 0x0a"
| "error_to_u64 InvalidToken = 0x0b"
| "error_to_u64 ApplicationError = 0x0c"
| "error_to_u64 CryptoBufferExceeded = 0x0d"
| "error_to_u64 KeyUpdateError = 0x0e"
| "error_to_u64 AeadLimitReached = 0x0f"
| "error_to_u64 NoViablePath = 0x10"
| "error_to_u64 (CryptoError alert) = 0x0100 OR unat alert"
| "error_to_u64 (UnknownCode value) = value"

section \<open>Frame types\<close>

datatype FrameType =
    FT_Padding | FT_Ping | FT_Ack | FT_ResetStream | FT_StopSending | FT_Crypto | FT_NewToken
  | FT_Stream | FT_MaxData | FT_MaxStreamData | FT_MaxStreams | FT_DataBlocked
  | FT_StreamDataBlocked | FT_StreamsBlocked | FT_NewConnectionId | FT_RetireConnectionId
  | FT_PathChallenge | FT_PathResponse | FT_ConnectionClose | FT_HandshakeDone | FT_Datagram

datatype OxiQuicError =
    E_Io string
  | E_Tls string
  | E_QuicCrypto string
  | E_Connection string
  | E_Stream string
  | E_TransportError TransportErrorCode "FrameType option" string
  | E_FrameEncoding string
  | E_FlowControl string
  | E_Protocol string
  | E_Timeout
  | E_IdleTimeout
  | E_VersionNegotiation "nat list"
  | E_StatelessReset
  | E_ApplicationClose nat string
  | E_NotImplemented string

definition is_timeout :: "OxiQuicError \<Rightarrow> bool" where
  "is_timeout e = (case e of E_Timeout \<Rightarrow> True | E_IdleTimeout \<Rightarrow> True | _ \<Rightarrow> False)"

definition is_closed :: "OxiQuicError \<Rightarrow> bool" where
  "is_closed e =
     (case e of E_ApplicationClose _ _ \<Rightarrow> True | E_TransportError _ _ _ \<Rightarrow> True
      | E_IdleTimeout \<Rightarrow> True | E_StatelessReset \<Rightarrow> True | _ \<Rightarrow> False)"

definition is_reset_error :: "OxiQuicError \<Rightarrow> bool" where
  "is_reset_error e = (case e of E_StatelessReset \<Rightarrow> True | _ \<Rightarrow> False)"

definition frame_type_from_varint :: "nat \<Rightarrow> OxiQuicError + FrameType" where
  "frame_type_from_varint value =
     (if value = 0x00 then Inr FT_Padding
      else if value = 0x01 then Inr FT_Ping
      else if value = 0x02 \<or> value = 0x03 then Inr FT_Ack
      else if value = 0x04 then Inr FT_ResetStream
      else if value = 0x05 then Inr FT_StopSending
      else if value = 0x06 then Inr FT_Crypto
      else if value = 0x07 then Inr FT_NewToken
      else if 0x08 \<le> value \<and> value \<le> 0x0f then Inr FT_Stream
      else if value = 0x10 then Inr FT_MaxData
      else if value = 0x11 then Inr FT_MaxStreamData
      else if value = 0x12 \<or> value = 0x13 then Inr FT_MaxStreams
      else if value = 0x14 then Inr FT_DataBlocked
      else if value = 0x15 then Inr FT_StreamDataBlocked
      else if value = 0x16 \<or> value = 0x17 then Inr FT_StreamsBlocked
      else if value = 0x18 then Inr FT_NewConnectionId
      else if value = 0x19 then Inr FT_RetireConnectionId
      else if value = 0x1a then Inr FT_PathChallenge
      else if value = 0x1b then Inr FT_PathResponse
      else if value = 0x1c \<or> value = 0x1d then Inr FT_ConnectionClose
      else if value = 0x1e then Inr FT_HandshakeDone
      else if value = 0x30 \<or> value = 0x31 then Inr FT_Datagram
      else Inl (E_FrameEncoding ''unknown frame type''))"

fun type_value :: "FrameType \<Rightarrow> nat" where
  "type_value FT_Padding = 0x00"
| "type_value FT_Ping = 0x01"
| "type_value FT_Ack = 0x02"
| "type_value FT_ResetStream = 0x04"
| "type_value FT_StopSending = 0x05"
| "type_value FT_Crypto = 0x06"
| "type_value FT_NewToken = 0x07"
| "type_value FT_Stream = 0x08"
| "type_value FT_MaxData = 0x10"
| "type_value FT_MaxStreamData = 0x11"
| "type_value FT_MaxStreams = 0x12"
| "type_value FT_DataBlocked = 0x14"
| "type_value FT_StreamDataBlocked = 0x15"
| "type_value FT_StreamsBlocked = 0x16"
| "type_value FT_NewConnectionId = 0x18"
| "type_value FT_RetireConnectionId = 0x19"
| "type_value FT_PathChallenge = 0x1a"
| "type_value FT_PathResponse = 0x1b"
| "type_value FT_ConnectionClose = 0x1c"
| "type_value FT_HandshakeDone = 0x1e"
| "type_value FT_Datagram = 0x30"

definition frame_type_is_ack_eliciting :: "FrameType \<Rightarrow> bool" where
  "frame_type_is_ack_eliciting t = (t \<notin> {FT_Ack, FT_Padding, FT_ConnectionClose})"

definition frame_type_is_probing :: "FrameType \<Rightarrow> bool" where
  "frame_type_is_probing t =
     (t \<in> {FT_PathChallenge, FT_PathResponse, FT_NewConnectionId, FT_Padding})"

section \<open>Connection identifiers\<close>

type_synonym ConnectionId = bytes

definition MAX_CONNECTION_ID_LEN :: nat where
  "MAX_CONNECTION_ID_LEN = 20"

definition cid_validate :: "ConnectionId \<Rightarrow> OxiQuicError + unit" where
  "cid_validate cid =
     (if length cid > MAX_CONNECTION_ID_LEN
      then Inl (E_Protocol (''connection ID length '' @ decimal (length cid) @ '' exceeds maximum of ''
                              @ decimal MAX_CONNECTION_ID_LEN @ '' bytes''))
      else Inr ())"

definition cid_try_new :: "bytes \<Rightarrow> OxiQuicError + ConnectionId" where
  "cid_try_new bs = bind_result (cid_validate bs) (\<lambda>_. Inr bs)"

section \<open>Transport parameters\<close>

definition DEFAULT_MAX_UDP_PAYLOAD_SIZE :: nat where "DEFAULT_MAX_UDP_PAYLOAD_SIZE = 65527"
definition MIN_MAX_UDP_PAYLOAD_SIZE :: nat where "MIN_MAX_UDP_PAYLOAD_SIZE = 1200"
definition DEFAULT_ACK_DELAY_EXPONENT :: nat where "DEFAULT_ACK_DELAY_EXPONENT = 3"
definition MAX_ACK_DELAY_EXPONENT :: nat where "MAX_ACK_DELAY_EXPONENT = 20"
definition DEFAULT_MAX_ACK_DELAY_MS :: nat where "DEFAULT_MAX_ACK_DELAY_MS = 25"
definition MAX_ACK_DELAY_MS_LIMIT :: nat where "MAX_ACK_DELAY_MS_LIMIT = 2 ^ 14"
definition DEFAULT_ACTIVE_CONNECTION_ID_LIMIT :: nat where "DEFAULT_ACTIVE_CONNECTION_ID_LIMIT = 2"
definition MIN_ACTIVE_CONNECTION_ID_LIMIT :: nat where "MIN_ACTIVE_CONNECTION_ID_LIMIT = 2"

record TransportParams =
  max_idle_timeout_ms :: u64
  max_udp_payload_size :: u64
  initial_max_data :: u64
  initial_max_stream_data_bidi_local :: u64
  initial_max_stream_data_bidi_remote :: u64
  initial_max_stream_data_uni :: u64
  initial_max_streams_bidi :: u64
  initial_max_streams_uni :: u64
  ack_delay_exponent :: nat
  max_ack_delay_ms :: u64
  active_connection_id_limit :: u64
  disable_active_migration :: bool
  max_datagram_frame_size :: u64

definition TransportParams_default :: TransportParams where
  "TransportParams_default =
     \<lparr>max_idle_timeout_ms = 0,
      max_udp_payload_size = DEFAULT_MAX_UDP_PAYLOAD_SIZE,
      initial_max_data = 0,
      initial_max_stream_data_bidi_local = 0,
      initial_max_stream_data_bidi_remote = 0,
      initial_max_stream_data_uni = 0,
      initial_max_streams_bidi = 0,
      initial_max_streams_uni = 0,
      ack_delay_exponent = DEFAULT_ACK_DELAY_EXPONENT,
      max_ack_delay_ms = DEFAULT_MAX_ACK_DELAY_MS,
      active_connection_id_limit = DEFAULT_ACTIVE_CONNECTION_ID_LIMIT,
      disable_active_migration = False,
      max_datagram_frame_size = 0\<rparr>"

definition params_validate :: "TransportParams \<Rightarrow> OxiQuicError + unit" where
  "params_validate p =
     (let reject = (\<lambda>reason. Inl (E_TransportError TransportParameterError None reason))
      in if ack_delay_exponent p > MAX_ACK_DELAY_EXPONENT
         then reject (''ack_delay_exponent '' @ decimal (ack_delay_exponent p) @ '' exceeds maximum of ''
                        @ decimal MAX_ACK_DELAY_EXPONENT)
         else if max_ack_delay_ms p \<ge> MAX_ACK_DELAY_MS_LIMIT
         then reject (''max_ack_delay '' @ decimal (max_ack_delay_ms p) @ ''ms must be less than ''
                        @ decimal MAX_ACK_DELAY_MS_LIMIT @ ''ms'')
         else if max_udp_payload_size p < MIN_MAX_UDP_PAYLOAD_SIZE
         then reject (''max_udp_payload_size '' @ decimal (max_udp_payload_size p) @ '' is below the minimum of ''
                        @ decimal MIN_MAX_UDP_PAYLOAD_SIZE)
         else if active_connection_id_limit p < MIN_ACTIVE_CONNECTION_ID_LIMIT
         then reject (''active_connection_id_limit '' @ decimal (active_connection_id_limit p)
                        @ '' is below the minimum of '' @ decimal MIN_ACTIVE_CONNECTION_ID_LIMIT)
         else Inr ())"

section \<open>Statistics\<close>

record ConnectionStats =
  st_rtt :: duration
  st_min_rtt :: duration
  st_smoothed_rtt :: duration
  st_rtt_variance :: duration
  st_bytes_sent :: u64
  st_bytes_recv :: u64
  st_packets_sent :: u64
  st_packets_recv :: u64
  st_packets_lost :: u64
  st_congestion_window :: u64
  st_streams_opened :: u64
  st_streams_closed :: u64

definition streams_active :: "ConnectionStats \<Rightarrow> u64" where
  "streams_active s = st_streams_opened s - st_streams_closed s"

definition goodput_bytes :: "ConnectionStats \<Rightarrow> u64" where
  "goodput_bytes s = st_bytes_recv s - sat_mul (st_packets_recv s) 50"

section \<open>Lemmas\<close>

lemma and_1_nat: "(n::nat) AND 1 = n mod 2"
  by (simp add: and_one_eq)

lemma and_2_nat: "(n::nat) AND 2 = 0 \<longleftrightarrow> (n div 2) mod 2 = 0"
proof -
  have "n AND 2 = 2 * ((n div 2) AND 1)"
    by (simp add: and_rec [of n 2] and_1_nat)
  then show ?thesis by (simp add: and_one_eq)
qed

lemma StreamId_new_arith:
  assumes "n \<le> MAX_INDEX"
  shows "StreamId_new i d n =
    4 * n + (case d of Bidirectional \<Rightarrow> 0 | Unidirectional \<Rightarrow> 2)
          + (case i of Client \<Rightarrow> 0 | Server \<Rightarrow> 1)"
proof -
  have "n AND MAX_INDEX = take_bit 60 n"
    by (simp add: MAX_INDEX_def take_bit_eq_mask mask_eq_exp_minus_1)
  also have "\<dots> = n"
    using assms by (simp add: MAX_INDEX_def take_bit_eq_mod)
  finally have n: "n AND MAX_INDEX = n" .
  have "4 * n OR 2 = 4 * n + 2" "4 * n OR 1 = 4 * n + 1"
    by (simp_all add: or_rec [of "4 * n"] or_rec [of "2 * n"] or_one_eq)
  moreover have "(4 * n + 2) OR 1 = 4 * n + 3"
    by (subst or_one_eq) simp
  ultimately have or: "4 * n OR 2 = 4 * n + 2" "4 * n OR 1 = 4 * n + 1" "(4 * n + 2) OR 1 = 4 * n + 3"
    by simp_all
  show ?thesis
    unfolding StreamId_new_def Let_def n
    using or by (cases i; cases d) (simp_all add: push_bit_eq_mult mult.commute)
qed

lemma StreamId_fields:
  assumes "n \<le> MAX_INDEX"
  shows "stream_initiator (StreamId_new i d n) = i"
    and "stream_direction (StreamId_new i d n) = d"
    and "stream_index (StreamId_new i d n) = n"
  unfolding stream_initiator_def stream_direction_def stream_index_def and_1_nat and_2_nat
    StreamId_new_arith [OF assms]
  by (cases i; cases d; simp add: drop_bit_eq_div; presburger)+

lemma StreamId_of_fields:
  assumes "sid < 2 ^ 62"
  shows "StreamId_new (stream_initiator sid) (stream_direction sid) (stream_index sid) = sid"
proof -
  have "stream_index sid \<le> MAX_INDEX"
    using assms by (simp add: stream_index_def MAX_INDEX_def drop_bit_eq_div)
  then show ?thesis
    unfolding StreamId_new_arith stream_initiator_def stream_direction_def and_1_nat and_2_nat
    by (simp add: StreamId_new_arith stream_index_def drop_bit_eq_div split: if_splits) presburger
qed

lemma crypto_code_roundtrip:
  assumes "0x100 \<le> v" and "v \<le> 0x1ff"
  shows "(0x100::nat) OR unat (word_of_nat (v AND 0xff) :: u8) = v"
proof -
  have "v AND 0xff = take_bit 8 v"
    by (simp add: take_bit_eq_mask mask_eq_exp_minus_1)
  then have "unat (word_of_nat (v AND 0xff) :: u8) = take_bit 8 v"
    by (simp add: unsigned_of_nat)
  moreover have "drop_bit 8 v = 1"
    using assms by (simp add: drop_bit_eq_div)
  moreover have "push_bit 8 (drop_bit 8 v) OR take_bit 8 v = v"
    by (rule bit_eqI) (auto simp add: bit_or_iff bit_push_bit_iff bit_drop_bit_eq bit_take_bit_iff)
  ultimately show ?thesis by (simp add: push_bit_eq_mult)
qed

lemma error_code_roundtrip: "error_to_u64 (error_from_u64 v) = v"
  using crypto_code_roundtrip [of v] by (simp add: error_from_u64_def)

lemma version_roundtrip: "version_to_u32 (version_from_u32 v) = v"
  by (simp add: version_from_u32_def)

lemma frame_type_roundtrip: "frame_type_from_varint (type_value t) = Inr t"
  by (cases t) (simp_all add: frame_type_from_varint_def)

section \<open>Properties\<close>

text \<open>
  C40: stream identifiers are a bijection between 62-bit values and the triples of
  initiator, direction and 60-bit index.  Composing an identifier and reading its
  fields returns them, and recomposing the fields of any 62-bit identifier returns it.
\<close>

theorem stream_id_bijection:
  assumes "n \<le> MAX_INDEX" and "sid < 2 ^ 62"
  shows "stream_initiator (StreamId_new i d n) = i
    \<and> stream_direction (StreamId_new i d n) = d
    \<and> stream_index (StreamId_new i d n) = n
    \<and> StreamId_new (stream_initiator sid) (stream_direction sid) (stream_index sid) = sid"
  using StreamId_fields [OF assms(1)] StreamId_of_fields [OF assms(2)] by simp

theorem stream_id_bijection_witness:
  "stream_index (StreamId_new Server Unidirectional 5) = 5
   \<and> StreamId_new (stream_initiator 23) (stream_direction 23) (stream_index 23) = 23"
  using stream_id_bijection [of 5 23 Server Unidirectional] by (simp add: MAX_INDEX_def)

text \<open>
  the numeric registries decode and re-encode without loss.  Every 64-bit
  transport error code and every 32-bit version survives decoding and encoding,
  TLS alerts and unassigned values included, and every frame type is recovered from
  its canonical type value.
\<close>

theorem registries_roundtrip:
  "error_to_u64 (error_from_u64 code) = code
   \<and> version_to_u32 (version_from_u32 version) = version
   \<and> frame_type_from_varint (type_value t) = Inr t"
  by (simp add: error_code_roundtrip version_roundtrip frame_type_roundtrip)

end
