(* ===== verification/Frames.thy ===== *)
theory Frames
  imports Coding Core_Types
begin

text \<open>
  \<^verbatim>\<open>oxiquic-transport/src/frame.rs\<close>: the frames of RFC 9000 and RFC 9221, their wire
  encoding and their decoder.  The arms of \<^verbatim>\<open>decode_frame\<close> are one definition each.
\<close>

section \<open>Frames\<close>

record AckRange =
  ar_gap :: u64
  ar_range :: u64

datatype Frame =
    Padding nat
  | Ping
  | Ack u64 u64 u64 "AckRange list"
  | ResetStream u64 u64 u64
  | StopSending u64 u64
  | Crypto u64 bytes
  | Stream u64 u64 bool bytes
  | MaxData u64
  | MaxStreamData u64 u64
  | DataBlocked u64
  | StreamDataBlocked u64 u64
  | PathChallenge bytes
  | PathResponse bytes
  | ConnectionClose u64 "u64 option" bool bytes
  | HandshakeDone
  | NewConnectionId u64 u64 ConnectionId bytes
  | RetireConnectionId u64
  | MaxStreams Direction u64
  | StreamsBlocked Direction u64
  | NewToken bytes
  | Datagram bytes
  | Unsupported u64

fun is_ack_eliciting :: "Frame \<Rightarrow> bool" where
  "is_ack_eliciting (Padding _) = False"
| "is_ack_eliciting (Ack _ _ _ _) = False"
| "is_ack_eliciting (ConnectionClose _ _ _ _) = False"
| "is_ack_eliciting _ = True"

section \<open>Encoding\<close>

definition encode_ack_range :: "AckRange \<Rightarrow> bytes" where
  "encode_ack_range r = put_varint (ar_gap r) @ put_varint (ar_range r)"

fun encode :: "Frame \<Rightarrow> bytes" where
  "encode (Padding n) = replicate n 0"
| "encode Ping = put_varint 0x01"
| "encode (Ack largest delay first_range ranges) =
     put_varint 0x02 @ put_varint largest @ put_varint delay @ put_varint (length ranges)
     @ put_varint first_range @ concat (map encode_ack_range ranges)"
| "encode (ResetStream stream_id error_code final_size) =
     put_varint 0x04 @ put_varint stream_id @ put_varint error_code @ put_varint final_size"
| "encode (StopSending stream_id error_code) =
     put_varint 0x05 @ put_varint stream_id @ put_varint error_code"
| "encode (Crypto offset data) =
     put_varint 0x06 @ put_varint offset @ put_varint (length data) @ data"
| "encode (NewToken token) =
     put_varint 0x07 @ put_varint (length token) @ token"
| "encode (Stream sid offset fin data) =
     put_varint (let typ = (0x08 OR 0x04) OR 0x02 in if fin then typ OR 0x01 else typ)
     @ put_varint sid @ put_varint offset @ put_varint (length data) @ data"
| "encode (MaxData mx) = put_varint 0x10 @ put_varint mx"
| "encode (MaxStreamData sid mx) = put_varint 0x11 @ put_varint sid @ put_varint mx"
| "encode (DataBlocked limit) = put_varint 0x14 @ put_varint limit"
| "encode (StreamDataBlocked sid limit) = put_varint 0x15 @ put_varint sid @ put_varint limit"
| "encode (ConnectionClose error_code frame_type application reason) =
     put_varint (if application then 0x1d else 0x1c) @ put_varint error_code
     @ (if \<not> application
        then put_varint (case frame_type of Some t \<Rightarrow> t | None \<Rightarrow> 0) else [])
     @ put_varint (length reason) @ reason"
| "encode (PathChallenge data) = put_varint 0x1a @ data"
| "encode (PathResponse data) = put_varint 0x1b @ data"
| "encode HandshakeDone = put_varint 0x1e"
| "encode (NewConnectionId seq retire_prior_to cid stateless_reset_token) =
     put_varint 0x18 @ put_varint seq @ put_varint retire_prior_to
     @ [word_of_nat (length cid)] @ cid @ stateless_reset_token"
| "encode (RetireConnectionId seq) = put_varint 0x19 @ put_varint seq"
| "encode (MaxStreams dir mx) =
     put_varint (if dir = Unidirectional then 0x13 else 0x12) @ put_varint mx"
| "encode (StreamsBlocked dir limit) =
     put_varint (if dir = Unidirectional then 0x17 else 0x16) @ put_varint limit"
| "encode (Datagram data) = put_varint 0x31 @ put_varint (length data) @ data"
| "encode (Unsupported _) = []"

section \<open>Decoding\<close>

record FrameError =
  fe_code :: TransportErrorCode
  fe_detail :: string

definition frame_error :: "string \<Rightarrow> FrameError" where
  "frame_error detail = \<lparr>fe_code = FrameEncodingError, fe_detail = detail\<rparr>"

definition frame_error_of_codec :: "codec_error \<Rightarrow> FrameError" where
  "frame_error_of_codec e = frame_error ''truncated frame''"

text \<open>Reads in \<^verbatim>\<open>decode_frame\<close>: \<^verbatim>\<open>?\<close> converts the codec error.\<close>

definition f_varint :: "(FrameError, u64) decoder" where
  "f_varint = map_err_d frame_error_of_codec get_varint"

definition f_u8 :: "(FrameError, u8) decoder" where
  "f_u8 = map_err_d frame_error_of_codec get_u8"

definition f_bytes :: "nat \<Rightarrow> (FrameError, bytes) decoder" where
  "f_bytes n = map_err_d frame_error_of_codec (get_bytes n)"

definition f_rest :: "(FrameError, bytes) decoder" where
  "f_rest b = f_bytes (remaining b) b"

function decode_padding_loop :: "nat \<Rightarrow> Buf \<Rightarrow> nat \<times> Buf" where
  "decode_padding_loop count b =
     (if remaining b > 0
      then (case get_u8 b of
              Inr (x, b') \<Rightarrow> if x = 0 then decode_padding_loop (count + 1) b' else (count, b)
            | Inl _ \<Rightarrow> (count, b))
      else (count, b))"
  by pat_completeness auto
termination
  by (relation "measure (\<lambda>(_, b). remaining b)")
    (auto simp add: remaining_def get_u8_def split: if_splits)

declare decode_padding_loop.simps [simp del]

definition decode_padding :: "(FrameError, Frame) decoder" where
  "decode_padding b = (let (count, b') = decode_padding_loop 1 b in Inr (Padding count, b'))"

definition decode_ack_range :: "(FrameError, AckRange) decoder" where
  "decode_ack_range =
     bind_d f_varint (\<lambda>g. bind_d f_varint (\<lambda>r. return_d \<lparr>ar_gap = g, ar_range = r\<rparr>))"

definition decode_ack :: "u64 \<Rightarrow> (FrameError, Frame) decoder" where
  "decode_ack typ =
     bind_d f_varint (\<lambda>largest.
     bind_d f_varint (\<lambda>delay.
     bind_d f_varint (\<lambda>range_count.
     bind_d f_varint (\<lambda>first_range.
     bind_d (repeat_d range_count decode_ack_range) (\<lambda>ranges.
     bind_d (if typ = 0x03
             then bind_d f_varint (\<lambda>_. bind_d f_varint (\<lambda>_. bind_d f_varint (\<lambda>_. return_d ())))
             else return_d ()) (\<lambda>_.
     return_d (Ack largest delay first_range ranges)))))))"

definition decode_reset_stream :: "(FrameError, Frame) decoder" where
  "decode_reset_stream =
     bind_d f_varint (\<lambda>stream_id.
     bind_d f_varint (\<lambda>error_code.
     bind_d f_varint (\<lambda>final_size.
     return_d (ResetStream stream_id error_code final_size))))"

definition decode_stop_sending :: "(FrameError, Frame) decoder" where
  "decode_stop_sending =
     bind_d f_varint (\<lambda>stream_id.
     bind_d f_varint (\<lambda>error_code.
     return_d (StopSending stream_id error_code)))"

definition decode_crypto :: "(FrameError, Frame) decoder" where
  "decode_crypto =
     bind_d f_varint (\<lambda>offset.
     bind_d f_varint (\<lambda>len.
     bind_d (f_bytes len) (\<lambda>data.
     return_d (Crypto offset data))))"

definition decode_new_token :: "(FrameError, Frame) decoder" where
  "decode_new_token =
     bind_d f_varint (\<lambda>len.
     if len = 0 then fail_d (frame_error ''NEW_TOKEN empty'')
     else bind_d (f_bytes len) (\<lambda>token. return_d (NewToken token)))"

definition decode_stream :: "u64 \<Rightarrow> (FrameError, Frame) decoder" where
  "decode_stream typ =
     bind_d f_varint (\<lambda>id.
     bind_d (if typ AND 0x04 \<noteq> 0 then f_varint else return_d 0) (\<lambda>offset.
     bind_d (if typ AND 0x02 \<noteq> 0 then f_varint else (\<lambda>b. Inr (remaining b, b))) (\<lambda>len.
     let fin = (typ AND 0x01 \<noteq> 0) in
     bind_d (f_bytes len) (\<lambda>data.
     return_d (Stream id offset fin data)))))"

definition decode_max_streams :: "u64 \<Rightarrow> (FrameError, Frame) decoder" where
  "decode_max_streams typ =
     bind_d f_varint (\<lambda>max.
     if max > 2 ^ 60 then fail_d (frame_error ''MAX_STREAMS exceeds 2^60'')
     else return_d (MaxStreams (if typ = 0x13 then Unidirectional else Bidirectional) max))"

definition decode_new_connection_id :: "(FrameError, Frame) decoder" where
  "decode_new_connection_id =
     bind_d f_varint (\<lambda>seq.
     bind_d f_varint (\<lambda>retire_prior_to.
     if retire_prior_to > seq
     then fail_d (frame_error ''NEW_CONNECTION_ID: retire_prior_to > seq'')
     else
       bind_d f_u8 (\<lambda>len_byte.
       let cid_len = unat len_byte in
       if cid_len = 0 \<or> cid_len > 20
       then fail_d (frame_error ''NEW_CONNECTION_ID: invalid CID length (must be 1-20)'')
       else
         bind_d (f_bytes cid_len) (\<lambda>cid.
         bind_d (f_bytes 16) (\<lambda>token.
         return_d (NewConnectionId seq retire_prior_to cid token))))))"

definition decode_connection_close :: "u64 \<Rightarrow> (FrameError, Frame) decoder" where
  "decode_connection_close typ =
     bind_d f_varint (\<lambda>error_code.
     bind_d (if typ = 0x1c then bind_d f_varint (\<lambda>t. return_d (Some t)) else return_d None)
       (\<lambda>frame_type.
     bind_d f_varint (\<lambda>reason_len.
     bind_d (f_bytes reason_len) (\<lambda>reason.
     return_d (ConnectionClose error_code frame_type (typ = 0x1d) reason)))))"

definition decode_frame_body :: "u64 \<Rightarrow> (FrameError, Frame) decoder" where
  "decode_frame_body typ =
     (if typ = 0x00 then decode_padding
      else if typ = 0x01 then return_d Ping
      else if typ = 0x02 \<or> typ = 0x03 then decode_ack typ
      else if typ = 0x04 then decode_reset_stream
      else if typ = 0x05 then decode_stop_sending
      else if typ = 0x06 then decode_crypto
      else if typ = 0x07 then decode_new_token
      else if 0x08 \<le> typ \<and> typ \<le> 0x0f then decode_stream typ
      else if typ = 0x10 then bind_d f_varint (\<lambda>m. return_d (MaxData m))
      else if typ = 0x11 then
        bind_d f_varint (\<lambda>id. bind_d f_varint (\<lambda>max. return_d (MaxStreamData id max)))
      else if typ = 0x12 \<or> typ = 0x13 then decode_max_streams typ
      else if typ = 0x14 then bind_d f_varint (\<lambda>l. return_d (DataBlocked l))
      else if typ = 0x15 then
        bind_d f_varint (\<lambda>id. bind_d f_varint (\<lambda>limit. return_d (StreamDataBlocked id limit)))
      else if typ = 0x16 \<or> typ = 0x17 then
        bind_d f_varint (\<lambda>limit.
          return_d (StreamsBlocked (if typ = 0x17 then Unidirectional else Bidirectional) limit))
      else if typ = 0x18 then decode_new_connection_id
      else if typ = 0x19 then bind_d f_varint (\<lambda>seq. return_d (RetireConnectionId seq))
      else if typ = 0x1a then bind_d (f_bytes 8) (\<lambda>data. return_d (PathChallenge data))
      else if typ = 0x1b then bind_d (f_bytes 8) (\<lambda>data. return_d (PathResponse data))
      else if typ = 0x1c \<or> typ = 0x1d then decode_connection_close typ
      else if typ = 0x1e then return_d HandshakeDone
      else if typ = 0x30 then bind_d f_rest (\<lambda>data. return_d (Datagram data))
      else if typ = 0x31 then
        bind_d f_varint (\<lambda>len. bind_d (f_bytes len) (\<lambda>data. return_d (Datagram data)))
      else fail_d (frame_error ''unknown frame type''))"

definition decode_frame :: "(FrameError, Frame) decoder" where
  "decode_frame = bind_d f_varint decode_frame_body"

section \<open>Round trip\<close>

text \<open>The frames an encoder may be given: fields that fit a varint and the
  constraints RFC 9000 puts on single frames.  \<^verbatim>\<open>PADDING\<close> runs coalesce with what
  follows and are treated apart.\<close>

fun frame_ok :: "Frame \<Rightarrow> bool" where
  "frame_ok (Padding n) = False"
| "frame_ok Ping = True"
| "frame_ok (Ack l d f rs) =
     (l \<le> VARINT_MAX \<and> d \<le> VARINT_MAX \<and> f \<le> VARINT_MAX \<and> length rs \<le> VARINT_MAX
      \<and> list_all (\<lambda>r. ar_gap r \<le> VARINT_MAX \<and> ar_range r \<le> VARINT_MAX) rs)"
| "frame_ok (ResetStream s e f) = (s \<le> VARINT_MAX \<and> e \<le> VARINT_MAX \<and> f \<le> VARINT_MAX)"
| "frame_ok (StopSending s e) = (s \<le> VARINT_MAX \<and> e \<le> VARINT_MAX)"
| "frame_ok (Crypto off data) = (off \<le> VARINT_MAX \<and> length data \<le> VARINT_MAX)"
| "frame_ok (Stream i off fin data) =
     (i \<le> VARINT_MAX \<and> off \<le> VARINT_MAX \<and> length data \<le> VARINT_MAX)"
| "frame_ok (MaxData m) = (m \<le> VARINT_MAX)"
| "frame_ok (MaxStreamData i m) = (i \<le> VARINT_MAX \<and> m \<le> VARINT_MAX)"
| "frame_ok (DataBlocked l) = (l \<le> VARINT_MAX)"
| "frame_ok (StreamDataBlocked i l) = (i \<le> VARINT_MAX \<and> l \<le> VARINT_MAX)"
| "frame_ok (PathChallenge d) = (length d = 8)"
| "frame_ok (PathResponse d) = (length d = 8)"
| "frame_ok (ConnectionClose e ft app reason) =
     (e \<le> VARINT_MAX \<and> length reason \<le> VARINT_MAX
      \<and> (case ft of None \<Rightarrow> app | Some t \<Rightarrow> \<not> app \<and> t \<le> VARINT_MAX))"
| "frame_ok HandshakeDone = True"
| "frame_ok (NewConnectionId s r cid tok) =
     (s \<le> VARINT_MAX \<and> r \<le> s \<and> 1 \<le> length cid \<and> length cid \<le> 20 \<and> length tok = 16)"
| "frame_ok (RetireConnectionId s) = (s \<le> VARINT_MAX)"
| "frame_ok (MaxStreams dir m) = (m \<le> 2 ^ 60)"
| "frame_ok (StreamsBlocked dir l) = (l \<le> VARINT_MAX)"
| "frame_ok (NewToken t) = (t \<noteq> [] \<and> length t \<le> VARINT_MAX)"
| "frame_ok (Datagram d) = (length d \<le> VARINT_MAX)"
| "frame_ok (Unsupported _) = False"

lemma reads_varint_bind:
  "v \<le> VARINT_MAX \<Longrightarrow> reads (f v) enc y \<Longrightarrow> reads (bind_d f_varint f) (put_varint v @ enc) y"
  unfolding f_varint_def by (intro reads_bind [where x = v] reads_map_err varint.enc_reads)

lemma reads_varint_last:
  "v \<le> VARINT_MAX \<Longrightarrow> reads (f v) [] y \<Longrightarrow> reads (bind_d f_varint f) (put_varint v) y"
  using reads_varint_bind [of v f "[]" y] by simp

lemma reads_bytes_bind:
  "n = length d \<Longrightarrow> reads (f d) enc y \<Longrightarrow> reads (bind_d (f_bytes n) f) (d @ enc) y"
  unfolding f_bytes_def by (intro reads_bind [where x = d] reads_map_err reads_get_bytes_len)

lemma reads_bytes_last:
  "n = length d \<Longrightarrow> reads (f d) [] y \<Longrightarrow> reads (bind_d (f_bytes n) f) d y"
  using reads_bytes_bind [of n d f "[]" y] by simp

lemma reads_f_u8_bind:
  "reads (f x) enc y \<Longrightarrow> reads (bind_d f_u8 f) (x # enc) y"
  using reads_bind [OF reads_map_err [OF reads_get_u8], of f x enc y frame_error_of_codec]
  unfolding f_u8_def by simp

lemma reads_return_bind: "reads (f x) enc y \<Longrightarrow> reads (bind_d (return_d x) f) enc y"
  using reads_bind [OF reads_return, of f x enc y] by simp

lemma bind_assoc: "bind_d (bind_d p f) g = bind_d p (\<lambda>x. bind_d (f x) g)"
  by (rule ext) (simp add: bind_d_def split: sum.splits)

lemma reads_return_eq: "x = y \<Longrightarrow> reads (return_d x) [] y"
  by (simp add: reads_return)

lemmas reads_intros = reads_varint_bind reads_bytes_bind reads_varint_last reads_bytes_last
  reads_f_u8_bind reads_return_bind reads_return_eq

interpretation ack_range: wire_codec encode_ack_range decode_ack_range
  "\<lambda>r. ar_gap r \<le> VARINT_MAX \<and> ar_range r \<le> VARINT_MAX"
  by unfold_locales (auto simp add: encode_ack_range_def decode_ack_range_def intro!: reads_intros)

lemma reads_ack_ranges:
  assumes "list_all (\<lambda>r. ar_gap r \<le> VARINT_MAX \<and> ar_range r \<le> VARINT_MAX) rs"
    and "reads (f rs) [] y"
  shows "reads (bind_d (repeat_d (length rs) decode_ack_range) f) (concat (map encode_ack_range rs)) y"
  using reads_bind [OF ack_range.reads_repeat [OF assms(1)], of f "[]" y] assms(2) by simp

lemma VM_small: "n \<le> 2 ^ 60 \<Longrightarrow> n \<le> VARINT_MAX" "n \<le> 64 \<Longrightarrow> n \<le> VARINT_MAX"
  by (simp_all add: VARINT_MAX_def)

lemmas decode_arms = decode_frame_body_def decode_ack_def decode_reset_stream_def
  decode_stop_sending_def decode_crypto_def decode_new_token_def decode_stream_def
  decode_max_streams_def decode_new_connection_id_def decode_connection_close_def

lemma reads_frame_body:
  "t \<le> 64 \<Longrightarrow> reads (decode_frame_body t) enc f \<Longrightarrow> reads decode_frame (put_varint t @ enc) f"
  unfolding decode_frame_def by (rule reads_varint_bind) (simp_all add: VM_small)

lemma reads_frame_body_last:
  "t \<le> 64 \<Longrightarrow> reads (decode_frame_body t) [] f \<Longrightarrow> reads decode_frame (put_varint t) f"
  using reads_frame_body [of t "[]" f] by simp

lemma frame_reads: "frame_ok f \<Longrightarrow> reads decode_frame (encode f) f"
proof (cases f)
  case (ConnectionClose e ft app reason)
  then show "frame_ok f \<Longrightarrow> reads decode_frame (encode f) f"
    by (cases app; cases ft)
      (auto intro!: reads_frame_body reads_intros simp add: decode_arms bind_assoc)
next
  case (NewConnectionId s r cid tok)
  have "reads decode_frame (put_varint 0x18 @ put_varint s @ put_varint r
      @ word_of_nat (length cid) # cid @ tok @ []) f" if "frame_ok f"
    using that NewConnectionId
    by (auto intro!: reads_frame_body reads_varint_bind reads_f_u8_bind reads_bytes_bind
        reads_return_eq simp add: decode_arms unat_byte take_bit_eq_mod simp del: append_Nil2)
  then show "frame_ok f \<Longrightarrow> reads decode_frame (encode f) f"
    by (simp add: NewConnectionId)
next
  case (Stream i off fin data)
  then show "frame_ok f \<Longrightarrow> reads decode_frame (encode f) f"
    by (cases fin) (auto intro!: reads_frame_body reads_intros simp add: decode_arms)
next
  case (MaxStreams dir m)
  then show "frame_ok f \<Longrightarrow> reads decode_frame (encode f) f"
    by (cases dir) (auto intro!: reads_frame_body reads_intros simp add: decode_arms VM_small)
next
  case (StreamsBlocked dir m)
  then show "frame_ok f \<Longrightarrow> reads decode_frame (encode f) f"
    by (cases dir) (auto intro!: reads_frame_body reads_intros simp add: decode_arms)
qed (auto intro!: reads_frame_body reads_frame_body_last reads_intros reads_ack_ranges
      simp add: decode_arms)

section \<open>Bounds on what is decoded\<close>

text \<open>\<open>yields p Q\<close>: on a buffer whose length fits a varint, every value \<open>p\<close> returns
  satisfies \<open>Q\<close>.\<close>

definition yields :: "('e, 'a) decoder \<Rightarrow> ('a \<Rightarrow> bool) \<Rightarrow> bool" where
  "yields p Q \<longleftrightarrow>
     (\<forall>b x b'. length (buf_bytes b) \<le> VARINT_MAX \<longrightarrow> p b = Inr (x, b') \<longrightarrow>
        Q x \<and> buf_bytes b' = buf_bytes b)"

lemma yields_return: "Q x \<Longrightarrow> yields (return_d x) Q"
  by (simp add: yields_def return_d_def)

lemma yields_fail: "yields (fail_d e) Q"
  by (simp add: yields_def fail_d_def)

lemma yieldsD:
  "yields p Q \<Longrightarrow> p b = Inr (x, b') \<Longrightarrow> length (buf_bytes b) \<le> VARINT_MAX \<Longrightarrow>
   Q x \<and> buf_bytes b' = buf_bytes b"
  unfolding yields_def by blast

lemma yields_bind:
  assumes "yields p P" and "\<And>x. P x \<Longrightarrow> yields (f x) Q"
  shows "yields (bind_d p f) Q"
  unfolding yields_def
proof (intro allI impI)
  fix b y b''
  assume b: "length (buf_bytes b) \<le> VARINT_MAX" and r: "bind_d p f b = Inr (y, b'')"
  from r obtain x b' where p: "p b = Inr (x, b')" and f: "f x b' = Inr (y, b'')"
    by (rule bind_d_InrE)
  have 1: "P x \<and> buf_bytes b' = buf_bytes b"
    by (rule yieldsD [OF assms(1) p b])
  then have "yields (f x) Q" by (intro assms(2)) simp
  from yieldsD [OF this f] 1 b show "Q y \<and> buf_bytes b'' = buf_bytes b" by simp
qed

lemma yields_weaken: "yields p P \<Longrightarrow> (\<And>x. P x \<Longrightarrow> Q x) \<Longrightarrow> yields p Q"
  unfolding yields_def by blast

lemma get_u8_bytes: "get_u8 b = Inr (x, b') \<Longrightarrow> buf_bytes b' = buf_bytes b"
  by (auto simp add: get_u8_def split: if_splits)

lemma get_varint_loop_bytes:
  "get_varint_loop n v b = Inr (x, b') \<Longrightarrow> buf_bytes b' = buf_bytes b"
proof (induction n arbitrary: v b)
  case (Suc n)
  from Suc.prems obtain byte b1 where "get_u8 b = Inr (byte, b1)"
    and "get_varint_loop n (push_bit 8 v OR unat byte) b1 = Inr (x, b')"
    unfolding get_varint_loop.simps by (rule bind_d_InrE)
  then show ?case using Suc.IH [of "push_bit 8 v OR unat byte" b1] get_u8_bytes [of b byte b1] by simp
qed (simp add: return_d_def)

lemma yields_varint: "yields f_varint (\<lambda>v. v \<le> VARINT_MAX)"
  unfolding yields_def f_varint_def map_err_d_Inr_iff
proof (intro allI impI conjI)
  fix b x b'
  assume v: "get_varint b = Inr (x, b')"
  then show "x \<le> VARINT_MAX" by (rule get_varint_bound)
  from v obtain first b1 n v0 where "get_u8 b = Inr (first, b1)"
    and "get_varint_loop n v0 b1 = Inr (x, b')"
    unfolding get_varint_def Let_def by (rule bind_d_InrE)
  then show "buf_bytes b' = buf_bytes b"
    using get_u8_bytes [of b first b1] get_varint_loop_bytes [of n v0 b1 x b'] by simp
qed

lemma yields_u8: "yields f_u8 (\<lambda>_. True)"
  unfolding yields_def f_u8_def map_err_d_Inr_iff using get_u8_bytes by blast

lemma yields_bytes: "yields (f_bytes n) (\<lambda>d. length d = n \<and> length d \<le> VARINT_MAX)"
  unfolding yields_def f_bytes_def map_err_d_Inr_iff
  by (auto simp add: get_bytes_def checked_add_def split: if_splits)

lemma yields_rest: "yields f_rest (\<lambda>d. length d \<le> VARINT_MAX)"
  unfolding yields_def f_rest_def using yieldsD [OF yields_bytes] by blast

lemma yields_repeat: "yields p P \<Longrightarrow> yields (repeat_d n p) (\<lambda>xs. length xs = n \<and> list_all P xs)"
proof (induction n)
  case (Suc n)
  then show ?case
    unfolding repeat_d.simps
    by (intro yields_bind [where P = P] yields_bind [where P = "\<lambda>xs. length xs = n \<and> list_all P xs"]
        yields_return) auto
qed (simp add: yields_return)

lemma yields_len: "yields (if c then f_varint else (\<lambda>b. Inr (remaining b, b))) (\<lambda>_. True)"
  unfolding yields_def using yieldsD [OF yields_varint] by (cases c) auto

lemma yields_ack_range:
  "yields decode_ack_range (\<lambda>r. ar_gap r \<le> VARINT_MAX \<and> ar_range r \<le> VARINT_MAX)"
  unfolding decode_ack_range_def
  by (intro yields_bind [OF yields_varint] yields_return) simp

lemma padding_loop_bytes:
  "decode_padding_loop c b = (n, b') \<Longrightarrow> c \<le> n \<and> buf_bytes b' = buf_bytes b"
proof (induction c b rule: decode_padding_loop.induct)
  case (1 c b)
  show ?case
  proof (cases "remaining b > 0 \<and> (\<exists>b1. get_u8 b = Inr (0, b1))")
    case True
    then obtain b1 where b1: "remaining b > 0" "get_u8 b = Inr (0, b1)" by blast
    have "decode_padding_loop (c + 1) b1 = (n, b')"
      using "1.prems" b1 by (subst (asm) decode_padding_loop.simps) simp
    with 1(1) [OF b1 refl refl] show ?thesis using get_u8_bytes [OF b1(2)] by simp
  next
    case False
    then have "decode_padding_loop c b = (c, b)"
      by (subst decode_padding_loop.simps) (auto split: sum.splits)
    then show ?thesis using "1.prems" by simp
  qed
qed

definition frame_wf :: "Frame \<Rightarrow> bool" where
  "frame_wf f \<longleftrightarrow> frame_ok f \<or> (\<exists>n. f = Padding n \<and> 1 \<le> n)"


lemma yields_opt_varint:
  "yields (if c then f_varint else return_d 0) (\<lambda>v. v \<le> VARINT_MAX)"
  using yields_varint by (simp add: yields_return VARINT_MAX_def)

lemma yields_ecn: "yields (if c then bind_d f_varint (\<lambda>_. bind_d f_varint (\<lambda>_. bind_d f_varint (\<lambda>_. return_d ())))
    else return_d ()) (\<lambda>_. True)"
  by (auto intro!: yields_bind [OF yields_varint] yields_return)

lemma yields_frame_type:
  "yields (if c then bind_d f_varint (\<lambda>t. return_d (Some t)) else return_d None)
     (\<lambda>ft. case ft of None \<Rightarrow> \<not> c | Some t \<Rightarrow> c \<and> t \<le> VARINT_MAX)"
  by (auto intro!: yields_bind [OF yields_varint] yields_return)

lemma yields_padding: "yields decode_padding frame_wf"
  unfolding yields_def decode_padding_def frame_wf_def
  using padding_loop_bytes by (fastforce split: prod.splits)

lemmas yields_intros = yields_return yields_fail yields_bind [OF yields_varint]
  yields_bind [OF yields_u8] yields_bind [OF yields_bytes] yields_bind [OF yields_rest]
  yields_bind [OF yields_opt_varint] yields_bind [OF yields_len] yields_bind [OF yields_ecn]
  yields_bind [OF yields_frame_type] yields_bind [OF yields_repeat [OF yields_ack_range]]

lemma yields_ack: "yields (decode_ack typ) frame_wf"
  unfolding decode_ack_def by (intro yields_intros) (simp add: frame_wf_def)

lemma yields_reset_stream: "yields decode_reset_stream frame_wf"
  unfolding decode_reset_stream_def by (intro yields_intros) (simp add: frame_wf_def)

lemma yields_stop_sending: "yields decode_stop_sending frame_wf"
  unfolding decode_stop_sending_def by (intro yields_intros) (simp add: frame_wf_def)

lemma yields_crypto: "yields decode_crypto frame_wf"
  unfolding decode_crypto_def by (intro yields_intros) (simp add: frame_wf_def)

lemma yields_if: "(c \<Longrightarrow> yields p Q) \<Longrightarrow> (\<not> c \<Longrightarrow> yields q Q) \<Longrightarrow> yields (if c then p else q) Q"
  by simp

lemma yields_new_token: "yields decode_new_token frame_wf"
  unfolding decode_new_token_def by (intro yields_intros yields_if) (auto simp add: frame_wf_def)

lemma yields_stream: "yields (decode_stream typ) frame_wf"
  unfolding decode_stream_def Let_def by (intro yields_intros) (simp add: frame_wf_def)

lemma yields_max_streams: "yields (decode_max_streams typ) frame_wf"
  unfolding decode_max_streams_def by (intro yields_intros yields_if) (simp add: frame_wf_def)

lemma yields_new_connection_id: "yields decode_new_connection_id frame_wf"
  unfolding decode_new_connection_id_def Let_def
  by (intro yields_intros yields_if) (simp add: frame_wf_def)

lemma yields_connection_close:
  "typ = 0x1c \<or> typ = 0x1d \<Longrightarrow> yields (decode_connection_close typ) frame_wf"
  unfolding decode_connection_close_def
  by (intro yields_intros) (auto simp add: frame_wf_def split: option.splits)

lemma yields_frame_body: "yields (decode_frame_body typ) frame_wf"
  unfolding decode_frame_body_def
  by (intro yields_if yields_intros yields_padding yields_ack yields_reset_stream
      yields_stop_sending yields_crypto yields_new_token yields_stream yields_max_streams
      yields_new_connection_id yields_connection_close)
    (simp_all add: frame_wf_def)

lemma yields_frame: "yields decode_frame frame_wf"
  unfolding decode_frame_def by (intro yields_bind [OF yields_varint] yields_frame_body)

section \<open>Progress\<close>

lemma within_f: "within f_varint" "within f_u8" "within (f_bytes n)"
  unfolding f_varint_def f_u8_def f_bytes_def
  by (intro within_map_err within_get_varint within_get_u8 within_get_bytes)+

lemma within_rest: "within f_rest"
  unfolding within_def f_rest_def using withinD [OF within_f(3)] by blast

lemma within_len: "within (\<lambda>b. Inr (remaining b, b))"
  by (simp add: within_def)

lemma padding_loop_within:
  "decode_padding_loop c b = (n, b') \<Longrightarrow> buf_ok b \<Longrightarrow> buf_ok b' \<and> buf_pos b \<le> buf_pos b'"
proof (induction c b rule: decode_padding_loop.induct)
  case (1 c b)
  show ?case
  proof (cases "remaining b > 0 \<and> (\<exists>b1. get_u8 b = Inr (0, b1))")
    case True
    then obtain b1 where b1: "remaining b > 0" "get_u8 b = Inr (0, b1)" by blast
    have "decode_padding_loop (c + 1) b1 = (n, b')"
      using "1.prems" b1 by (subst (asm) decode_padding_loop.simps) simp
    with 1(1) [OF b1 refl refl] show ?thesis
      using withinD [OF within_get_u8 b1(2)] "1.prems" by simp
  next
    case False
    then have "decode_padding_loop c b = (c, b)"
      by (subst decode_padding_loop.simps) (auto split: sum.splits)
    then show ?thesis using "1.prems" by simp
  qed
qed

lemma within_padding: "within decode_padding"
  unfolding within_def decode_padding_def
  using padding_loop_within padding_loop_bytes by (fastforce split: prod.splits)

lemma within_ack_range: "within decode_ack_range"
  unfolding decode_ack_range_def by (intro within_bind within_f within_return)

lemma within_if: "within p \<Longrightarrow> within q \<Longrightarrow> within (if c then p else q)"
  by simp

lemmas within_intros = within_bind within_f within_return within_fail within_rest within_len
  within_if

lemma within_arms:
  "within (decode_ack typ)" "within decode_reset_stream" "within decode_stop_sending"
  "within decode_crypto" "within decode_new_token" "within (decode_stream typ)"
  "within (decode_max_streams typ)" "within decode_new_connection_id"
  "within (decode_connection_close typ)"
  unfolding decode_arms Let_def
  by (intro within_intros within_repeat within_ack_range)+

lemma within_frame_body: "within (decode_frame_body typ)"
  unfolding decode_frame_body_def by (intro within_intros within_arms within_padding)

lemma decode_frame_progress:
  assumes "buf_ok b" and "decode_frame b = Inr (f, b')"
  shows "buf_ok b' \<and> buf_bytes b' = buf_bytes b \<and> buf_pos b < buf_pos b'"
proof -
  from assms(2) obtain ty b1 where v: "f_varint b = Inr (ty, b1)"
    and body: "decode_frame_body ty b1 = Inr (f, b')"
    unfolding decode_frame_def by (rule bind_d_InrE)
  have "buf_pos b < buf_pos b1"
    using get_varint_progress [OF assms(1)] v unfolding f_varint_def map_err_d_Inr_iff by simp
  then show ?thesis
    using withinD [OF within_f(1) v assms(1)] withinD [OF within_frame_body body] by simp
qed

section \<open>Errors\<close>

definition errs :: "(FrameError, 'a) decoder \<Rightarrow> bool" where
  "errs p \<longleftrightarrow> (\<forall>b e. p b = Inl e \<longrightarrow> fe_code e = FrameEncodingError)"

lemma errs_base:
  "errs (return_d x)" "errs (fail_d (frame_error d))" "errs f_varint" "errs f_u8" "errs (f_bytes n)"
  "errs f_rest" "errs (\<lambda>b. Inr (remaining b, b))" "errs decode_padding"
  by (auto simp add: errs_def return_d_def fail_d_def frame_error_def f_varint_def f_u8_def f_bytes_def
      f_rest_def map_err_d_def map_err_def frame_error_of_codec_def decode_padding_def
      split: sum.splits prod.splits)

lemma errs_bind: "errs p \<Longrightarrow> (\<And>x. errs (f x)) \<Longrightarrow> errs (bind_d p f)"
  by (auto simp add: errs_def bind_d_def split: sum.splits)

lemma errs_if: "errs p \<Longrightarrow> errs q \<Longrightarrow> errs (if c then p else q)"
  by simp

lemma errs_repeat: "errs p \<Longrightarrow> errs (repeat_d n p)"
  by (induction n) (simp_all add: errs_base errs_bind)

lemma errs_ack_range: "errs decode_ack_range"
  unfolding decode_ack_range_def by (intro errs_bind errs_base)

lemma errs_arms:
  "errs (decode_ack typ)" "errs decode_reset_stream" "errs decode_stop_sending"
  "errs decode_crypto" "errs decode_new_token" "errs (decode_stream typ)"
  "errs (decode_max_streams typ)" "errs decode_new_connection_id"
  "errs (decode_connection_close typ)"
  unfolding decode_arms Let_def
  by (intro errs_bind errs_base errs_if errs_repeat errs_ack_range)+

lemma errs_frame: "errs decode_frame"
  unfolding decode_frame_def decode_frame_body_def
  by (intro errs_bind errs_base errs_if errs_arms)

interpretation frame_codec: wire_codec encode decode_frame frame_ok
  by unfold_locales (rule frame_reads)

section \<open>Properties\<close>

text \<open>
  C17: frames round trip.  Every well-formed frame other than \<^verbatim>\<open>PADDING\<close> is decoded back
  from its own encoding, whatever bytes follow, and exactly the encoded bytes are
  consumed.
\<close>

theorem frame_roundtrip:
  assumes "frame_ok f" and "length (encode f @ tail) \<le> U64_MAX"
  shows "decode_frame (Buf_new (encode f @ tail)) =
    Inr (f, \<lparr>buf_bytes = encode f @ tail, buf_pos = length (encode f)\<rparr>)"
  using frame_codec.round_trip [OF assms] by (simp add: advance_def Buf_new_def)

theorem frame_roundtrip_witness:
  "decode_frame (Buf_new (encode (Stream 4 100 True [1, 2, 3]) @ [9])) =
    Inr (Stream 4 100 True [1, 2, 3],
      \<lparr>buf_bytes = [0x0f, 4, 0x40, 100, 3, 1, 2, 3, 9], buf_pos = 8\<rparr>)"
  using frame_roundtrip [of "Stream 4 100 True [1, 2, 3]" "[9]"]
  by (simp add: VARINT_MAX_def U64_MAX_def put_varint_def varint_size_def drop_bit_eq_div)

text \<open>
  C18: the frame decoder is sound on arbitrary input.  Whenever it accepts a frame from
  a buffer whose length fits a varint, the frame satisfies every constraint of its
  type (a connection ID of 1 to 20 bytes, \<^verbatim>\<open>retire_prior_to\<close> not above the sequence
  number, a stream limit of at most \<open>2 ^ 60\<close>, a non-empty token, fields that fit a
  varint), and the cursor has moved forward by at least one byte without leaving the
  buffer, so a loop over the frames of a packet terminates.
\<close>

theorem decode_frame_sound:
  assumes "buf_ok b" and "length (buf_bytes b) \<le> VARINT_MAX" and "decode_frame b = Inr (f, b')"
  shows "frame_wf f \<and> buf_bytes b' = buf_bytes b
    \<and> buf_pos b < buf_pos b' \<and> buf_pos b' \<le> length (buf_bytes b)"
  using decode_frame_progress [OF assms(1,3)] yieldsD [OF yields_frame assms(3,2)]
  by (simp add: buf_ok_def)

theorem decode_frame_sound_witness:
  "decode_frame (Buf_new [0x12, 0x05]) = Inr (MaxStreams Bidirectional 5, \<lparr>buf_bytes = [0x12, 0x05], buf_pos = 2\<rparr>)
   \<and> frame_wf (MaxStreams Bidirectional 5)"
proof -
  have d: "decode_frame (Buf_new [0x12, 0x05]) =
      Inr (MaxStreams Bidirectional 5, \<lparr>buf_bytes = [0x12, 0x05], buf_pos = 2\<rparr>)"
    by (simp add: decode_frame_def decode_frame_body_def decode_max_streams_def f_varint_def
        get_varint_def bind_d_def map_err_d_def get_u8_def Buf_new_def return_d_def Let_def)
  then show ?thesis
    using decode_frame_sound [OF _ _ d] by (simp add: Buf_new_def buf_ok_def VARINT_MAX_def U64_MAX_def)
qed



end
