(* ===== verification/Packet_Space.thy ===== *)
theory Packet_Space
  imports Frames
begin

text \<open>
  \<^verbatim>\<open>oxiquic-transport/src/space.rs\<close>: packet-number spaces, the record of received
  packet numbers as merged inclusive ranges, and the \<^verbatim>\<open>ACK\<close> frame built from it.
  The packet-protection keys of rustls are opaque: their types are parameters.
\<close>

section \<open>Received packet numbers\<close>

type_synonym ReceivedPackets = "(u64 \<times> u64) list"

definition rp_largest :: "ReceivedPackets \<Rightarrow> u64 option" where
  "rp_largest rs = (if rs = [] then None else Some (snd (last rs)))"

text \<open>\<^verbatim>\<open>Vec::remove(i)\<close> and \<^verbatim>\<open>Vec::insert(i, x)\<close>.\<close>

definition vec_remove :: "nat \<Rightarrow> 'a list \<Rightarrow> 'a list" where
  "vec_remove i xs = take i xs @ drop (Suc i) xs"

definition vec_insert :: "nat \<Rightarrow> 'a \<Rightarrow> 'a list \<Rightarrow> 'a list" where
  "vec_insert i x xs = take i xs @ x # drop i xs"

definition maybe_merge_prev :: "nat \<Rightarrow> ReceivedPackets \<Rightarrow> ReceivedPackets" where
  "maybe_merge_prev i rs =
     (if i = 0 then rs
      else if snd (rs ! (i - 1)) + 1 \<ge> fst (rs ! i)
      then vec_remove i (rs[i - 1 := (fst (rs ! (i - 1)), max (snd (rs ! (i - 1))) (snd (rs ! i)))])
      else rs)"

definition maybe_merge_next :: "nat \<Rightarrow> ReceivedPackets \<Rightarrow> ReceivedPackets" where
  "maybe_merge_next i rs =
     (if i + 1 \<ge> length rs then rs
      else if snd (rs ! i) + 1 \<ge> fst (rs ! (i + 1))
      then vec_remove (i + 1) (rs[i := (fst (rs ! i), max (snd (rs ! i)) (snd (rs ! (i + 1))))])
      else rs)"

function rp_insert_loop :: "nat \<Rightarrow> u64 \<Rightarrow> ReceivedPackets \<Rightarrow> ReceivedPackets" where
  "rp_insert_loop i pn rs =
     (if i < length rs then
        let (low, high) = rs ! i in
        if pn \<ge> low \<and> pn \<le> high then rs
        else if pn + 1 = low then maybe_merge_prev i (rs[i := (pn, high)])
        else if pn = high + 1 then maybe_merge_next i (rs[i := (low, pn)])
        else if pn < low then vec_insert i (pn, pn) rs
        else rp_insert_loop (i + 1) pn rs
      else rs @ [(pn, pn)])"
  by pat_completeness auto
termination
  by (relation "measure (\<lambda>(i, _, rs). length rs - i)") auto

declare rp_insert_loop.simps [simp del]

definition rp_insert :: "u64 \<Rightarrow> ReceivedPackets \<Rightarrow> ReceivedPackets" where
  "rp_insert pn rs = rp_insert_loop 0 pn rs"

fun ack_walk :: "u64 \<Rightarrow> (u64 \<times> u64) list \<Rightarrow> AckRange list" where
  "ack_walk prev_low [] = []"
| "ack_walk prev_low ((rlow, rhigh) # rs) =
     \<lparr>ar_gap = prev_low - rhigh - 2, ar_range = rhigh - rlow\<rparr> # ack_walk rlow rs"

definition to_ack_frame :: "ReceivedPackets \<Rightarrow> u64 \<Rightarrow> Frame option" where
  "to_ack_frame rs ack_delay =
     (case rev rs of
        [] \<Rightarrow> None
      | (low, high) # rest_rs \<Rightarrow>
          Some (Ack high ack_delay (high - low) (ack_walk low rest_rs)))"

section \<open>Packet spaces\<close>

record ('h, 'p) DirectionalKeys =
  dk_header :: 'h
  dk_packet :: 'p

record ('h, 'p) Keys =
  key_local :: "('h, 'p) DirectionalKeys"
  key_remote :: "('h, 'p) DirectionalKeys"

record 'p PacketKeySet =
  ks_local :: 'p
  ks_remote :: 'p

record ('h, 'p) PacketSpace =
  sp_keys :: "('h, 'p) Keys option"
  sp_next_packet_number :: u64
  sp_largest_acked :: "u64 option"
  sp_received :: ReceivedPackets
  sp_ack_pending :: bool

definition PacketSpace_new :: "('h, 'p) PacketSpace" where
  "PacketSpace_new =
     \<lparr>sp_keys = None, sp_next_packet_number = 0, sp_largest_acked = None, sp_received = [],
      sp_ack_pending = False\<rparr>"

definition set_keys :: "('h, 'p) Keys \<Rightarrow> ('h, 'p) PacketSpace \<Rightarrow> ('h, 'p) PacketSpace" where
  "set_keys ks s = s\<lparr>sp_keys := Some ks\<rparr>"

definition has_keys :: "('h, 'p) PacketSpace \<Rightarrow> bool" where
  "has_keys s = (sp_keys s \<noteq> None)"

definition local_keys :: "('h, 'p) PacketSpace \<Rightarrow> ('h, 'p) DirectionalKeys option" where
  "local_keys s = map_option key_local (sp_keys s)"

definition remote_keys :: "('h, 'p) PacketSpace \<Rightarrow> ('h, 'p) DirectionalKeys option" where
  "remote_keys s = map_option key_remote (sp_keys s)"

definition next_pn :: "('h, 'p) PacketSpace \<Rightarrow> u64 \<times> ('h, 'p) PacketSpace" where
  "next_pn s =
     (sp_next_packet_number s, s\<lparr>sp_next_packet_number := sp_next_packet_number s + 1\<rparr>)"

definition largest_received :: "('h, 'p) PacketSpace \<Rightarrow> u64 option" where
  "largest_received s = rp_largest (sp_received s)"

definition on_ack_received :: "u64 \<Rightarrow> ('h, 'p) PacketSpace \<Rightarrow> ('h, 'p) PacketSpace" where
  "on_ack_received largest s =
     s\<lparr>sp_largest_acked :=
         Some (case sp_largest_acked s of Some prev \<Rightarrow> max prev largest | None \<Rightarrow> largest)\<rparr>"

definition on_packet_received ::
    "u64 \<Rightarrow> bool \<Rightarrow> ('h, 'p) PacketSpace \<Rightarrow> ('h, 'p) PacketSpace" where
  "on_packet_received pn ack_eliciting s =
     (let s = s\<lparr>sp_received := rp_insert pn (sp_received s)\<rparr>
      in if ack_eliciting then s\<lparr>sp_ack_pending := True\<rparr> else s)"

definition build_ack ::
    "u64 \<Rightarrow> ('h, 'p) PacketSpace \<Rightarrow> Frame option \<times> ('h, 'p) PacketSpace" where
  "build_ack ack_delay s =
     (if \<not> sp_ack_pending s then (None, s)
      else case to_ack_frame (sp_received s) ack_delay of
             None \<Rightarrow> (None, s)
           | Some frame \<Rightarrow> (Some frame, s\<lparr>sp_ack_pending := False\<rparr>))"

definition rotate_to_next_epoch ::
    "'p PacketKeySet \<Rightarrow> ('h, 'p) PacketSpace \<Rightarrow> 'p option \<times> ('h, 'p) PacketSpace" where
  "rotate_to_next_epoch next_epoch s =
     (case sp_keys s of
        None \<Rightarrow> (None, s)
      | Some ks \<Rightarrow>
          (Some (dk_packet (key_remote ks)),
           s\<lparr>sp_keys := Some
               (ks\<lparr>key_remote := (key_remote ks)\<lparr>dk_packet := ks_remote next_epoch\<rparr>,
                   key_local := (key_local ks)\<lparr>dk_packet := ks_local next_epoch\<rparr>\<rparr>)\<rparr>))"

section \<open>The range invariant\<close>

text \<open>Ranges are non-empty, ascending and separated by at least one missing number.\<close>

fun ranges_ok :: "ReceivedPackets \<Rightarrow> bool" where
  "ranges_ok [] = True"
| "ranges_ok [(l, h)] = (l \<le> h)"
| "ranges_ok ((l, h) # (l', h') # rs) = (l \<le> h \<and> h + 2 \<le> l' \<and> ranges_ok ((l', h') # rs))"

definition rp_set :: "ReceivedPackets \<Rightarrow> u64 set" where
  "rp_set rs = (\<Union>(l, h) \<in> set rs. {l..h})"

lemma rp_set_simps [simp]:
  "rp_set [] = {}"
  "rp_set ((l, h) # rs) = {l..h} \<union> rp_set rs"
  "rp_set (rs @ rs') = rp_set rs \<union> rp_set rs'"
  by (auto simp add: rp_set_def)

text \<open>The scan of \<open>rp_insert_loop\<close> over the remaining ranges, as a structural recursion.\<close>

fun rp_ins :: "u64 \<Rightarrow> ReceivedPackets \<Rightarrow> ReceivedPackets" where
  "rp_ins pn [] = [(pn, pn)]"
| "rp_ins pn ((l, h) # rs) =
     (if l \<le> pn \<and> pn \<le> h then (l, h) # rs
      else if pn + 1 = l then (pn, h) # rs
      else if pn = h + 1 then
        (case rs of
           [] \<Rightarrow> [(l, pn)]
         | (l', h') # rs' \<Rightarrow> if l' \<le> pn + 1 then (l, max pn h') # rs' else (l, pn) # rs)
      else if pn < l then (pn, pn) # (l, h) # rs
      else (l, h) # rp_ins pn rs)"

lemma merge_next_append:
  "maybe_merge_next (length pre) (pre @ (l, h) # rs) =
     pre @ (case rs of
              [] \<Rightarrow> [(l, h)]
            | (l', h') # rs' \<Rightarrow> if l' \<le> h + 1 then (l, max h h') # rs' else (l, h) # rs)"
  by (cases rs) (auto simp add: maybe_merge_next_def vec_remove_def nth_append)

lemma merge_prev_append:
  assumes "pre \<noteq> [] \<Longrightarrow> snd (last pre) + 1 < l"
  shows "maybe_merge_prev (length pre) (pre @ (l, h) # rs) = pre @ (l, h) # rs"
proof (cases pre rule: rev_cases)
  case (snoc p x)
  then show ?thesis using assms by (auto simp add: maybe_merge_prev_def nth_append)
qed (simp add: maybe_merge_prev_def)

text \<open>The branches of one step of the scan.\<close>

lemma rp_ins_cases:
  fixes l h pn :: nat
  obtains (inside) "l \<le> pn" "pn \<le> h"
  | (below) "pn + 1 = l"
  | (above) "pn = h + 1" "\<not> (l \<le> pn \<and> pn \<le> h)" "pn + 1 \<noteq> l"
  | (before) "pn + 1 < l" "\<not> (l \<le> pn \<and> pn \<le> h)" "pn \<noteq> h + 1"
  | (after) "h + 1 < pn" "\<not> pn < l" "pn + 1 \<noteq> l" "\<not> (l \<le> pn \<and> pn \<le> h)"
  by linarith

lemma rp_insert_loop_step:
  "rp_insert_loop (length pre) pn (pre @ (l, h) # rs) =
     (if l \<le> pn \<and> pn \<le> h then pre @ (l, h) # rs
      else if pn + 1 = l then maybe_merge_prev (length pre) (pre @ (pn, h) # rs)
      else if pn = h + 1 then maybe_merge_next (length pre) (pre @ (l, pn) # rs)
      else if pn < l then pre @ (pn, pn) # (l, h) # rs
      else rp_insert_loop (length (pre @ [(l, h)])) pn ((pre @ [(l, h)]) @ rs))"
  by (subst rp_insert_loop.simps) (simp add: nth_append list_update_append vec_insert_def)

lemma rp_insert_loop_eq:
  assumes "pre \<noteq> [] \<Longrightarrow> snd (last pre) + 1 < pn"
  shows "rp_insert_loop (length pre) pn (pre @ rs) = pre @ rp_ins pn rs"
  using assms
proof (induction rs arbitrary: pre)
  case Nil
  then show ?case by (subst rp_insert_loop.simps) simp
next
  case (Cons r rs)
  obtain l h where r: "r = (l, h)" by force
  show ?case unfolding r
  proof (cases rule: rp_ins_cases [where l = l and h = h and pn = pn])
    case after
    then show "rp_insert_loop (length pre) pn (pre @ (l, h) # rs) = pre @ rp_ins pn ((l, h) # rs)"
      using Cons.IH [of "pre @ [(l, h)]"] unfolding rp_insert_loop_step by simp
  qed (simp_all add: rp_insert_loop_step merge_next_append merge_prev_append [OF Cons.prems])
qed

lemma rp_insert_eq: "rp_insert pn rs = rp_ins pn rs"
  using rp_insert_loop_eq [of "[]" pn rs] by (simp add: rp_insert_def)

lemma ranges_ok_Cons:
  "ranges_ok ((l, h) # rs) \<longleftrightarrow> l \<le> h \<and> ranges_ok rs \<and> (rs = [] \<or> h + 2 \<le> fst (hd rs))"
  by (cases rs) auto

lemma rp_ins_ne: "rp_ins pn rs \<noteq> []"
  by (cases rs) (auto split: list.splits if_splits)

lemma rp_ins_hd:
  assumes "ranges_ok rs" and "rs \<noteq> []"
  shows "fst (hd (rp_ins pn rs)) = min pn (fst (hd rs))"
proof -
  obtain l h rs' where rs: "rs = (l, h) # rs'" using assms(2) by (cases rs) auto
  then have "l \<le> h" using assms(1) by (simp add: ranges_ok_Cons)
  then show ?thesis
    unfolding rs by (cases rule: rp_ins_cases [where l = l and h = h and pn = pn]) (auto split: list.split)
qed

lemma rp_ins_ok: "ranges_ok rs \<Longrightarrow> ranges_ok (rp_ins pn rs)"
proof (induction rs)
  case (Cons r rs)
  obtain l h where r: "r = (l, h)" by force
  have *: "l \<le> h" "ranges_ok rs" "rs = [] \<or> h + 2 \<le> fst (hd rs)" "ranges_ok (rp_ins pn rs)"
    using Cons by (auto simp add: r ranges_ok_Cons)
  show ?case unfolding r
  proof (cases rule: rp_ins_cases [where l = l and h = h and pn = pn])
    case after
    then have "rs = [] \<or> h + 2 \<le> fst (hd (rp_ins pn rs))" and "h + 2 \<le> pn"
      using * rp_ins_hd [of rs pn] by (cases "rs = []"; auto)+
    then show "ranges_ok (rp_ins pn ((l, h) # rs))"
      using * after by (cases rs) (simp_all add: ranges_ok_Cons)
  next
    case above
    then show "ranges_ok (rp_ins pn ((l, h) # rs))"
      using * by (cases rs) (auto simp add: ranges_ok_Cons)
  qed (use * in \<open>auto simp add: ranges_ok_Cons\<close>)
qed simp

lemma rp_ins_set: "ranges_ok rs \<Longrightarrow> rp_set (rp_ins pn rs) = insert pn (rp_set rs)"
proof (induction rs)
  case (Cons r rs)
  obtain l h where r: "r = (l, h)" by force
  have lh: "l \<le> h" and gap: "rs = [] \<or> h + 2 \<le> fst (hd rs)" and rs: "ranges_ok rs"
    using Cons.prems by (auto simp add: r ranges_ok_Cons)
  show ?case unfolding r
  proof (cases rule: rp_ins_cases [where l = l and h = h and pn = pn])
    case inside
    then show "rp_set (rp_ins pn ((l, h) # rs)) = insert pn (rp_set ((l, h) # rs))" by auto
  next
    case below
    then have "{pn..h} = insert pn {l..h}" using lh by auto
    then show "rp_set (rp_ins pn ((l, h) # rs)) = insert pn (rp_set ((l, h) # rs))"
      using below by simp
  next
    case above
    then have ext: "{l..pn} = insert pn {l..h}" using lh by auto
    show "rp_set (rp_ins pn ((l, h) # rs)) = insert pn (rp_set ((l, h) # rs))"
    proof (cases rs)
      case Nil
      then show ?thesis using above ext by simp
    next
      case (Cons r' rs')
      obtain l' h' where r': "r' = (l', h')" by force
      have "pn + 1 \<le> l'" "l' \<le> h'"
        using gap rs above by (simp_all add: Cons r' ranges_ok_Cons)
      moreover from this have "{l..max pn h'} = {l..pn} \<union> {l'..h'}" if "l' \<le> pn + 1"
        using that lh above by auto
      ultimately show ?thesis using above ext by (simp add: Cons r' Un_assoc)
    qed
  next
    case after
    then show "rp_set (rp_ins pn ((l, h) # rs)) = insert pn (rp_set ((l, h) # rs))"
      using Cons.IH [OF rs] by simp
  qed simp
qed simp

lemma rp_insert_ok: "ranges_ok rs \<Longrightarrow> ranges_ok (rp_insert pn rs)"
  by (simp add: rp_insert_eq rp_ins_ok)

lemma rp_insert_set: "ranges_ok rs \<Longrightarrow> rp_set (rp_insert pn rs) = insert pn (rp_set rs)"
  by (simp add: rp_insert_eq rp_ins_set)

section \<open>The set of received numbers\<close>

text \<open>
  What the ACK generator relies on: a record of numbers that an insertion extends by
  exactly the inserted number while its representation invariant holds.
\<close>

locale number_record =
  fixes nil :: "'r"
    and ins :: "nat \<Rightarrow> 'r \<Rightarrow> 'r"
    and contents :: "'r \<Rightarrow> nat set"
    and ok :: "'r \<Rightarrow> bool"
  assumes ok_nil: "ok nil"
    and contents_nil: "contents nil = {}"
    and ok_ins: "ok r \<Longrightarrow> ok (ins n r)"
    and contents_ins: "ok r \<Longrightarrow> contents (ins n r) = insert n (contents r)"
begin

lemma fold_ins: "ok r \<Longrightarrow> ok (fold ins ns r) \<and> contents (fold ins ns r) = set ns \<union> contents r"
  by (induction ns arbitrary: r) (auto simp add: ok_ins contents_ins)

lemma recorded: "ok (fold ins ns nil) \<and> contents (fold ins ns nil) = set ns"
  using fold_ins [OF ok_nil] contents_nil by simp

lemma order_irrelevant:
  "set ns = set ms \<Longrightarrow> contents (fold ins ns nil) = contents (fold ins ms nil)"
  by (simp add: recorded)

end

interpretation received: number_record "[]" rp_insert rp_set ranges_ok
  by unfold_locales (simp_all add: rp_insert_ok rp_insert_set)

lemma Max_interval: "l \<le> h \<Longrightarrow> Max {l..h} = (h::nat)"
  by (rule Max_eqI) auto

lemma rp_largest_Max: "ranges_ok rs \<Longrightarrow> rs \<noteq> [] \<Longrightarrow> rp_largest rs = Some (Max (rp_set rs))"
proof (induction rs rule: ranges_ok.induct)
  case (2 l h)
  then show ?case by (simp add: rp_largest_def Max_interval)
next
  case (3 l h l' h' rs)
  then have IH: "rp_largest ((l', h') # rs) = Some (Max (rp_set ((l', h') # rs)))" by simp
  have fin: "finite (rp_set xs)" for xs by (auto simp add: rp_set_def)
  have "l' \<in> rp_set ((l', h') # rs)"
    using 3 by (cases rs) auto
  then have "l' \<le> Max (rp_set ((l', h') # rs))" using fin by (intro Max_ge)
  moreover have "Max ({l..h} \<union> rp_set ((l', h') # rs)) = max (Max {l..h}) (Max (rp_set ((l', h') # rs)))"
    using 3 fin by (intro Max_Un) (auto simp add: ranges_ok_Cons)
  moreover have "Max {l..h} = h" using 3 by (simp add: Max_interval)
  ultimately have "Max (rp_set ((l, h) # (l', h') # rs)) = Max (rp_set ((l', h') # rs))"
    using 3 by simp
  then show ?case using IH by (simp add: rp_largest_def)
qed simp

section \<open>Properties\<close>

text \<open>
  C19: the received-packet record is exact.  After recording any sequence of packet
  numbers, in any order and with duplicates, the ranges are sorted, non-empty and
  separated, they cover exactly the recorded numbers, and the largest number used for
  packet-number recovery is the maximum of them.
\<close>

theorem received_ranges_exact:
  assumes "pns \<noteq> []"
  shows "let rs = fold rp_insert pns []
         in ranges_ok rs \<and> rp_set rs = set pns \<and> rp_largest rs = Some (Max (set pns))"
proof -
  have *: "ranges_ok (fold rp_insert pns []) \<and> rp_set (fold rp_insert pns []) = set pns"
    by (rule received.recorded)
  moreover have "fold rp_insert pns [] \<noteq> []"
    using * assms by (metis rp_set_simps(1) set_empty)
  ultimately show ?thesis using rp_largest_Max by (metis (no_types, lifting))
qed

theorem received_ranges_exact_witness:
  "fold rp_insert [5, 1, 3, 2, 9] [] = [(1, 3), (5, 5), (9, 9)]
   \<and> rp_set [(1, 3), (5, 5), (9, 9)] = set [5, 1, 3, 2, 9]"
proof -
  have "fold rp_insert [5, 1, 3, 2, 9] [] = [(1, 3), (5, 5), (9, 9)]"
    by (simp add: rp_insert_eq)
  then show ?thesis
    using received_ranges_exact [of "[5, 1, 3, 2, 9]"] by (simp add: Let_def)
qed

end
