(* ===== verification/Reassembly.thy ===== *)
theory Reassembly
  imports Prelude
begin

text \<open>
  Ordered reassembly, shared by \<^verbatim>\<open>CryptoStream::recv\<close> and \<^verbatim>\<open>RecvStream::recv\<close>: both
  trim what was delivered already, buffer the rest by start offset and then pop
  segments that reach the read offset.  The contract of a reassembler is the locale
  \<open>reassembler\<close>; the two streams interpret it.
\<close>

section \<open>The loop\<close>

lemma bmap_last_le_shrinks:
  "bmap_last_le off m = Some (k, v) \<Longrightarrow> length (bmap_remove k m) < length m"
  using bmap_length_remove [of "(k, v)" m] bmap_last_le_SomeD(1) [of off m] by simp

text \<open>
  \<open>drain_contiguous off pending acc\<close> is the \<^verbatim>\<open>while let Some(..) =
  pending.range(..=off).next_back()\<close> loop.  The \<^verbatim>\<open>break\<close>s of the source cannot be taken:
  the entry found has a start not above the offset and is in the map.
\<close>

function drain_contiguous :: "nat \<Rightarrow> bytes bmap \<Rightarrow> bytes \<Rightarrow> nat \<times> bytes bmap \<times> bytes" where
  "drain_contiguous off pending acc =
     (case bmap_last_le off pending of
        None \<Rightarrow> (off, pending, acc)
      | Some (start, segment) \<Rightarrow>
          let pending' = bmap_remove start pending;
              seg_end = start + length segment
          in if seg_end \<le> off then drain_contiguous off pending' acc
             else drain_contiguous seg_end pending' (acc @ drop (off - start) segment))"
  by pat_completeness auto
termination
  by (relation "measure (\<lambda>(_, pending, _). length pending)") (auto simp add: bmap_last_le_shrinks)

declare drain_contiguous.simps [simp del]

text \<open>The prefix trimming both receivers perform before buffering.\<close>

definition trim_delivered :: "nat \<Rightarrow> nat \<Rightarrow> bytes \<Rightarrow> nat \<times> bytes" where
  "trim_delivered read_offset offset data =
     (if offset < read_offset then (read_offset, drop (read_offset - offset) data)
      else (offset, data))"

section \<open>Correctness against the sent stream\<close>

lemma map_upt_split: "i \<le> j \<Longrightarrow> j \<le> k \<Longrightarrow> map f [i..<k] = map f [i..<j] @ map f [j..<k]"
  using upt_add_eq_append [of i j "k - j"] by simp

text \<open>
  \<open>src n\<close> is the byte the sender put at offset \<open>n\<close>.  A segment is consistent when it
  carries the sender's bytes.
\<close>

definition seg_ok :: "(nat \<Rightarrow> u8) \<Rightarrow> nat \<Rightarrow> bytes \<Rightarrow> bool" where
  "seg_ok src off data \<longleftrightarrow> data = map src [off..<off + length data]"

definition pending_ok :: "(nat \<Rightarrow> u8) \<Rightarrow> bytes bmap \<Rightarrow> bool" where
  "pending_ok src m \<longleftrightarrow> bmap_ok m \<and> (\<forall>(k, d) \<in> set m. seg_ok src k d)"

text \<open>The offsets a map of segments covers.\<close>

definition covered :: "bytes bmap \<Rightarrow> nat set" where
  "covered m = (\<Union>(k, d) \<in> set m. {k..<k + length d})"

lemma covered_mem: "(k, d) \<in> set m \<Longrightarrow> k \<le> n \<Longrightarrow> n < k + length d \<Longrightarrow> n \<in> covered m"
  unfolding covered_def by (rule UN_I [of "(k, d)"]) simp_all

lemma seg_ok_drop:
  assumes "seg_ok src off data" and "n \<le> length data"
  shows "drop n data = map src [off + n..<off + length data]"
  using assms unfolding seg_ok_def by (metis drop_map drop_upt)

lemma pending_ok_remove [simp]: "pending_ok src m \<Longrightarrow> pending_ok src (bmap_remove k m)"
  by (auto simp add: pending_ok_def)

lemma pending_ok_insert:
  "pending_ok src m \<Longrightarrow> seg_ok src k d \<Longrightarrow> pending_ok src (bmap_insert k d m)"
  by (auto simp add: pending_ok_def bmap_insert_mem)

lemma trim_seg_ok:
  assumes "seg_ok src off data" and "r < off + length data" and "trim_delivered r off data = (o', d')"
  shows "seg_ok src o' d' \<and> r \<le> o' \<and> o' + length d' = off + length data \<and> o' = max r off"
  using assms seg_ok_drop [OF assms(1), of "r - off"]
  by (auto simp add: trim_delivered_def seg_ok_def split: if_splits)

text \<open>One run of the loop delivers the sender's bytes from the old to the new offset,
  keeps only segments beyond it, and drops nothing that is not delivered.\<close>

lemma drain_spec:
  assumes "pending_ok src m" and "drain_contiguous off m acc = (off', m', acc')"
  shows "off \<le> off' \<and> acc' = acc @ map src [off..<off'] \<and> pending_ok src m'
    \<and> set m' \<subseteq> set m \<and> (\<forall>e \<in> set m'. off' < fst e)
    \<and> (\<forall>e \<in> set m. e \<in> set m' \<or> fst e + length (snd e) \<le> off')
    \<and> {off..<off'} \<subseteq> covered m"
  using assms
proof (induction off m acc rule: drain_contiguous.induct)
  case (1 off m acc)
  show ?case
  proof (cases "bmap_last_le off m")
    case None
    then have "off' = off" "m' = m" "acc' = acc"
      using "1.prems"(2) by (subst (asm) drain_contiguous.simps, simp)+
    then show ?thesis using "1.prems"(1) None by (auto simp add: bmap_last_le_None_iff)
  next
    case (Some e)
    obtain k d where e: "e = (k, d)" by force
    have mem: "(k, d) \<in> set m" and k: "k \<le> off"
      using bmap_last_le_SomeD [OF Some] by (simp_all add: e)
    have d: "seg_ok src k d" using "1.prems"(1) mem by (auto simp add: pending_ok_def)
    have m1: "pending_ok src (bmap_remove k m)" using "1.prems"(1) by simp
    have rest: "x = (k, d) \<or> x \<in> set (bmap_remove k m)" if "x \<in> set m" for x
    proof (cases "fst x = k")
      case True
      then have "snd x = d"
        using that mem "1.prems"(1) bmap_unique [of m k "snd x" d] by (simp add: pending_ok_def flip: True)
      then show ?thesis using True by (simp add: prod_eq_iff)
    next
      case False
      then show ?thesis using that by simp
    qed
    have cov: "covered (bmap_remove k m) \<subseteq> covered m" by (auto simp add: covered_def)
    show ?thesis
    proof (cases "k + length d \<le> off")
      case True
      have "drain_contiguous off (bmap_remove k m) acc = (off', m', acc')"
        using "1.prems"(2) by (subst (asm) drain_contiguous.simps) (simp add: Some e True)
      note IH = "1.IH"(1) [OF Some _ refl refl True m1 this, simplified e, OF refl]
      have "\<forall>e \<in> set m. e \<in> set m' \<or> fst e + length (snd e) \<le> off'"
      proof
        fix e assume "e \<in> set m"
        from rest [OF this] show "e \<in> set m' \<or> fst e + length (snd e) \<le> off'"
          using IH True by auto
      qed
      then show ?thesis using IH cov by auto
    next
      case False
      have "drain_contiguous (k + length d) (bmap_remove k m) (acc @ drop (off - k) d) = (off', m', acc')"
        using "1.prems"(2) by (subst (asm) drain_contiguous.simps) (simp add: Some e False)
      note IH = "1.IH"(2) [OF Some _ refl refl False m1 this, simplified e, OF refl]
      have "drop (off - k) d = map src [off..<k + length d]"
        using seg_ok_drop [OF d, of "off - k"] False k by simp
      then have "acc' = acc @ map src [off..<off']"
        using IH False map_upt_split [of off "k + length d" off' src] by simp
      moreover have "{off..<off'} \<subseteq> covered m"
      proof
        fix n assume n: "n \<in> {off..<off'}"
        show "n \<in> covered m"
        proof (cases "n < k + length d")
          case True
          then show ?thesis using covered_mem [OF mem] n k by simp
        next
          case False
          then have "n \<in> {k + length d..<off'}" using n by simp
          then show ?thesis using IH cov by blast
        qed
      qed
      moreover have "\<forall>e \<in> set m. e \<in> set m' \<or> fst e + length (snd e) \<le> off'"
      proof
        fix e assume "e \<in> set m"
        from rest [OF this] show "e \<in> set m' \<or> fst e + length (snd e) \<le> off'"
          using IH by auto
      qed
      ultimately show ?thesis using IH False by auto
    qed
  qed
qed

section \<open>Absorbing one frame\<close>

text \<open>The common core of both receivers: trim, buffer, drain.\<close>

definition absorb :: "nat \<Rightarrow> bytes bmap \<Rightarrow> bytes \<Rightarrow> nat \<Rightarrow> bytes \<Rightarrow> nat \<times> bytes bmap \<times> bytes" where
  "absorb r m acc off data =
     (if off + length data \<le> r then (r, m, acc)
      else let (o', d') = trim_delivered r off data
           in drain_contiguous r (if d' \<noteq> [] then bmap_insert o' d' m else m) acc)"

definition recv_inv :: "(nat \<Rightarrow> u8) \<Rightarrow> nat \<Rightarrow> bytes bmap \<Rightarrow> bool" where
  "recv_inv src r m \<longleftrightarrow> pending_ok src m \<and> (\<forall>e \<in> set m. r < fst e)"

lemma absorb_spec:
  assumes "recv_inv src r m" and "seg_ok src off data" and "absorb r m acc off data = (r', m', acc')"
  shows "recv_inv src r' m' \<and> r \<le> r' \<and> acc' = acc @ map src [r..<r']"
proof (cases "off + length data \<le> r")
  case True
  then show ?thesis using assms by (simp add: absorb_def)
next
  case False
  obtain o' d' where t: "trim_delivered r off data = (o', d')" by force
  have "r < off + length data" using False by simp
  then have ok: "seg_ok src o' d'" using trim_seg_ok [OF assms(2) _ t] by blast
  let ?m = "if d' \<noteq> [] then bmap_insert o' d' m else m"
  have m: "pending_ok src ?m"
    using assms(1) ok by (simp add: recv_inv_def pending_ok_insert)
  have d: "drain_contiguous r ?m acc = (r', m', acc')"
    using assms(3) False by (simp only: absorb_def t if_False Let_def prod.case)
  show ?thesis using drain_spec [OF m d] by (simp add: recv_inv_def)
qed

text \<open>
  Nothing received is forgotten, provided a frame never replaces a longer buffered
  segment with the same start offset.
\<close>

lemma covered_insert:
  assumes "bmap_ok m" and "\<And>old. bmap_get k m = Some old \<Longrightarrow> length old \<le> length d"
  shows "covered (bmap_insert k d m) = covered m \<union> {k..<k + length d}"
proof (intro equalityI subsetI)
  fix n assume "n \<in> covered (bmap_insert k d m)"
  then show "n \<in> covered m \<union> {k..<k + length d}"
    using assms(1) by (auto simp add: covered_def bmap_insert_mem)
next
  fix n assume "n \<in> covered m \<union> {k..<k + length d}"
  then consider "k \<le> n" "n < k + length d"
    | j e where "(j, e) \<in> set m" "j \<le> n" "n < j + length e" "j \<noteq> k"
    | e where "(k, e) \<in> set m" "k \<le> n" "n < k + length e"
    by (fastforce simp add: covered_def)
  then show "n \<in> covered (bmap_insert k d m)"
  proof cases
    case 1
    then show ?thesis using assms(1) by (intro covered_mem [of k d]) (auto simp add: bmap_insert_mem)
  next
    case 2
    then show ?thesis using assms(1) by (intro covered_mem [of j e]) (auto simp add: bmap_insert_mem)
  next
    case 3
    then have "length e \<le> length d" using assms by (simp add: bmap_get_iff_mem)
    then show ?thesis
      using 3 assms(1) by (intro covered_mem [of k d]) (auto simp add: bmap_insert_mem)
  qed
qed

lemma drain_covered:
  assumes "pending_ok src m" and "drain_contiguous r m acc = (r', m', acc')"
  shows "{0..<r'} \<union> covered m' = {0..<r} \<union> covered m"
proof -
  note spec = drain_spec [OF assms]
  have 1: "covered m' \<subseteq> covered m" using spec by (auto simp add: covered_def)
  have 2: "{0..<r'} = {0..<r} \<union> {r..<r'}" using spec by auto
  have "n \<in> {0..<r'} \<union> covered m'" if n: "n \<in> covered m" for n
  proof -
    obtain k d where "(k, d) \<in> set m" "k \<le> n" "n < k + length d"
      using n by (auto simp add: covered_def)
    then show ?thesis using spec covered_mem [of k d m' n] by fastforce
  qed
  then show ?thesis using 1 2 spec by blast
qed

lemma absorb_complete:
  assumes "recv_inv src r m" and "seg_ok src off data" and "absorb r m acc off data = (r', m', acc')"
    and old: "\<And>old. bmap_get off m = Some old \<Longrightarrow> length old \<le> length data"
  shows "{0..<r'} \<union> covered m' = {0..<r} \<union> covered m \<union> {off..<off + length data}
    \<and> set m' \<subseteq> insert (off, data) (set m)"
proof (cases "off + length data \<le> r")
  case True
  then show ?thesis using assms by (auto simp add: absorb_def)
next
  case False
  obtain o' d' where t: "trim_delivered r off data = (o', d')" by force
  have "r < off + length data" using False by simp
  then have ok: "seg_ok src o' d'" and o': "o' = max r off" "o' + length d' = off + length data"
    using trim_seg_ok [OF assms(2) _ t] by blast+
  let ?m = "if d' \<noteq> [] then bmap_insert o' d' m else m"
  have bm: "bmap_ok m" and gt: "\<forall>e \<in> set m. r < fst e"
    using assms(1) by (simp_all add: recv_inv_def pending_ok_def)
  have untrimmed: "o' = off \<and> d' = data" if "r < o'"
    using t that by (auto simp add: trim_delivered_def split: if_splits)
  have m: "pending_ok src ?m"
    using assms(1) ok by (simp add: recv_inv_def pending_ok_insert)
  have d: "drain_contiguous r ?m acc = (r', m', acc')"
    using assms(3) False by (simp only: absorb_def t if_False Let_def prod.case)
  have "length e \<le> length d'" if "bmap_get o' m = Some e" for e
  proof -
    have "(o', e) \<in> set m" using that bm by (simp add: bmap_get_iff_mem)
    then have "r < o'" using gt by fastforce
    then show ?thesis using that untrimmed old by simp
  qed
  then have "covered ?m = covered m \<union> {o'..<o' + length d'}"
    using covered_insert [OF bm] by simp
  moreover have "{0..<r} \<union> {o'..<o' + length d'} = {0..<r} \<union> {off..<off + length data}"
    using o' by auto
  ultimately have "{0..<r'} \<union> covered m' = {0..<r} \<union> covered m \<union> {off..<off + length data}"
    using drain_covered [OF m d] by blast
  moreover have "set m' \<subseteq> insert (off, data) (set m)"
  proof
    fix e assume e: "e \<in> set m'"
    then have "r < fst e" "e \<in> set ?m" using drain_spec [OF m d] by auto
    then show "e \<in> insert (off, data) (set m)"
      using bm untrimmed by (auto simp add: bmap_insert_mem split: if_splits)
  qed
  ultimately show ?thesis by blast
qed

section \<open>The contract\<close>

text \<open>
  A reassembler consumes frames and emits bytes.  On frames that carry the sender's
  bytes it keeps its invariant and emits exactly the bytes between its old and its
  new position.
\<close>

text \<open>Feed a sequence of frames and collect the output.\<close>

fun run_frames ::
    "(nat \<Rightarrow> bytes \<Rightarrow> 's \<Rightarrow> bytes \<times> 's) \<Rightarrow> (nat \<times> bytes) list \<Rightarrow> 's \<Rightarrow> bytes \<times> 's" where
  "run_frames step [] s = ([], s)"
| "run_frames step ((off, data) # fs) s =
     (let r = step off data s; rs = run_frames step fs (snd r)
      in (fst r @ fst rs, snd rs))"

locale reassembler =
  fixes step :: "nat \<Rightarrow> bytes \<Rightarrow> 's \<Rightarrow> bytes \<times> 's"
    and position :: "'s \<Rightarrow> nat"
    and inv :: "(nat \<Rightarrow> u8) \<Rightarrow> 's \<Rightarrow> bool"
  assumes step_inv: "inv src s \<Longrightarrow> seg_ok src off data \<Longrightarrow> inv src (snd (step off data s))"
    and step_out: "inv src s \<Longrightarrow> seg_ok src off data \<Longrightarrow>
      fst (step off data s) = map src [position s..<position (snd (step off data s))]"
    and step_mono: "inv src s \<Longrightarrow> seg_ok src off data \<Longrightarrow>
      position s \<le> position (snd (step off data s))"
begin

lemma run_prefix:
  assumes "inv src s" and "\<forall>(off, data) \<in> set fs. seg_ok src off data"
  shows "inv src (snd (run_frames step fs s)) \<and> position s \<le> position (snd (run_frames step fs s))
    \<and> fst (run_frames step fs s) = map src [position s..<position (snd (run_frames step fs s))]"
  using assms
proof (induction fs arbitrary: s)
  case (Cons f fs)
  obtain off data where f: "f = (off, data)" by force
  have ok: "seg_ok src off data" using Cons.prems(2) by (simp add: f)
  define s1 where "s1 = snd (step off data s)"
  have 1: "inv src s1" "position s \<le> position s1" "fst (step off data s) = map src [position s..<position s1]"
    unfolding s1_def using step_inv step_out step_mono Cons.prems(1) ok by blast+
  have 2: "inv src (snd (run_frames step fs s1))" "position s1 \<le> position (snd (run_frames step fs s1))"
    "fst (run_frames step fs s1) = map src [position s1..<position (snd (run_frames step fs s1))]"
    using Cons.IH [OF 1(1)] Cons.prems(2) by auto
  have r: "run_frames step (f # fs) s = (fst (step off data s) @ fst (run_frames step fs s1), snd (run_frames step fs s1))"
    by (simp add: f s1_def Let_def)
  show ?case unfolding r using 1 2 map_upt_split [OF 1(2) 2(2), of src] by simp
qed simp

end

text \<open>
  A reassembler that keeps its out-of-order segments in a map, and forgets nothing
  unless a frame replaces a longer segment.
\<close>

definition frame_offsets :: "(nat \<times> bytes) list \<Rightarrow> nat set" where
  "frame_offsets fs = (\<Union>(off, data) \<in> set fs. {off..<off + length data})"

definition never_shortens :: "(nat \<times> bytes) list \<Rightarrow> bool" where
  "never_shortens fs =
     sorted_wrt (\<lambda>a b. fst a = fst b \<longrightarrow> length (snd a) \<le> length (snd b)) fs"

locale complete_reassembler = reassembler step position inv
  for step :: "nat \<Rightarrow> bytes \<Rightarrow> 's \<Rightarrow> bytes \<times> 's"
    and position :: "'s \<Rightarrow> nat"
    and inv :: "(nat \<Rightarrow> u8) \<Rightarrow> 's \<Rightarrow> bool" +
  fixes pending_of :: "'s \<Rightarrow> bytes bmap"
  assumes inv_gap: "inv src s \<Longrightarrow> recv_inv src (position s) (pending_of s)"
    and step_complete: "inv src s \<Longrightarrow> seg_ok src off data \<Longrightarrow>
      (\<And>old. bmap_get off (pending_of s) = Some old \<Longrightarrow> length old \<le> length data) \<Longrightarrow>
      s' = snd (step off data s) \<Longrightarrow>
      {0..<position s'} \<union> covered (pending_of s') =
        {0..<position s} \<union> covered (pending_of s) \<union> {off..<off + length data}
      \<and> set (pending_of s') \<subseteq> insert (off, data) (set (pending_of s))"
begin

lemma run_covers:
  assumes "inv src s" and "\<forall>(off, data) \<in> set fs. seg_ok src off data"
    and "never_shortens (before @ fs)" and "set (pending_of s) \<subseteq> set before"
  shows "{0..<position (snd (run_frames step fs s))} \<union> covered (pending_of (snd (run_frames step fs s)))
    = {0..<position s} \<union> covered (pending_of s) \<union> frame_offsets fs"
  using assms
proof (induction fs arbitrary: s before)
  case (Cons f fs)
  obtain off data where f: "f = (off, data)" by force
  have ok: "seg_ok src off data" using Cons.prems(2) by (simp add: f)
  define s1 where "s1 = snd (step off data s)"
  have inv1: "inv src s1" unfolding s1_def using step_inv Cons.prems(1) ok by blast
  have bm: "bmap_ok (pending_of s)"
    using inv_gap [OF Cons.prems(1)] by (simp add: recv_inv_def pending_ok_def)
  have "length old \<le> length data" if "bmap_get off (pending_of s) = Some old" for old
  proof -
    have "(off, old) \<in> set before"
      using that bm Cons.prems(4) by (auto simp add: bmap_get_iff_mem)
    then show ?thesis using Cons.prems(3) by (auto simp add: never_shortens_def sorted_wrt_append f)
  qed
  then have 1: "{0..<position s1} \<union> covered (pending_of s1) =
        {0..<position s} \<union> covered (pending_of s) \<union> {off..<off + length data}"
    and 2: "set (pending_of s1) \<subseteq> insert (off, data) (set (pending_of s))"
    using step_complete [OF Cons.prems(1) ok _ s1_def] by blast+
  have "{0..<position (snd (run_frames step fs s1))} \<union> covered (pending_of (snd (run_frames step fs s1)))
      = {0..<position s1} \<union> covered (pending_of s1) \<union> frame_offsets fs"
    using Cons.prems 2 by (intro Cons.IH [of s1 "before @ [f]"] inv1) (auto simp add: f)
  moreover have "frame_offsets (f # fs) = {off..<off + length data} \<union> frame_offsets fs"
    by (simp add: frame_offsets_def f)
  moreover have "snd (run_frames step (f # fs) s) = snd (run_frames step fs s1)"
    by (simp add: f s1_def Let_def)
  ultimately show ?case using 1 by (simp only: Un_assoc)
qed (simp add: frame_offsets_def)

lemma run_exact:
  assumes "inv src s" and "position s = 0" and "pending_of s = []"
    and "\<forall>(off, data) \<in> set fs. seg_ok src off data" and "never_shortens fs"
  shows "{0..<position (snd (run_frames step fs s))} \<subseteq> frame_offsets fs
    \<and> position (snd (run_frames step fs s)) \<notin> frame_offsets fs"
proof -
  let ?s = "snd (run_frames step fs s)"
  have eq: "{0..<position ?s} \<union> covered (pending_of ?s) = frame_offsets fs"
    using run_covers [OF assms(1,4), of "[]"] assms(2,3,5) by (simp add: covered_def)
  have "\<forall>e \<in> set (pending_of ?s). position ?s < fst e"
    using inv_gap [of src ?s] run_prefix [OF assms(1,4)] by (simp add: recv_inv_def)
  then have "position ?s \<notin> covered (pending_of ?s)" by (fastforce simp add: covered_def)
  then show ?thesis using eq by auto
qed

end

end
