(* ===== verification/Crypto_Stream.thy ===== *)
theory Crypto_Stream
  imports Reassembly
begin

text \<open>
  \<^verbatim>\<open>oxiquic-transport/src/crypto_stream.rs\<close>: reassembly and send buffering of one
  packet-number space's \<^verbatim>\<open>CRYPTO\<close> stream.
\<close>

section \<open>State and operations\<close>

record CryptoStream =
  cs_recv_offset :: u64
  cs_recv_pending :: "bytes bmap"
  cs_send_buf :: bytes
  cs_send_base :: u64
  cs_resend :: "(u64 \<times> bytes) list"

definition CryptoStream_new :: CryptoStream where
  "CryptoStream_new =
     \<lparr>cs_recv_offset = 0, cs_recv_pending = [], cs_send_buf = [], cs_send_base = 0,
      cs_resend = []\<rparr>"

definition crypto_recv :: "u64 \<Rightarrow> bytes \<Rightarrow> CryptoStream \<Rightarrow> bytes option \<times> CryptoStream" where
  "crypto_recv offset data s =
     (if offset + length data \<le> cs_recv_offset s then (None, s)
      else
        let (offset, data) = trim_delivered (cs_recv_offset s) offset data;
            pending = (if data \<noteq> [] then bmap_insert offset data (cs_recv_pending s)
                       else cs_recv_pending s);
            (recv_offset, pending, delivered) =
              drain_contiguous (cs_recv_offset s) pending []
        in (if delivered = [] then None else Some delivered,
            s\<lparr>cs_recv_offset := recv_offset, cs_recv_pending := pending\<rparr>))"

definition enqueue_send :: "bytes \<Rightarrow> CryptoStream \<Rightarrow> CryptoStream" where
  "enqueue_send data s = s\<lparr>cs_send_buf := cs_send_buf s @ data\<rparr>"

definition has_send_data :: "CryptoStream \<Rightarrow> bool" where
  "has_send_data s = (cs_resend s \<noteq> [] \<or> cs_send_buf s \<noteq> [])"

definition crypto_requeue :: "u64 \<Rightarrow> bytes \<Rightarrow> CryptoStream \<Rightarrow> CryptoStream" where
  "crypto_requeue offset data s = s\<lparr>cs_resend := cs_resend s @ [(offset, data)]\<rparr>"

definition take_send :: "nat \<Rightarrow> CryptoStream \<Rightarrow> (u64 \<times> bytes) option \<times> CryptoStream" where
  "take_send max_len s =
     (if max_len = 0 then (None, s)
      else case cs_resend s of
        (offset, data) # rest_resend \<Rightarrow>
          if length data \<le> max_len
          then (Some (offset, data), s\<lparr>cs_resend := rest_resend\<rparr>)
          else (Some (offset, take max_len data),
                s\<lparr>cs_resend := (offset + max_len, drop max_len data) # rest_resend\<rparr>)
      | [] \<Rightarrow>
          if cs_send_buf s = [] then (None, s)
          else
            let n = min max_len (length (cs_send_buf s))
            in (Some (cs_send_base s, take n (cs_send_buf s)),
                s\<lparr>cs_send_buf := drop n (cs_send_buf s), cs_send_base := cs_send_base s + n\<rparr>))"

section \<open>Receiving\<close>

definition crypto_step :: "nat \<Rightarrow> bytes \<Rightarrow> CryptoStream \<Rightarrow> bytes \<times> CryptoStream" where
  "crypto_step offset data s =
     (let (out, s') = crypto_recv offset data s
      in (case out of None \<Rightarrow> [] | Some bs \<Rightarrow> bs, s'))"

definition crypto_inv :: "(nat \<Rightarrow> u8) \<Rightarrow> CryptoStream \<Rightarrow> bool" where
  "crypto_inv src s \<longleftrightarrow> recv_inv src (cs_recv_offset s) (cs_recv_pending s)"

lemma crypto_step_absorb:
  "absorb (cs_recv_offset s) (cs_recv_pending s) [] off data =
     (cs_recv_offset (snd (crypto_step off data s)), cs_recv_pending (snd (crypto_step off data s)),
      fst (crypto_step off data s))"
  by (auto simp add: crypto_step_def crypto_recv_def absorb_def Let_def split: prod.splits)

lemma crypto_step_spec:
  assumes "crypto_inv src s" and "seg_ok src off data"
  shows "crypto_inv src (snd (crypto_step off data s))
    \<and> cs_recv_offset s \<le> cs_recv_offset (snd (crypto_step off data s))
    \<and> fst (crypto_step off data s) =
        map src [cs_recv_offset s..<cs_recv_offset (snd (crypto_step off data s))]"
  using absorb_spec [OF _ assms(2) crypto_step_absorb] assms(1) by (simp add: crypto_inv_def)

interpretation crypto: complete_reassembler crypto_step cs_recv_offset crypto_inv cs_recv_pending
proof unfold_locales
  fix src s off data s'
  assume "crypto_inv src s" and "seg_ok src off data"
    and "\<And>old. bmap_get off (cs_recv_pending s) = Some old \<Longrightarrow> length old \<le> length data"
    and "s' = snd (crypto_step off data s)"
  then show "{0..<cs_recv_offset s'} \<union> covered (cs_recv_pending s') =
        {0..<cs_recv_offset s} \<union> covered (cs_recv_pending s) \<union> {off..<off + length data}
      \<and> set (cs_recv_pending s') \<subseteq> insert (off, data) (set (cs_recv_pending s))"
    using absorb_complete [OF _ _ crypto_step_absorb] by (simp add: crypto_inv_def)
qed (use crypto_step_spec in \<open>auto simp add: crypto_inv_def\<close>)

section \<open>Sending\<close>

definition crypto_send_ok :: "(nat \<Rightarrow> u8) \<Rightarrow> CryptoStream \<Rightarrow> bool" where
  "crypto_send_ok src s \<longleftrightarrow>
     seg_ok src (cs_send_base s) (cs_send_buf s)
     \<and> list_all (\<lambda>(off, data). seg_ok src off data) (cs_resend s)"

lemma seg_ok_append:
  "seg_ok src off (xs @ ys) \<longleftrightarrow> seg_ok src off xs \<and> seg_ok src (off + length xs) ys"
proof -
  have "map src [off..<off + length (xs @ ys)] =
      map src [off..<off + length xs] @ map src [off + length xs..<off + length xs + length ys]"
    using map_upt_split [of off "off + length xs" "off + length xs + length ys" src]
    by (simp add: add.assoc)
  then show ?thesis by (simp add: seg_ok_def)
qed

lemma seg_ok_split:
  assumes "seg_ok src off data"
  shows "seg_ok src off (take n data)" and "seg_ok src (off + min n (length data)) (drop n data)"
proof -
  have "seg_ok src off (take n data @ drop n data)" using assms by simp
  then show "seg_ok src off (take n data)" and "seg_ok src (off + min n (length data)) (drop n data)"
    unfolding seg_ok_append by (simp_all add: min.commute)
qed

lemma take_send_ok:
  assumes "crypto_send_ok src s" and "take_send n s = (r, s')"
  shows "crypto_send_ok src s' \<and> (case r of None \<Rightarrow> True | Some (off, data) \<Rightarrow> seg_ok src off data)"
proof (cases "cs_resend s")
  case Nil
  then show ?thesis
    using assms seg_ok_split [of src "cs_send_base s" "cs_send_buf s" "min n (length (cs_send_buf s))"]
    by (auto simp add: take_send_def crypto_send_ok_def Let_def split: if_splits)
next
  case (Cons e es)
  obtain off data where e: "e = (off, data)" by force
  show ?thesis
    using assms seg_ok_split [of src off data n] Cons e
    by (auto simp add: take_send_def crypto_send_ok_def split: if_splits)
qed

lemma crypto_send_ops_ok:
  assumes "crypto_send_ok src s"
  shows "seg_ok src (cs_send_base s + length (cs_send_buf s)) data \<Longrightarrow> crypto_send_ok src (enqueue_send data s)"
    and "seg_ok src off data \<Longrightarrow> crypto_send_ok src (crypto_requeue off data s)"
  using assms by (simp_all add: crypto_send_ok_def enqueue_send_def crypto_requeue_def seg_ok_append)

lemma take_send_progress:
  assumes "has_send_data s" and "0 < n"
  shows "\<exists>off data s'. take_send n s = (Some (off, data), s')
    \<and> length (cs_send_buf s') + length (cs_resend s') + sum_list (map (length \<circ> snd) (cs_resend s'))
      < length (cs_send_buf s) + length (cs_resend s) + sum_list (map (length \<circ> snd) (cs_resend s))"
  using assms by (auto simp add: take_send_def has_send_data_def Let_def split: list.splits)

section \<open>Properties\<close>

text \<open>
  C22: the handshake reaches TLS in order.  Whatever \<^verbatim>\<open>CRYPTO\<close> frames arrive, in any
  order, split, overlapping or repeated, as long as they carry the peer's bytes the
  concatenation of what is handed to TLS is exactly the peer's stream up to the
  receive offset, with no byte missing, repeated or reordered.
\<close>

theorem crypto_delivers_prefix:
  assumes "list_all (\<lambda>(off, data). seg_ok src off data) fs"
  shows "let (delivered, s) = run_frames crypto_step fs CryptoStream_new
         in delivered = map src [0..<cs_recv_offset s]"
proof -
  have new: "crypto_inv src CryptoStream_new"
    by (simp add: crypto_inv_def recv_inv_def pending_ok_def CryptoStream_new_def)
  have "\<forall>(off, data) \<in> set fs. seg_ok src off data" using assms by (simp add: list_all_iff)
  from crypto.run_prefix [OF new this] show ?thesis
    by (simp add: case_prod_unfold Let_def CryptoStream_new_def)
qed

theorem crypto_delivers_prefix_witness:
  "run_frames crypto_step [(2, [12, 13, 14]), (0, [10, 11, 12]), (1, [11])] CryptoStream_new =
     ([10, 11, 12, 13, 14], CryptoStream_new\<lparr>cs_recv_offset := 5\<rparr>)"
proof -
  let ?src = "\<lambda>n. word_of_nat (n + 10) :: u8"
  let ?fs = "[(2, [12, 13, 14]), (0, [10, 11, 12]), (1, [11])] :: (nat \<times> bytes) list"
  have ok: "list_all (\<lambda>(off, data). seg_ok ?src off data) ?fs"
    by (simp add: seg_ok_def upt_rec)
  have s: "snd (run_frames crypto_step ?fs CryptoStream_new) = CryptoStream_new\<lparr>cs_recv_offset := 5\<rparr>"
    by (simp add: crypto_step_def crypto_recv_def trim_delivered_def drain_contiguous.simps
        bmap_last_le_def bmap_remove_def CryptoStream_new_def Let_def)
  show ?thesis
    using crypto_delivers_prefix [OF ok] s
    by (simp add: case_prod_unfold Let_def prod_eq_iff upt_rec)
qed

text \<open>
  C23: nothing received is withheld.  If no frame is shorter than an earlier one with
  the same offset, the receive offset after any sequence of frames is exactly the end
  of the contiguous prefix they cover: every offset below it was received and the
  offset itself was not.
\<close>

theorem crypto_delivers_all:
  assumes "list_all (\<lambda>(off, data). seg_ok src off data) fs" and "never_shortens fs"
  shows "let s = snd (run_frames crypto_step fs CryptoStream_new)
         in {0..<cs_recv_offset s} \<subseteq> frame_offsets fs \<and> cs_recv_offset s \<notin> frame_offsets fs"
proof -
  have new: "crypto_inv src CryptoStream_new" "cs_recv_offset CryptoStream_new = 0"
    "cs_recv_pending CryptoStream_new = []"
    by (simp_all add: crypto_inv_def recv_inv_def pending_ok_def CryptoStream_new_def)
  have "\<forall>(off, data) \<in> set fs. seg_ok src off data" using assms by (simp add: list_all_iff)
  from crypto.run_exact [OF new this assms(2)] show ?thesis by (simp add: Let_def)
qed

theorem crypto_delivers_all_witness:
  "let fs = [(2, [2, 3]), (0, [0, 1, 2]), (6, [6])] :: (nat \<times> bytes) list;
       s = snd (run_frames crypto_step fs CryptoStream_new)
   in cs_recv_offset s = 4 \<and> {0..<4} \<subseteq> frame_offsets fs \<and> 4 \<notin> frame_offsets fs"
proof -
  let ?src = "\<lambda>n. word_of_nat n :: u8"
  let ?fs = "[(2, [2, 3]), (0, [0, 1, 2]), (6, [6])] :: (nat \<times> bytes) list"
  have ok: "list_all (\<lambda>(off, data). seg_ok ?src off data) ?fs" "never_shortens ?fs"
    by (simp_all add: seg_ok_def upt_rec never_shortens_def)
  have s: "cs_recv_offset (snd (run_frames crypto_step ?fs CryptoStream_new)) = 4"
    by (simp add: crypto_step_def crypto_recv_def trim_delivered_def drain_contiguous.simps
        bmap_last_le_def bmap_remove_def CryptoStream_new_def Let_def)
  show ?thesis
    using crypto_delivers_all [OF ok] unfolding Let_def s by simp
qed

text \<open>
  The condition matters: a shorter frame with the same offset replaces the longer
  segment in the map, and the bytes beyond it are gone although they were received.
\<close>

lemma crypto_short_duplicate_loses_bytes:
  "let fs = [(2, [2, 3, 4]), (2, [2]), (0, [0, 1])] :: (nat \<times> bytes) list;
       s = snd (run_frames crypto_step fs CryptoStream_new)
   in cs_recv_offset s = 3 \<and> cs_recv_pending s = [] \<and> {3, 4} \<subseteq> frame_offsets fs"
  by (simp add: crypto_step_def crypto_recv_def trim_delivered_def drain_contiguous.simps
      bmap_last_le_def bmap_remove_def CryptoStream_new_def Let_def frame_offsets_def)

end
