(* ===== verification/Streams.thy ===== *)
theory Streams
  imports Crypto_Stream
begin

text \<open>
  \<^verbatim>\<open>oxiquic-transport/src/stream.rs\<close>: the send and receive halves of an application
  stream.
\<close>

section \<open>The send half\<close>

datatype StreamError = FinalSize | StreamReset u64

record ResendSegment =
  rg_offset :: u64
  rg_data :: bytes
  rg_fin :: bool

record SendStream =
  ss_buf :: bytes
  ss_base :: u64
  ss_fin :: bool
  ss_fin_sent :: bool
  ss_resend :: "ResendSegment list"
  ss_reset_code :: "u64 option"

definition SendStream_new :: SendStream where
  "SendStream_new =
     \<lparr>ss_buf = [], ss_base = 0, ss_fin = False, ss_fin_sent = False, ss_resend = [],
      ss_reset_code = None\<rparr>"

definition ss_write :: "bytes \<Rightarrow> bool \<Rightarrow> SendStream \<Rightarrow> SendStream" where
  "ss_write data fin s =
     (let s = s\<lparr>ss_buf := ss_buf s @ data\<rparr> in if fin then s\<lparr>ss_fin := True\<rparr> else s)"

definition ss_has_pending :: "SendStream \<Rightarrow> bool" where
  "ss_has_pending s =
     (if ss_reset_code s \<noteq> None then False
      else ss_resend s \<noteq> [] \<or> ss_buf s \<noteq> [] \<or> (ss_fin s \<and> \<not> ss_fin_sent s))"

definition ss_reset :: "u64 \<Rightarrow> SendStream \<Rightarrow> SendStream" where
  "ss_reset error_code s = s\<lparr>ss_reset_code := Some error_code, ss_buf := [], ss_resend := []\<rparr>"

definition ss_is_reset :: "SendStream \<Rightarrow> bool" where
  "ss_is_reset s = (ss_reset_code s \<noteq> None)"

definition ss_final_size :: "SendStream \<Rightarrow> u64" where
  "ss_final_size s = ss_base s + length (ss_buf s)"

definition ss_requeue :: "u64 \<Rightarrow> bytes \<Rightarrow> bool \<Rightarrow> SendStream \<Rightarrow> SendStream" where
  "ss_requeue offset data fin s =
     s\<lparr>ss_resend := ss_resend s @ [\<lparr>rg_offset = offset, rg_data = data, rg_fin = fin\<rparr>]\<rparr>"

definition ss_has_resend :: "SendStream \<Rightarrow> bool" where
  "ss_has_resend s = (ss_resend s \<noteq> [])"

definition ss_take :: "nat \<Rightarrow> SendStream \<Rightarrow> (u64 \<times> bytes \<times> bool) option \<times> SendStream" where
  "ss_take max_len s =
     (if ss_reset_code s \<noteq> None then (None, s)
      else case ss_resend s of
        front # rest_resend \<Rightarrow>
          if max_len = 0 then (None, s)
          else if length (rg_data front) \<le> max_len
          then (Some (rg_offset front, rg_data front, rg_fin front), s\<lparr>ss_resend := rest_resend\<rparr>)
          else (Some (rg_offset front, take max_len (rg_data front), False),
                s\<lparr>ss_resend :=
                    front\<lparr>rg_data := drop max_len (rg_data front),
                          rg_offset := rg_offset front + max_len\<rparr> # rest_resend\<rparr>)
      | [] \<Rightarrow>
          if ss_buf s = [] then
            if ss_fin s \<and> \<not> ss_fin_sent s
            then (Some (ss_base s, [], True), s\<lparr>ss_fin_sent := True\<rparr>)
            else (None, s)
          else
            let n = min max_len (length (ss_buf s)) in
            if n = 0 then (None, s)
            else
              let chunk = take n (ss_buf s);
                  offset = ss_base s;
                  s = s\<lparr>ss_buf := drop n (ss_buf s), ss_base := ss_base s + n\<rparr>;
                  fin = (ss_fin s \<and> ss_buf s = []);
                  s = (if fin then s\<lparr>ss_fin_sent := True\<rparr> else s)
              in (Some (offset, chunk, fin), s))"

section \<open>The receive half\<close>

record RecvStream =
  rv_read_offset :: u64
  rv_pending :: "bytes bmap"
  rv_ready :: bytes
  rv_final_size :: "u64 option"
  rv_fin_delivered :: bool
  rv_reset_code :: "u64 option"

definition RecvStream_new :: RecvStream where
  "RecvStream_new =
     \<lparr>rv_read_offset = 0, rv_pending = [], rv_ready = [], rv_final_size = None,
      rv_fin_delivered = False, rv_reset_code = None\<rparr>"

definition apply_reset :: "u64 \<Rightarrow> RecvStream \<Rightarrow> RecvStream" where
  "apply_reset error_code s =
     s\<lparr>rv_reset_code := Some error_code, rv_ready := [], rv_pending := []\<rparr>"

definition rv_is_reset :: "RecvStream \<Rightarrow> bool" where
  "rv_is_reset s = (rv_reset_code s \<noteq> None)"

definition flush_contiguous :: "RecvStream \<Rightarrow> RecvStream" where
  "flush_contiguous s =
     (let (read_offset, pending, ready) =
            drain_contiguous (rv_read_offset s) (rv_pending s) (rv_ready s)
      in s\<lparr>rv_read_offset := read_offset, rv_pending := pending, rv_ready := ready\<rparr>)"

definition rv_read :: "RecvStream \<Rightarrow> (bytes \<times> bool) \<times> RecvStream" where
  "rv_read s = ((rv_ready s, rv_fin_delivered s \<and> rv_pending s = []), s\<lparr>rv_ready := []\<rparr>)"

definition read_checked :: "RecvStream \<Rightarrow> (StreamError + bytes \<times> bool) \<times> RecvStream" where
  "read_checked s =
     (case rv_reset_code s of
        Some code \<Rightarrow> (Inl (StreamReset code), s)
      | None \<Rightarrow> let (r, s) = rv_read s in (Inr r, s))"

text \<open>
  \<^verbatim>\<open>recv\<close> in three stages: the final-size check, the buffering of the new bytes, and the
  test for the end of the stream.
\<close>

definition size_violated :: "u64 \<Rightarrow> bool \<Rightarrow> RecvStream \<Rightarrow> bool" where
  "size_violated end_off fin s =
     (case rv_final_size s of
        Some fsize \<Rightarrow> end_off > fsize \<or> (fin \<and> end_off \<noteq> fsize)
      | None \<Rightarrow> False)"

definition rv_store :: "u64 \<Rightarrow> bytes \<Rightarrow> RecvStream \<Rightarrow> RecvStream" where
  "rv_store offset data s =
     (if offset + length data > rv_read_offset s then
        let (off', data') = trim_delivered (rv_read_offset s) offset data;
            s = (if data' \<noteq> [] then s\<lparr>rv_pending := bmap_insert off' data' (rv_pending s)\<rparr>
                 else s)
        in flush_contiguous s
      else s)"

definition note_fin :: "RecvStream \<Rightarrow> RecvStream" where
  "note_fin s =
     (case rv_final_size s of
        Some fsize \<Rightarrow>
          if rv_read_offset s \<ge> fsize then s\<lparr>rv_fin_delivered := True\<rparr> else s
      | None \<Rightarrow> s)"

definition rv_recv ::
    "u64 \<Rightarrow> bytes \<Rightarrow> bool \<Rightarrow> RecvStream \<Rightarrow> (StreamError + bool) \<times> RecvStream" where
  "rv_recv offset data fin s =
     (let end_off = offset + length data in
      if size_violated end_off fin s then (Inl FinalSize, s)
      else
        let s1 = (if fin then s\<lparr>rv_final_size := Some end_off\<rparr> else s);
            s3 = note_fin (rv_store offset data s1)
        in (Inr (length (rv_ready s3) > length (rv_ready s)
                 \<or> (rv_fin_delivered s3 \<and> \<not> rv_fin_delivered s)), s3))"

section \<open>Receiving\<close>

lemma flush_contiguous_frame [simp]:
  "rv_final_size (flush_contiguous s) = rv_final_size s"
  "rv_fin_delivered (flush_contiguous s) = rv_fin_delivered s"
  "rv_reset_code (flush_contiguous s) = rv_reset_code s"
  by (simp_all add: flush_contiguous_def split: prod.split)

lemma rv_store_frame [simp]:
  "rv_final_size (rv_store off data s) = rv_final_size s"
  "rv_fin_delivered (rv_store off data s) = rv_fin_delivered s"
  "rv_reset_code (rv_store off data s) = rv_reset_code s"
  by (simp_all add: rv_store_def Let_def split: prod.split)

lemma note_fin_frame [simp]:
  "rv_final_size (note_fin s) = rv_final_size s"
  "rv_read_offset (note_fin s) = rv_read_offset s"
  "rv_pending (note_fin s) = rv_pending s"
  "rv_ready (note_fin s) = rv_ready s"
  "rv_reset_code (note_fin s) = rv_reset_code s"
  by (simp_all add: note_fin_def split: option.split)

lemma note_fin_delivered:
  "rv_fin_delivered (note_fin s) \<longleftrightarrow>
     rv_fin_delivered s \<or> (\<exists>f. rv_final_size s = Some f \<and> f \<le> rv_read_offset s)"
  by (simp add: note_fin_def split: option.split)

lemma rv_store_absorb:
  "absorb (rv_read_offset s) (rv_pending s) (rv_ready s) off data =
    (rv_read_offset (rv_store off data s), rv_pending (rv_store off data s),
     rv_ready (rv_store off data s))"
  by (simp add: absorb_def rv_store_def Let_def flush_contiguous_def split: prod.split)

lemma rv_recv_Inr:
  "rv_recv off data fin s = (Inr b, s') \<Longrightarrow>
     s' = note_fin (rv_store off data (if fin then s\<lparr>rv_final_size := Some (off + length data)\<rparr> else s))"
  by (auto simp add: rv_recv_def Let_def split: if_splits)

lemma rv_recv_absorb:
  assumes "rv_recv off data fin s = (Inr b, s')"
  shows "absorb (rv_read_offset s) (rv_pending s) (rv_ready s) off data =
    (rv_read_offset s', rv_pending s', rv_ready s')"
  using rv_recv_Inr [OF assms]
    rv_store_absorb [of "if fin then s\<lparr>rv_final_size := Some (off + length data)\<rparr> else s" off data]
  by (cases fin) simp_all

text \<open>An application's view of the receive half: frames arrive and reads happen in any
  order.  Rejected frames leave the state alone.\<close>

datatype RecvEvent = RecvFrame u64 bytes bool | ReadReady

fun recv_run :: "RecvEvent list \<Rightarrow> RecvStream \<Rightarrow> bytes \<times> RecvStream" where
  "recv_run [] s = ([], s)"
| "recv_run (RecvFrame off data fin # es) s = recv_run es (snd (rv_recv off data fin s))"
| "recv_run (ReadReady # es) s =
     (let r = rv_read s; rs = recv_run es (snd r) in (fst (fst r) @ fst rs, snd rs))"

fun event_ok :: "(nat \<Rightarrow> u8) \<Rightarrow> RecvEvent \<Rightarrow> bool" where
  "event_ok src (RecvFrame off data fin) = seg_ok src off data"
| "event_ok src ReadReady = True"

lemma rv_recv_error_keeps: "rv_recv off data fin s = (Inl e, s') \<Longrightarrow> s' = s \<and> e = FinalSize"
  by (auto simp add: rv_recv_def Let_def split: if_splits)

lemma rv_recv_spec:
  assumes "recv_inv src (rv_read_offset s) (rv_pending s)" and "seg_ok src off data"
  shows "let s' = snd (rv_recv off data fin s) in
    recv_inv src (rv_read_offset s') (rv_pending s') \<and> rv_read_offset s \<le> rv_read_offset s'
    \<and> rv_ready s' = rv_ready s @ map src [rv_read_offset s..<rv_read_offset s']"
proof (cases "rv_recv off data fin s")
  case (Pair r s')
  show ?thesis
  proof (cases r)
    case (Inl e)
    then show ?thesis using rv_recv_error_keeps [of off data fin s e s'] Pair assms by simp
  next
    case (Inr b)
    then have "absorb (rv_read_offset s) (rv_pending s) (rv_ready s) off data =
        (rv_read_offset s', rv_pending s', rv_ready s')"
      using rv_recv_absorb Pair by simp
    from absorb_spec [OF assms this] show ?thesis by (simp add: Pair Let_def)
  qed
qed

lemma recv_run_prefix:
  assumes "recv_inv src (rv_read_offset s) (rv_pending s)" and "list_all (event_ok src) es"
    and "r0 \<le> rv_read_offset s" and "rv_ready s = map src [r0..<rv_read_offset s]"
  shows "let (out, s') = recv_run es s in
    r0 \<le> rv_read_offset s' \<and> out @ rv_ready s' = map src [r0..<rv_read_offset s']"
  using assms
proof (induction es arbitrary: s r0)
  case (Cons e es)
  show ?case
  proof (cases e)
    case (RecvFrame off data fin)
    define s1 where "s1 = snd (rv_recv off data fin s)"
    have 1: "recv_inv src (rv_read_offset s1) (rv_pending s1)" "rv_read_offset s \<le> rv_read_offset s1"
      "rv_ready s1 = rv_ready s @ map src [rv_read_offset s..<rv_read_offset s1]"
      using rv_recv_spec [OF Cons.prems(1), of off data fin] Cons.prems(2)
      by (simp_all add: RecvFrame s1_def Let_def)
    then have "rv_ready s1 = map src [r0..<rv_read_offset s1]"
      using Cons.prems(3,4) map_upt_split [of r0 "rv_read_offset s" "rv_read_offset s1" src] by simp
    then show ?thesis
      using Cons.IH [of s1 r0] 1 Cons.prems by (simp add: RecvFrame s1_def)
  next
    case ReadReady
    have "let (out, s') = recv_run es (s\<lparr>rv_ready := []\<rparr>) in
        rv_read_offset s \<le> rv_read_offset s' \<and> out @ rv_ready s' = map src [rv_read_offset s..<rv_read_offset s']"
      using Cons.IH [of "s\<lparr>rv_ready := []\<rparr>" "rv_read_offset s"] Cons.prems by simp
    then show ?thesis
      using Cons.prems(3,4) map_upt_split [of r0 "rv_read_offset s" "rv_read_offset (snd (recv_run es (s\<lparr>rv_ready := []\<rparr>)))" src]
      by (simp add: ReadReady rv_read_def Let_def case_prod_unfold)
  qed
qed simp

text \<open>Without FIN, one frame and a read are a reassembly step.\<close>

definition stream_step :: "nat \<Rightarrow> bytes \<Rightarrow> RecvStream \<Rightarrow> bytes \<times> RecvStream" where
  "stream_step offset data s =
     (let s = snd (rv_recv offset data False s); r = rv_read s in (fst (fst r), snd r))"

definition stream_inv :: "(nat \<Rightarrow> u8) \<Rightarrow> RecvStream \<Rightarrow> bool" where
  "stream_inv src s \<longleftrightarrow> recv_inv src (rv_read_offset s) (rv_pending s) \<and> rv_ready s = []
     \<and> rv_final_size s = None"

lemma rv_recv_no_fin:
  assumes "rv_final_size s = None"
  shows "rv_final_size (snd (rv_recv off data False s)) = None"
    and "\<exists>b. fst (rv_recv off data False s) = Inr b"
  using assms by (simp_all add: rv_recv_def Let_def size_violated_def)

lemma stream_step_absorb:
  assumes "rv_final_size s = None" and "rv_ready s = []"
  shows "absorb (rv_read_offset s) (rv_pending s) [] off data =
    (rv_read_offset (snd (stream_step off data s)), rv_pending (snd (stream_step off data s)),
     fst (stream_step off data s))"
proof -
  obtain b s' where r: "rv_recv off data False s = (Inr b, s')"
    using rv_recv_no_fin(2) [OF assms(1), of off data] by (metis prod.collapse)
  then show ?thesis
    using rv_recv_absorb [OF r] assms(2) by (simp add: stream_step_def Let_def rv_read_def)
qed

lemma stream_step_spec:
  assumes "stream_inv src s" and "seg_ok src off data"
  shows "stream_inv src (snd (stream_step off data s))
    \<and> rv_read_offset s \<le> rv_read_offset (snd (stream_step off data s))
    \<and> fst (stream_step off data s) =
        map src [rv_read_offset s..<rv_read_offset (snd (stream_step off data s))]"
  using absorb_spec [OF _ assms(2) stream_step_absorb] assms(1) rv_recv_no_fin(1) [of s off data]
  by (simp add: stream_inv_def) (simp add: stream_step_def Let_def rv_read_def)

interpretation app_stream: complete_reassembler stream_step rv_read_offset stream_inv rv_pending
proof unfold_locales
  fix src s off data s'
  assume inv: "stream_inv src s" and ok: "seg_ok src off data"
    and old: "\<And>old. bmap_get off (rv_pending s) = Some old \<Longrightarrow> length old \<le> length data"
    and s': "s' = snd (stream_step off data s)"
  show "{0..<rv_read_offset s'} \<union> covered (rv_pending s') =
        {0..<rv_read_offset s} \<union> covered (rv_pending s) \<union> {off..<off + length data}
      \<and> set (rv_pending s') \<subseteq> insert (off, data) (set (rv_pending s))"
    unfolding s' using inv
    by (intro absorb_complete [OF _ ok stream_step_absorb old]) (simp_all add: stream_inv_def)
qed (use stream_step_spec in \<open>auto simp add: stream_inv_def\<close>)

section \<open>Final size\<close>

lemma rv_recv_final_size:
  assumes "rv_final_size s = Some f"
  shows "rv_recv off data fin s = (Inl FinalSize, s) \<longleftrightarrow>
      off + length data > f \<or> (fin \<and> off + length data \<noteq> f)"
    and "rv_final_size (snd (rv_recv off data fin s)) = Some f"
  using assms by (auto simp add: rv_recv_def Let_def size_violated_def)

text \<open>The end of the stream is only signalled once the read offset has reached it.\<close>

definition fin_inv :: "RecvStream \<Rightarrow> bool" where
  "fin_inv s \<longleftrightarrow>
     (rv_fin_delivered s \<longrightarrow> (case rv_final_size s of Some f \<Rightarrow> f \<le> rv_read_offset s | None \<Rightarrow> False))"

lemma fin_inv_ready [simp]: "fin_inv (s\<lparr>rv_ready := bs\<rparr>) = fin_inv s"
  by (cases "rv_final_size s") (simp_all add: fin_inv_def)

lemma rv_recv_fin_inv:
  assumes "fin_inv s" and "recv_inv src (rv_read_offset s) (rv_pending s)" and "seg_ok src off data"
  shows "fin_inv (snd (rv_recv off data fin s))"
proof (cases "rv_recv off data fin s")
  case (Pair r s')
  show ?thesis
  proof (cases r)
    case (Inl e)
    then show ?thesis using rv_recv_error_keeps [of off data fin s e s'] Pair assms(1) by simp
  next
    case (Inr b)
    have mono: "rv_read_offset s \<le> rv_read_offset s'"
      using rv_recv_spec [OF assms(2,3), of fin] by (simp add: Pair Let_def)
    have keep: "rv_final_size s' = Some f" if "rv_final_size s = Some f" for f
      using rv_recv_final_size(2) [OF that, of off data fin] by (simp add: Pair)
    have "rv_fin_delivered s' \<Longrightarrow>
        rv_fin_delivered s \<or> (\<exists>f. rv_final_size s' = Some f \<and> f \<le> rv_read_offset s')"
      using rv_recv_Inr [of off data fin s b s'] Pair Inr by (auto simp add: note_fin_delivered)
    then show ?thesis
      using assms(1) mono keep by (fastforce simp add: fin_inv_def Pair split: option.splits)
  qed
qed

lemma recv_run_fin_inv:
  assumes "fin_inv s" and "recv_inv src (rv_read_offset s) (rv_pending s)" and "list_all (event_ok src) es"
  shows "fin_inv (snd (recv_run es s))"
  using assms
proof (induction es arbitrary: s)
  case (Cons e es)
  show ?case
  proof (cases e)
    case (RecvFrame off data fin)
    then show ?thesis
      using Cons rv_recv_fin_inv [OF Cons.prems(1,2), of off data fin]
        rv_recv_spec [OF Cons.prems(2), of off data fin] by (simp add: Let_def)
  next
    case ReadReady
    then show ?thesis
      using Cons.IH [of "s\<lparr>rv_ready := []\<rparr>"] Cons.prems by (simp add: ReadReady rv_read_def Let_def)
  qed
qed simp

section \<open>Sending\<close>

text \<open>
  \<open>send_inv w s\<close>: the application has written \<open>w\<close>, the buffer is what has not been
  taken of it, and every segment queued for retransmission is a piece of it; a FIN
  sits at the end.
\<close>

definition piece :: "bytes \<Rightarrow> nat \<Rightarrow> bytes \<Rightarrow> bool" where
  "piece w off data \<longleftrightarrow> off + length data \<le> length w \<and> take (length data) (drop off w) = data"

definition send_inv :: "bytes \<Rightarrow> SendStream \<Rightarrow> bool" where
  "send_inv w s \<longleftrightarrow>
     ss_base s \<le> length w \<and> ss_buf s = drop (ss_base s) w
     \<and> list_all (\<lambda>g. piece w (rg_offset g) (rg_data g)
          \<and> (rg_fin g \<longrightarrow> ss_fin_sent s \<and> rg_offset g + length (rg_data g) = length w)) (ss_resend s)
     \<and> (ss_fin_sent s \<longrightarrow> ss_fin s \<and> ss_buf s = [])"

lemma piece_append: "piece w off data \<Longrightarrow> piece (w @ w') off data"
  by (simp add: piece_def)

lemma piece_nth: "piece w off data \<longleftrightarrow> off + length data \<le> length w \<and> (\<forall>i < length data. data ! i = w ! (off + i))"
  unfolding piece_def by (auto simp add: list_eq_iff_nth_eq)

lemma piece_take: "piece w off data \<Longrightarrow> piece w off (take n data)"
  by (auto simp add: piece_nth min_def)

lemma piece_drop: "piece w off data \<Longrightarrow> n \<le> length data \<Longrightarrow> piece w (off + n) (drop n data)"
  by (simp add: piece_nth add.assoc)

lemma piece_buf: "b \<le> length w \<Longrightarrow> piece w b (take n (drop b w))"
  by (auto simp add: piece_nth min_def)

lemma piece_empty [simp]: "piece w off [] \<longleftrightarrow> off \<le> length w"
  by (simp add: piece_def)

definition agrees :: "bytes \<Rightarrow> (nat \<Rightarrow> u8) \<Rightarrow> bool" where
  "agrees w src \<longleftrightarrow> (\<forall>i < length w. src i = w ! i)"

lemma agrees_append: "agrees (w @ w') src \<Longrightarrow> agrees w src"
  unfolding agrees_def by (metis nth_append length_append trans_less_add1)

lemma piece_seg_ok: "piece w off data \<Longrightarrow> agrees w src \<Longrightarrow> seg_ok src off data"
  unfolding seg_ok_def by (rule nth_equalityI) (simp_all add: piece_nth agrees_def)

lemma ss_write_inv:
  assumes "send_inv w s" and "\<not> ss_fin s"
  shows "send_inv (w @ data) (ss_write data fin s)"
  using assms by (auto simp add: send_inv_def ss_write_def Let_def list_all_iff piece_append)

lemma ss_requeue_inv:
  assumes "send_inv w s" and "piece w off data"
    and "fin \<Longrightarrow> ss_fin_sent s \<and> off + length data = length w"
  shows "send_inv w (ss_requeue off data fin s)"
  using assms by (auto simp add: send_inv_def ss_requeue_def)

lemma ss_take_cases:
  assumes "ss_take n s = (Some (off, data, fin), s')"
  obtains (whole) g gs where "ss_resend s = g # gs" "length (rg_data g) \<le> n"
      "off = rg_offset g" "data = rg_data g" "fin = rg_fin g" "s' = s\<lparr>ss_resend := gs\<rparr>"
  | (split) g gs where "ss_resend s = g # gs" "n < length (rg_data g)" "0 < n"
      "off = rg_offset g" "data = take n (rg_data g)" "\<not> fin"
      "s' = s\<lparr>ss_resend := g\<lparr>rg_data := drop n (rg_data g), rg_offset := rg_offset g + n\<rparr> # gs\<rparr>"
  | (pure_fin) "ss_resend s = []" "ss_buf s = []" "ss_fin s" "\<not> ss_fin_sent s"
      "off = ss_base s" "data = []" "fin" "s' = s\<lparr>ss_fin_sent := True\<rparr>"
  | (fresh) "ss_resend s = []" "ss_buf s \<noteq> []" "0 < n" "off = ss_base s" "data = take n (ss_buf s)"
      "fin = (ss_fin s \<and> drop n (ss_buf s) = [])"
      "s' = s\<lparr>ss_buf := drop n (ss_buf s), ss_base := ss_base s + length data,
              ss_fin_sent := (fin \<or> ss_fin_sent s)\<rparr>"
proof -
  have nz: "ss_reset_code s = None" using assms by (cases "ss_reset_code s") (simp_all add: ss_take_def)
  show thesis
  proof (cases "ss_resend s")
    case (Cons g gs)
    then show thesis using assms nz whole split
      by (auto simp add: ss_take_def split: if_splits)
  next
    case Nil
    show thesis
    proof (cases "ss_buf s = []")
      case True
      then show thesis using assms nz Nil pure_fin by (auto simp add: ss_take_def split: if_splits)
    next
      case False
      show thesis
        by (rule fresh) (use assms nz Nil False in \<open>auto simp add: ss_take_def Let_def min_def split: if_splits\<close>)
    qed
  qed
qed

lemma ss_take_inv:
  assumes "send_inv w s" and "ss_take n s = (Some (off, data, fin), s')"
  shows "send_inv w s' \<and> piece w off data \<and> ss_fin s' = ss_fin s
    \<and> (fin \<longrightarrow> ss_fin_sent s' \<and> off + length data = length w)
    \<and> (ss_fin_sent s \<longrightarrow> ss_fin_sent s')"
  using assms(2)
proof (cases rule: ss_take_cases)
  case (whole g gs)
  then show ?thesis using assms(1) by (auto simp add: send_inv_def)
next
  case (split g gs)
  then show ?thesis using assms(1) piece_drop [of w "rg_offset g" "rg_data g" n]
    by (auto simp add: send_inv_def piece_take)
next
  case pure_fin
  then show ?thesis using assms(1) by (auto simp add: send_inv_def)
next
  case fresh
  define b where "b = ss_base s"
  have w: "b \<le> length w" "ss_buf s = drop b w" "ss_fin_sent s \<Longrightarrow> ss_buf s = []"
    using assms(1) unfolding send_inv_def b_def by metis+
  have e: "length data = min n (length w - b)" "drop n (ss_buf s) = drop (b + length data) w"
    "ss_fin s' = ss_fin s"
    using fresh w by (simp_all add: min_def add.commute)
  have f: "fin \<Longrightarrow> b + length data = length w"
    using fresh(6) w(1) e(1,2) by (auto simp add: min_def split: if_splits)
  have "send_inv w s'"
    using assms(1) fresh(1,2,6) e w f unfolding send_inv_def fresh(7) b_def [symmetric] by simp
  then show ?thesis
    using fresh w f piece_buf [OF w(1), of n] by (simp add: b_def)
qed

section \<open>A FIN below data already received\<close>

text \<open>
  The check of the final size compares a frame only with an earlier FIN, not with the
  data already received: a FIN that ends before delivered bytes is accepted.
\<close>

lemma fin_below_received_data_accepted:
  "let s = snd (rv_recv 0 [1, 2, 3] False RecvStream_new); r = rv_recv 0 [1] True s in
     is_ok (fst r) \<and> rv_final_size (snd r) = Some 1 \<and> rv_read_offset (snd r) = 3
     \<and> fst (rv_read (snd r)) = ([1, 2, 3], True)"
  by (simp add: rv_recv_def size_violated_def RecvStream_new_def rv_store_def trim_delivered_def Let_def
      flush_contiguous_def drain_contiguous.simps bmap_last_le_def bmap_remove_def note_fin_def rv_read_def)

end
