(* ===== verification/Stream_Transfer.thy ===== *)
theory Stream_Transfer
  imports Streams
begin

text \<open>
  One stream end to end: the send half of \<^verbatim>\<open>stream.rs\<close> at one endpoint, the receive half
  at the other, and between them a network that may lose, duplicate and reorder the
  STREAM frames.  A lost frame comes back to the sender through \<^verbatim>\<open>requeue\<close>, as
  \<^verbatim>\<open>connection/recovery.rs\<close> does for the frames of a lost packet.
\<close>

record Transfer =
  tr_send :: SendStream
  tr_net :: "(u64 \<times> bytes \<times> bool) list"
  tr_recv :: RecvStream
  tr_written :: bytes
  tr_read :: bytes

definition transfer_init :: Transfer where
  "transfer_init = \<lparr>tr_send = SendStream_new, tr_net = [], tr_recv = RecvStream_new,
     tr_written = [], tr_read = []\<rparr>"

text \<open>
  \<open>tr_net\<close> collects every frame ever emitted; delivering or losing one leaves it there, so
  that it can be delivered again.  The application writes nothing after its FIN.
\<close>

inductive transfer_step :: "Transfer \<Rightarrow> Transfer \<Rightarrow> bool" where
  app_write: "\<not> ss_fin (tr_send t) \<Longrightarrow>
    transfer_step t (t\<lparr>tr_send := ss_write data fin (tr_send t), tr_written := tr_written t @ data\<rparr>)"
| emit: "ss_take n (tr_send t) = (Some f, s') \<Longrightarrow>
    transfer_step t (t\<lparr>tr_send := s', tr_net := f # tr_net t\<rparr>)"
| lose: "(off, data, fin) \<in> set (tr_net t) \<Longrightarrow>
    transfer_step t (t\<lparr>tr_send := ss_requeue off data fin (tr_send t)\<rparr>)"
| deliver: "(off, data, fin) \<in> set (tr_net t) \<Longrightarrow>
    transfer_step t (t\<lparr>tr_recv := snd (rv_recv off data fin (tr_recv t))\<rparr>)"
| app_read: "rv_read (tr_recv t) = ((bs, fin), r') \<Longrightarrow>
    transfer_step t (t\<lparr>tr_recv := r', tr_read := tr_read t @ bs\<rparr>)"

definition frame_on_wire :: "bytes \<Rightarrow> SendStream \<Rightarrow> u64 \<times> bytes \<times> bool \<Rightarrow> bool" where
  "frame_on_wire w s f \<longleftrightarrow>
     (case f of (off, data, fin) \<Rightarrow>
        piece w off data \<and> (fin \<longrightarrow> ss_fin_sent s \<and> off + length data = length w))"

definition received_ok :: "bytes \<Rightarrow> SendStream \<Rightarrow> bytes \<Rightarrow> RecvStream \<Rightarrow> bool" where
  "received_ok w s out r \<longleftrightarrow>
     (\<forall>src. agrees w src \<longrightarrow> recv_inv src (rv_read_offset r) (rv_pending r)
        \<and> out @ rv_ready r = map src [0..<rv_read_offset r])
     \<and> fin_inv r
     \<and> (\<forall>f. rv_final_size r = Some f \<longrightarrow> f = length w \<and> ss_fin_sent s)"

definition transfer_inv :: "Transfer \<Rightarrow> bool" where
  "transfer_inv t \<longleftrightarrow>
     send_inv (tr_written t) (tr_send t)
     \<and> list_all (frame_on_wire (tr_written t) (tr_send t)) (tr_net t)
     \<and> received_ok (tr_written t) (tr_send t) (tr_read t) (tr_recv t)"

lemma transfer_inv_init: "transfer_inv transfer_init"
  by (simp add: transfer_inv_def transfer_init_def send_inv_def SendStream_new_def RecvStream_new_def
      received_ok_def recv_inv_def pending_ok_def fin_inv_def)

lemma ss_write_fin_sent [simp]: "ss_fin_sent (ss_write data fin s) = ss_fin_sent s"
  by (simp add: ss_write_def Let_def)

lemma ss_requeue_frame [simp]:
  "ss_fin_sent (ss_requeue off data fin s) = ss_fin_sent s"
  "ss_fin (ss_requeue off data fin s) = ss_fin s"
  by (simp_all add: ss_requeue_def)

lemma frame_on_wire_write:
  "frame_on_wire w s f \<Longrightarrow> \<not> ss_fin_sent s \<Longrightarrow> frame_on_wire (w @ data) (ss_write data fin s) f"
  by (auto simp add: frame_on_wire_def piece_append)

lemma frame_on_wire_mono:
  "frame_on_wire w s f \<Longrightarrow> (ss_fin_sent s \<Longrightarrow> ss_fin_sent s') \<Longrightarrow> frame_on_wire w s' f"
  by (auto simp add: frame_on_wire_def)

lemma received_ok_write:
  "received_ok w s out r \<Longrightarrow> \<not> ss_fin_sent s \<Longrightarrow> received_ok (w @ data) (ss_write data fin s) out r"
  unfolding received_ok_def using agrees_append by fastforce

lemma received_ok_mono:
  "received_ok w s out r \<Longrightarrow> (ss_fin_sent s \<Longrightarrow> ss_fin_sent s') \<Longrightarrow> received_ok w s' out r"
  unfolding received_ok_def by blast

lemma received_ok_deliver:
  assumes ok: "received_ok w s out r" and f: "frame_on_wire w s (off, data, fin)"
  shows "received_ok w s out (snd (rv_recv off data fin r))"
proof -
  let ?r = "snd (rv_recv off data fin r)"
  have src0: "agrees w (\<lambda>i. w ! i)" by (simp add: agrees_def)
  have seg: "seg_ok src off data" if "agrees w src" for src
    using piece_seg_ok [OF _ that] f by (simp add: frame_on_wire_def)
  have data: "recv_inv src (rv_read_offset ?r) (rv_pending ?r)
      \<and> out @ rv_ready ?r = map src [0..<rv_read_offset ?r]" if "agrees w src" for src
  proof -
    have *: "recv_inv src (rv_read_offset r) (rv_pending r)"
      "out @ rv_ready r = map src [0..<rv_read_offset r]"
      using ok that by (simp_all add: received_ok_def)
    show ?thesis
      using rv_recv_spec [OF *(1) seg [OF that], of fin] *(2)
        map_upt_split [of 0 "rv_read_offset r" "rv_read_offset ?r" src]
      by (simp add: Let_def flip: *(2))
  qed
  have "fin_inv ?r"
    using ok src0 seg [OF src0] by (intro rv_recv_fin_inv) (auto simp add: received_ok_def)
  moreover have "f = length w \<and> ss_fin_sent s" if "rv_final_size ?r = Some f" for f
    using that ok assms(2)
    by (cases "rv_recv off data fin r")
      (auto simp add: received_ok_def frame_on_wire_def rv_recv_def Let_def split: if_splits)
  ultimately show ?thesis using data by (simp add: received_ok_def)
qed

lemma received_ok_read:
  assumes "received_ok w s out r" and "rv_read r = ((bs, fin), r')"
  shows "received_ok w s (out @ bs) r'"
  using assms by (auto simp add: received_ok_def rv_read_def)

lemma transfer_step_inv:
  assumes "transfer_step t t'" and "transfer_inv t"
  shows "transfer_inv t'"
  using assms
proof cases
  case (app_write data fin)
  then have "\<not> ss_fin_sent (tr_send t)" using assms(2) by (auto simp add: transfer_inv_def send_inv_def)
  then show ?thesis
    using app_write assms(2) ss_write_inv
    by (auto simp add: transfer_inv_def list_all_iff frame_on_wire_write received_ok_write)
next
  case (emit n f s')
  obtain off data fin where f: "f = (off, data, fin)" by (metis prod_cases3)
  have inv: "send_inv (tr_written t) s'" "frame_on_wire (tr_written t) s' f"
    and keep: "ss_fin_sent (tr_send t) \<Longrightarrow> ss_fin_sent s'"
    using ss_take_inv [of "tr_written t" "tr_send t" n off data fin s'] emit(2) assms(2)
    by (auto simp add: transfer_inv_def frame_on_wire_def f)
  then show ?thesis
    using emit(1) assms(2) frame_on_wire_mono [OF _ keep] received_ok_mono [OF _ keep]
    by (auto simp add: transfer_inv_def list_all_iff)
next
  case (lose off data fin)
  then have "frame_on_wire (tr_written t) (tr_send t) (off, data, fin)"
    using assms(2) by (auto simp add: transfer_inv_def list_all_iff)
  then have "send_inv (tr_written t) (ss_requeue off data fin (tr_send t))"
    using assms(2) by (intro ss_requeue_inv) (auto simp add: transfer_inv_def frame_on_wire_def)
  then show ?thesis
    using lose(1) assms(2) by (auto simp add: transfer_inv_def list_all_iff
      intro: frame_on_wire_mono received_ok_mono)
next
  case (deliver off data fin)
  then have "frame_on_wire (tr_written t) (tr_send t) (off, data, fin)"
    using assms(2) by (auto simp add: transfer_inv_def list_all_iff)
  then show ?thesis
    using deliver(1) assms(2) by (simp add: transfer_inv_def received_ok_deliver)
next
  case (app_read bs fin r')
  then show ?thesis
    using assms(2) received_ok_read by (auto simp add: transfer_inv_def)
qed

lemma transfer_reach_inv: "transfer_step\<^sup>*\<^sup>* transfer_init t \<Longrightarrow> transfer_inv t"
  by (induction rule: rtranclp_induct) (auto intro: transfer_inv_init transfer_step_inv)

text \<open>Bytes the sender never wrote cannot be claimed: the delivered prefix is the same
  for every continuation of the written bytes.\<close>

lemma received_prefix:
  assumes "received_ok w s out r"
  shows "rv_read_offset r \<le> length w \<and> out @ rv_ready r = take (rv_read_offset r) w"
proof -
  define src where "src b i = (if i < length w then w ! i else b)" for b i
  have eq: "out @ rv_ready r = map (src b) [0..<rv_read_offset r]" for b
    using assms by (simp add: received_ok_def agrees_def src_def)
  have le: "rv_read_offset r \<le> length w"
  proof (rule ccontr)
    assume "\<not> rv_read_offset r \<le> length w"
    then have i: "length w < rv_read_offset r" by simp
    have "map (src 0) [0..<rv_read_offset r] ! length w = map (src 1) [0..<rv_read_offset r] ! length w"
      using eq [of 0] eq [of 1] by metis
    then show False using i by (simp add: src_def)
  qed
  then have "map (src 0) [0..<rv_read_offset r] = take (rv_read_offset r) w"
    by (intro nth_equalityI) (simp_all add: src_def)
  then show ?thesis using le eq [of 0] by simp
qed

text \<open>A two-byte message with FIN, sent in one frame, delivered, and then read.\<close>

definition example_sent :: Transfer where
  "example_sent =
     \<lparr>tr_send = snd (ss_take 10 (ss_write [1, 2] True SendStream_new)), tr_net = [(0, [1, 2], True)],
      tr_recv = RecvStream_new, tr_written = [1, 2], tr_read = []\<rparr>"

definition example_delivered :: Transfer where
  "example_delivered = example_sent\<lparr>tr_recv := snd (rv_recv 0 [1, 2] True RecvStream_new)\<rparr>"

lemma example_recv:
  "rv_recv 0 [1, 2] True RecvStream_new =
     (Inr True, \<lparr>rv_read_offset = 2, rv_pending = [], rv_ready = [1, 2], rv_final_size = Some 2,
       rv_fin_delivered = True, rv_reset_code = None\<rparr>)"
  by (simp add: rv_recv_def size_violated_def RecvStream_new_def rv_store_def trim_delivered_def
      flush_contiguous_def drain_contiguous.simps bmap_last_le_def bmap_remove_def note_fin_def)

lemma example_reach: "transfer_step\<^sup>*\<^sup>* transfer_init example_delivered"
proof -
  let ?t1 = "transfer_init\<lparr>tr_send := ss_write [1, 2] True SendStream_new, tr_written := [1, 2]\<rparr>"
  have "transfer_step transfer_init ?t1"
    using app_write [of transfer_init "[1, 2]" True] by (simp add: transfer_init_def SendStream_new_def)
  moreover have "transfer_step ?t1 example_sent"
    using emit [of 10 ?t1 "(0, [1, 2], True)" "snd (ss_take 10 (ss_write [1, 2] True SendStream_new))"]
    by (simp add: transfer_init_def example_sent_def ss_take_def ss_write_def SendStream_new_def Let_def)
  moreover have "transfer_step example_sent example_delivered"
    using deliver [of 0 "[1, 2]" True example_sent] by (simp add: example_delivered_def example_sent_def)
  ultimately show ?thesis by (metis converse_rtranclp_into_rtranclp rtranclp.rtrancl_refl)
qed

lemma example_reach_read:
  "transfer_step\<^sup>*\<^sup>* transfer_init
     (example_delivered\<lparr>tr_recv := (tr_recv example_delivered)\<lparr>rv_ready := []\<rparr>, tr_read := [1, 2]\<rparr>)"
  using example_reach app_read [of example_delivered "[1, 2]" True]
  by (auto simp add: example_delivered_def example_recv rv_read_def example_sent_def
      intro: rtranclp.rtrancl_into_rtrancl)

text \<open>
  C1: whatever the interleaving of writes, packetisation, losses, retransmissions,
  duplicate and reordered deliveries and reads, the application at the receiver has
  read a prefix of what the application at the sender has written.
\<close>

theorem transfer_prefix:
  assumes "transfer_step\<^sup>*\<^sup>* transfer_init t"
  shows "\<exists>rest. tr_written t = tr_read t @ rest"
proof -
  have "tr_read t @ rv_ready (tr_recv t) = take (rv_read_offset (tr_recv t)) (tr_written t)"
    using transfer_reach_inv [OF assms] received_prefix unfolding transfer_inv_def by blast
  then have "tr_written t = tr_read t @ (rv_ready (tr_recv t) @ drop (rv_read_offset (tr_recv t)) (tr_written t))"
    by (metis append_assoc append_take_drop_id)
  then show ?thesis by blast
qed

theorem transfer_prefix_witness:
  "\<exists>rest. [1, 2] = tr_read (example_delivered\<lparr>tr_recv := (tr_recv example_delivered)\<lparr>rv_ready := []\<rparr>, tr_read := [1, 2]\<rparr>) @ rest"
  using transfer_prefix [OF example_reach_read] by (simp add: example_delivered_def example_sent_def)



section \<open>Progress\<close>

text \<open>Taking frames until the stream has nothing to send.  The measure counts the bytes,
  the queued segments and the outstanding FIN.\<close>

definition send_left :: "SendStream \<Rightarrow> nat" where
  "send_left s = sum_list (map (\<lambda>g. Suc (length (rg_data g))) (ss_resend s)) + length (ss_buf s)
     + (if ss_fin s \<and> \<not> ss_fin_sent s then 1 else 0)"

lemma ss_take_decreases:
  assumes "ss_take n s = (Some f, s')"
  shows "send_left s' < send_left s"
proof -
  obtain off data fin where f: "f = (off, data, fin)" by (metis prod_cases3)
  from assms [unfolded f] show ?thesis
    by (cases rule: ss_take_cases) (auto simp add: send_left_def)
qed

function send_all :: "nat \<Rightarrow> SendStream \<Rightarrow> (u64 \<times> bytes \<times> bool) list \<times> SendStream" where
  "send_all n s =
     (case ss_take n s of
        (None, s') \<Rightarrow> ([], s')
      | (Some f, s') \<Rightarrow> let (fs, s'') = send_all n s' in (f # fs, s''))"
  by pat_completeness auto
termination
  by (relation "measure (\<lambda>(_, s). send_left s)") (auto intro: ss_take_decreases [OF sym])

declare send_all.simps [simp del]

lemma ss_take_None:
  assumes "ss_take n s = (None, s')" and "0 < n"
  shows "s' = s \<and> \<not> ss_has_pending s"
  using assms by (auto simp add: ss_take_def ss_has_pending_def Let_def min_def split: if_splits list.splits)

text \<open>A frame that starts at the read offset of a receiver with nothing buffered is
  delivered at once.\<close>

lemma drain_single:
  assumes "data \<noteq> []"
  shows "drain_contiguous off [(off, data)] acc = (off + length data, [], acc @ data)"
  using assms
  by (simp add: drain_contiguous.simps [of off] drain_contiguous.simps [of "off + length data"]
      bmap_last_le_def bmap_remove_def)

lemma rv_store_in_order:
  assumes "rv_pending s = []"
  shows "rv_store (rv_read_offset s) data s =
    s\<lparr>rv_read_offset := rv_read_offset s + length data, rv_ready := rv_ready s @ data\<rparr>"
  using assms by (cases "data = []")
    (simp_all add: rv_store_def trim_delivered_def flush_contiguous_def drain_single)

definition in_step :: "bytes \<Rightarrow> SendStream \<Rightarrow> RecvStream \<Rightarrow> bool" where
  "in_step w s r \<longleftrightarrow>
     send_inv w s \<and> ss_resend s = [] \<and> ss_fin s \<and> ss_reset_code s = None
     \<and> rv_pending r = [] \<and> rv_read_offset r = ss_base s \<and> rv_ready r = take (ss_base s) w
     \<and> rv_final_size r = (if ss_fin_sent s then Some (length w) else None)
     \<and> rv_fin_delivered r = ss_fin_sent s"

lemma in_step_take:
  assumes "in_step w s r" and "ss_take n s = (Some (off, data, fin), s')"
  shows "in_step w s' (snd (rv_recv off data fin r))"
proof -
  have inv: "send_inv w s" and r: "rv_pending r = []" "rv_read_offset r = ss_base s"
    using assms(1) by (simp_all add: in_step_def)
  have inv': "send_inv w s'" and fin: "fin \<Longrightarrow> off + length data = length w"
    using ss_take_inv [OF inv assms(2)] by auto
  from assms(2) show ?thesis
  proof (cases rule: ss_take_cases)
    case pure_fin
    then show ?thesis
      using assms(1) inv' fin rv_store_in_order [of "r\<lparr>rv_final_size := Some (ss_base s)\<rparr>" "[]"] r
      by (auto simp add: in_step_def rv_recv_def Let_def size_violated_def note_fin_def)
  next
    case fresh
    have b: "ss_base s \<le> length w" "ss_buf s = drop (ss_base s) w" "\<not> ss_fin_sent s"
      using inv fresh(2) by (auto simp add: send_inv_def)
    have "take (ss_base s) w @ data = take (ss_base s + length data) w"
      using b(1) by (simp add: fresh(5) b(2) take_add min_def)
    then show ?thesis
      using assms(1) inv' fresh fin b r
        rv_store_in_order [of "r\<lparr>rv_final_size := Some (ss_base s + length data)\<rparr>" data]
        rv_store_in_order [of r data]
      by (auto simp add: in_step_def rv_recv_def Let_def size_violated_def note_fin_def)
  qed (use assms(1) in \<open>auto simp add: in_step_def\<close>)
qed

definition deliver_all :: "(u64 \<times> bytes \<times> bool) list \<Rightarrow> RecvStream \<Rightarrow> RecvStream" where
  "deliver_all fs r = fold (\<lambda>(off, data, fin) r. snd (rv_recv off data fin r)) fs r"

lemma in_step_send_all:
  assumes "in_step w s r" and "0 < n"
  shows "in_step w (snd (send_all n s)) (deliver_all (fst (send_all n s)) r)
    \<and> \<not> ss_has_pending (snd (send_all n s))"
  using assms
proof (induction n s arbitrary: r rule: send_all.induct)
  case (1 n s)
  show ?case
  proof (cases "ss_take n s")
    case (Pair o' s')
    show ?thesis
    proof (cases o')
      case None
      then have "send_all n s = ([], s)" "\<not> ss_has_pending s"
        using Pair ss_take_None [of n s s'] "1.prems"(2) by (simp_all add: send_all.simps [of n s])
      then show ?thesis using "1.prems"(1) by (simp add: deliver_all_def)
    next
      case (Some f)
      obtain off data fin where f: "f = (off, data, fin)" by (metis prod_cases3)
      have "in_step w s' (snd (rv_recv off data fin r))"
        using in_step_take "1.prems"(1) Pair Some f by blast
      then show ?thesis
        using "1.IH" [OF Pair [symmetric] Some, of "snd (rv_recv off data fin r)"] "1.prems"(2)
        by (simp add: send_all.simps [of n s] Pair Some f deliver_all_def case_prod_unfold Let_def)
    qed
  qed
qed

text \<open>
  C3: on a loss-free path the transfer completes: cutting a finished message into frames
  of any positive size until nothing is pending (which always terminates) and delivering
  them in order lets one read return the whole message with the end of the stream.
\<close>

theorem lossless_transfer_completes:
  assumes "0 < n"
  shows "fst (rv_read (deliver_all (fst (send_all n (ss_write w True SendStream_new))) RecvStream_new)) = (w, True)"
proof -
  let ?s = "ss_write w True SendStream_new"
  have "in_step w ?s RecvStream_new"
    by (simp add: in_step_def send_inv_def ss_write_def SendStream_new_def RecvStream_new_def)
  from in_step_send_all [OF this assms]
  have i: "in_step w (snd (send_all n ?s)) (deliver_all (fst (send_all n ?s)) RecvStream_new)"
    and "\<not> ss_has_pending (snd (send_all n ?s))" by simp_all
  then have "ss_buf (snd (send_all n ?s)) = []" "ss_fin_sent (snd (send_all n ?s))"
    by (simp_all add: in_step_def ss_has_pending_def)
  then show ?thesis using i by (simp add: in_step_def send_inv_def rv_read_def)
qed

theorem lossless_transfer_completes_witness:
  "fst (rv_read (deliver_all (fst (send_all 2 (ss_write [1, 2, 3] True SendStream_new))) RecvStream_new))
     = ([1, 2, 3], True)"
  by (rule lossless_transfer_completes) simp

end
