(* ===== verification/Flow_Control.thy ===== *)
theory Flow_Control
  imports Prelude
begin

text \<open>
  \<^verbatim>\<open>oxiquic-transport/src/flow_control.rs\<close>: connection- and stream-level credit in both
  directions.
\<close>

section \<open>Sending\<close>

record SendFlowControl =
  sfc_max_data :: u64
  sfc_data_sent :: u64
  sfc_blocked_at :: "u64 option"

definition SendFlowControl_new :: "u64 \<Rightarrow> SendFlowControl" where
  "SendFlowControl_new initial_max_data =
     \<lparr>sfc_max_data = initial_max_data, sfc_data_sent = 0, sfc_blocked_at = None\<rparr>"

definition on_max_data :: "u64 \<Rightarrow> SendFlowControl \<Rightarrow> SendFlowControl" where
  "on_max_data m f =
     (if m > sfc_max_data f then f\<lparr>sfc_max_data := m, sfc_blocked_at := None\<rparr> else f)"

definition sfc_available :: "SendFlowControl \<Rightarrow> u64" where
  "sfc_available f = sfc_max_data f - sfc_data_sent f"

definition sfc_on_data_sent :: "u64 \<Rightarrow> SendFlowControl \<Rightarrow> SendFlowControl" where
  "sfc_on_data_sent n f = f\<lparr>sfc_data_sent := sfc_data_sent f + n\<rparr>"

definition sfc_is_blocked :: "SendFlowControl \<Rightarrow> bool" where
  "sfc_is_blocked f = (sfc_data_sent f \<ge> sfc_max_data f)"

definition sfc_take_blocked :: "SendFlowControl \<Rightarrow> u64 option \<times> SendFlowControl" where
  "sfc_take_blocked f =
     (if sfc_is_blocked f \<and> sfc_blocked_at f \<noteq> Some (sfc_max_data f)
      then (Some (sfc_max_data f), f\<lparr>sfc_blocked_at := Some (sfc_max_data f)\<rparr>)
      else (None, f))"

record StreamSendFlow =
  ssf_max_stream_data :: u64
  ssf_data_sent :: u64
  ssf_blocked_at :: "u64 option"

definition StreamSendFlow_new :: "u64 \<Rightarrow> StreamSendFlow" where
  "StreamSendFlow_new initial =
     \<lparr>ssf_max_stream_data = initial, ssf_data_sent = 0, ssf_blocked_at = None\<rparr>"

definition on_max_stream_data :: "u64 \<Rightarrow> StreamSendFlow \<Rightarrow> StreamSendFlow" where
  "on_max_stream_data m f =
     (if m > ssf_max_stream_data f then f\<lparr>ssf_max_stream_data := m, ssf_blocked_at := None\<rparr> else f)"

definition ssf_available :: "StreamSendFlow \<Rightarrow> u64" where
  "ssf_available f = ssf_max_stream_data f - ssf_data_sent f"

definition record_high_offset :: "u64 \<Rightarrow> StreamSendFlow \<Rightarrow> u64 \<times> StreamSendFlow" where
  "record_high_offset high_offset f =
     (if high_offset > ssf_data_sent f
      then (high_offset - ssf_data_sent f, f\<lparr>ssf_data_sent := high_offset\<rparr>)
      else (0, f))"

definition ssf_is_blocked :: "StreamSendFlow \<Rightarrow> bool" where
  "ssf_is_blocked f = (ssf_data_sent f \<ge> ssf_max_stream_data f)"

definition ssf_take_blocked :: "StreamSendFlow \<Rightarrow> u64 option \<times> StreamSendFlow" where
  "ssf_take_blocked f =
     (if ssf_is_blocked f \<and> ssf_blocked_at f \<noteq> Some (ssf_max_stream_data f)
      then (Some (ssf_max_stream_data f), f\<lparr>ssf_blocked_at := Some (ssf_max_stream_data f)\<rparr>)
      else (None, f))"

section \<open>Receiving\<close>

record RecvFlowControl =
  rfc_max_data :: u64
  rfc_window :: u64
  rfc_consumed :: u64

definition RecvFlowControl_new :: "u64 \<Rightarrow> RecvFlowControl" where
  "RecvFlowControl_new window = \<lparr>rfc_max_data = window, rfc_window = window, rfc_consumed = 0\<rparr>"

definition rfc_on_data_consumed :: "u64 \<Rightarrow> RecvFlowControl \<Rightarrow> RecvFlowControl" where
  "rfc_on_data_consumed n f = f\<lparr>rfc_consumed := rfc_consumed f + n\<rparr>"

definition rfc_maybe_update :: "RecvFlowControl \<Rightarrow> u64 option \<times> RecvFlowControl" where
  "rfc_maybe_update f =
     (let desired = rfc_consumed f + rfc_window f in
      if desired > rfc_max_data f \<and> rfc_max_data f - rfc_consumed f < rfc_window f div 2
      then (Some desired, f\<lparr>rfc_max_data := desired\<rparr>)
      else (None, f))"

record StreamRecvFlow =
  srf_max_stream_data :: u64
  srf_window :: u64
  srf_consumed :: u64

definition StreamRecvFlow_new :: "u64 \<Rightarrow> StreamRecvFlow" where
  "StreamRecvFlow_new window =
     \<lparr>srf_max_stream_data = window, srf_window = window, srf_consumed = 0\<rparr>"

definition srf_on_data_consumed :: "u64 \<Rightarrow> StreamRecvFlow \<Rightarrow> StreamRecvFlow" where
  "srf_on_data_consumed n f = f\<lparr>srf_consumed := srf_consumed f + n\<rparr>"

definition srf_maybe_update :: "StreamRecvFlow \<Rightarrow> u64 option \<times> StreamRecvFlow" where
  "srf_maybe_update f =
     (let desired = srf_consumed f + srf_window f in
      if desired > srf_max_stream_data f
         \<and> srf_max_stream_data f - srf_consumed f < srf_window f div 2
      then (Some desired, f\<lparr>srf_max_stream_data := desired\<rparr>)
      else (None, f))"

section \<open>Credit granted by the peer\<close>

text \<open>
  What a sender does to a credit account: the peer raises the limit, the sender spends up
  to the credit left, and reports being blocked.  \<open>credit_run\<close> collects the limits reported.
\<close>

datatype CreditEvent = Raise nat | Spend nat | Report

fun credit_run ::
    "(nat \<Rightarrow> 'f \<Rightarrow> 'f) \<Rightarrow> (nat \<Rightarrow> 'f \<Rightarrow> 'f) \<Rightarrow> ('f \<Rightarrow> nat) \<Rightarrow> ('f \<Rightarrow> nat option \<times> 'f)
      \<Rightarrow> CreditEvent list \<Rightarrow> 'f \<Rightarrow> nat list \<times> 'f" where
  "credit_run raise spend credit report [] f = ([], f)"
| "credit_run raise spend credit report (Raise m # es) f =
     credit_run raise spend credit report es (raise m f)"
| "credit_run raise spend credit report (Spend n # es) f =
     credit_run raise spend credit report es (spend (min n (credit f)) f)"
| "credit_run raise spend credit report (Report # es) f =
     (let (r, f) = report f;
          (rs, f) = credit_run raise spend credit report es f
      in ((case r of Some l \<Rightarrow> [l] | None \<Rightarrow> []) @ rs, f))"

locale credit_account =
  fixes limit :: "'f \<Rightarrow> nat" and spent :: "'f \<Rightarrow> nat" and reported :: "'f \<Rightarrow> nat option"
    and raise :: "nat \<Rightarrow> 'f \<Rightarrow> 'f" and spend :: "nat \<Rightarrow> 'f \<Rightarrow> 'f" and credit :: "'f \<Rightarrow> nat"
    and report :: "'f \<Rightarrow> nat option \<times> 'f"
  assumes raise_limit: "limit (raise m f) = max m (limit f)"
    and raise_spent: "spent (raise m f) = spent f"
    and raise_reported: "reported (raise m f) = (if limit f < m then None else reported f)"
    and spend_limit: "limit (spend n f) = limit f"
    and spend_spent: "spent (spend n f) = spent f + n"
    and spend_reported: "reported (spend n f) = reported f"
    and credit_left: "credit f = limit f - spent f"
    and report_limit: "limit (snd (report f)) = limit f"
    and report_spent: "spent (snd (report f)) = spent f"
    and report_result: "fst (report f) =
      (if limit f \<le> spent f \<and> reported f \<noteq> Some (limit f) then Some (limit f) else None)"
    and report_reported: "reported (snd (report f)) =
      (case fst (report f) of Some l \<Rightarrow> Some l | None \<Rightarrow> reported f)"
begin

abbreviation run :: "CreditEvent list \<Rightarrow> 'f \<Rightarrow> nat list \<times> 'f" where
  "run \<equiv> credit_run raise spend credit report"

lemma run_within_limit:
  "spent f \<le> limit f \<Longrightarrow> spent (snd (run es f)) \<le> limit (snd (run es f))"
proof (induction es arbitrary: f)
  case (Cons e es)
  show ?case
  proof (cases e)
    case (Raise m)
    have "spent (raise m f) \<le> limit (raise m f)"
      using Cons.prems by (simp add: raise_limit raise_spent)
    from Cons.IH [OF this] show ?thesis by (simp add: Raise)
  next
    case (Spend n)
    have "spent (spend (min n (credit f)) f) \<le> limit (spend (min n (credit f)) f)"
      using Cons.prems by (simp add: spend_limit spend_spent credit_left)
    from Cons.IH [OF this] show ?thesis by (simp add: Spend)
  next
    case Report
    have "spent (snd (report f)) \<le> limit (snd (report f))"
      using Cons.prems by (simp add: report_limit report_spent)
    from Cons.IH [OF this] show ?thesis by (simp add: Report case_prod_unfold Let_def)
  qed
qed simp

text \<open>A limit once reported is not reported again, and later reports are larger.\<close>

lemma run_reports:
  assumes "reported f = None \<or> reported f = Some (limit f)"
  shows "sorted_wrt (<) (fst (run es f)) \<and> list_all (\<lambda>l. limit f \<le> l) (fst (run es f))
    \<and> (reported f = Some (limit f) \<longrightarrow> limit f \<notin> set (fst (run es f)))"
  using assms
proof (induction es arbitrary: f)
  case Nil
  show ?case by simp
next
  case (Cons e es)
  show ?case
  proof (cases e)
    case (Raise m)
    have "reported (raise m f) = None \<or> reported (raise m f) = Some (limit (raise m f))"
      using Cons.prems by (auto simp add: raise_reported raise_limit)
    from Cons.IH [OF this] show ?thesis
      by (cases "limit f < m") (auto simp add: Raise raise_limit raise_reported list_all_iff max_def)
  next
    case (Spend n)
    then show ?thesis
      using Cons.IH [of "spend (min n (credit f)) f"] Cons.prems by (simp add: spend_limit spend_reported)
  next
    case Report
    define f' where "f' = snd (report f)"
    have f': "limit f' = limit f"
      "reported f' = (case fst (report f) of Some l \<Rightarrow> Some l | None \<Rightarrow> reported f)"
      by (simp_all add: f'_def report_limit report_reported)
    have "reported f' = None \<or> reported f' = Some (limit f')"
      using Cons.prems f' by (simp add: report_result)
    note IH = Cons.IH [OF this]
    have run: "fst (run (e # es) f) = (case fst (report f) of Some l \<Rightarrow> [l] | None \<Rightarrow> []) @ fst (run es f')"
      by (simp add: Report case_prod_unfold Let_def f'_def)
    show ?thesis
    proof (cases "fst (report f)")
      case None
      then show ?thesis using IH f' by (simp add: run)
    next
      case (Some l)
      then have "l = limit f" "reported f \<noteq> Some (limit f)"
        by (auto simp add: report_result split: if_splits)
      then show ?thesis
        using IH f' Some by (auto simp add: run list_all_iff less_le)
    qed
  qed
qed

end

lemmas send_flow_defs =
  on_max_data_def sfc_on_data_sent_def sfc_available_def sfc_take_blocked_def sfc_is_blocked_def

interpretation conn_credit: credit_account sfc_max_data sfc_data_sent sfc_blocked_at
  on_max_data sfc_on_data_sent sfc_available sfc_take_blocked
  by unfold_locales (simp_all add: send_flow_defs)

definition ssf_advance :: "nat \<Rightarrow> StreamSendFlow \<Rightarrow> StreamSendFlow" where
  "ssf_advance n f = snd (record_high_offset (ssf_data_sent f + n) f)"

lemmas stream_send_flow_defs =
  on_max_stream_data_def ssf_advance_def record_high_offset_def ssf_available_def
  ssf_take_blocked_def ssf_is_blocked_def

interpretation stream_credit: credit_account ssf_max_stream_data ssf_data_sent ssf_blocked_at
  on_max_stream_data ssf_advance ssf_available ssf_take_blocked
  by unfold_locales (simp_all add: stream_send_flow_defs)

section \<open>Credit granted to the peer\<close>

text \<open>
  The application consumes what arrived, and the receiver now and then advances the
  limit.  A peer that respects the limit cannot have more consumed than advertised.
\<close>

datatype WindowEvent = Consume nat | Advance

fun window_run ::
    "('f \<Rightarrow> nat) \<Rightarrow> ('f \<Rightarrow> nat) \<Rightarrow> (nat \<Rightarrow> 'f \<Rightarrow> 'f) \<Rightarrow> ('f \<Rightarrow> nat option \<times> 'f)
      \<Rightarrow> WindowEvent list \<Rightarrow> 'f \<Rightarrow> nat list \<times> 'f" where
  "window_run limit consumed consume advance [] f = ([], f)"
| "window_run limit consumed consume advance (Consume n # es) f =
     window_run limit consumed consume advance es (consume (min n (limit f - consumed f)) f)"
| "window_run limit consumed consume advance (Advance # es) f =
     (let (r, f) = advance f;
          (rs, f) = window_run limit consumed consume advance es f
      in ((case r of Some l \<Rightarrow> [l] | None \<Rightarrow> []) @ rs, f))"

locale receive_window =
  fixes limit :: "'f \<Rightarrow> nat" and win :: "'f \<Rightarrow> nat" and consumed :: "'f \<Rightarrow> nat"
    and consume :: "nat \<Rightarrow> 'f \<Rightarrow> 'f" and advance :: "'f \<Rightarrow> nat option \<times> 'f"
  assumes consume_limit: "limit (consume n f) = limit f"
    and consume_win: "win (consume n f) = win f"
    and consume_consumed: "consumed (consume n f) = consumed f + n"
    and advance_result: "fst (advance f) =
      (if limit f < consumed f + win f \<and> limit f - consumed f < win f div 2
       then Some (consumed f + win f) else None)"
    and advance_limit: "limit (snd (advance f)) = (case fst (advance f) of Some l \<Rightarrow> l | None \<Rightarrow> limit f)"
    and advance_win: "win (snd (advance f)) = win f"
    and advance_consumed: "consumed (snd (advance f)) = consumed f"
begin

abbreviation run :: "WindowEvent list \<Rightarrow> 'f \<Rightarrow> nat list \<times> 'f" where
  "run \<equiv> window_run limit consumed consume advance"

definition inv :: "'f \<Rightarrow> bool" where
  "inv f \<longleftrightarrow> consumed f \<le> limit f \<and> limit f \<le> consumed f + win f"

lemma inv_consume: "inv f \<Longrightarrow> n \<le> limit f - consumed f \<Longrightarrow> inv (consume n f)"
  by (auto simp add: inv_def consume_limit consume_win consume_consumed)

lemma inv_advance: "inv f \<Longrightarrow> inv (snd (advance f))"
  by (auto simp add: inv_def advance_limit advance_result advance_win advance_consumed)

lemma advance_monotone: "inv f \<Longrightarrow> limit f \<le> limit (snd (advance f))"
  by (auto simp add: inv_def advance_limit advance_result)

text \<open>After an advance at least half a window is open.\<close>

lemma advance_opens: "inv f \<Longrightarrow> win f div 2 \<le> limit (snd (advance f)) - consumed (snd (advance f))"
  by (auto simp add: inv_def advance_limit advance_result advance_consumed)

lemma run_inv:
  "inv f \<Longrightarrow> inv (snd (run es f)) \<and> limit f \<le> limit (snd (run es f)) \<and> win (snd (run es f)) = win f"
proof (induction es arbitrary: f)
  case (Cons e es)
  show ?case
  proof (cases e)
    case (Consume n)
    show ?thesis
      using Cons.IH [OF inv_consume [OF Cons.prems min.cobounded2, of n]]
      by (simp add: Consume consume_limit consume_win)
  next
    case Advance
    show ?thesis
      using Cons.IH [OF inv_advance [OF Cons.prems]] advance_monotone [OF Cons.prems]
      by (simp add: Advance case_prod_unfold Let_def advance_win)
  qed
qed simp

lemma run_advertised:
  "inv f \<Longrightarrow> sorted_wrt (<) (fst (run es f)) \<and> list_all (\<lambda>l. limit f < l) (fst (run es f))"
proof (induction es arbitrary: f)
  case (Cons e es)
  show ?case
  proof (cases e)
    case (Consume n)
    show ?thesis
      using Cons.IH [OF inv_consume [OF Cons.prems min.cobounded2, of n]]
      by (simp add: Consume consume_limit)
  next
    case Advance
    show ?thesis
      using Cons.IH [OF inv_advance [OF Cons.prems]]
      by (auto simp add: Advance case_prod_unfold Let_def advance_limit advance_result list_all_iff)
  qed
qed simp

end

interpretation conn_window: receive_window rfc_max_data rfc_window rfc_consumed
  rfc_on_data_consumed rfc_maybe_update
  by unfold_locales (simp_all add: rfc_on_data_consumed_def rfc_maybe_update_def Let_def)

interpretation stream_window: receive_window srf_max_stream_data srf_window srf_consumed
  srf_on_data_consumed srf_maybe_update
  by unfold_locales (simp_all add: srf_on_data_consumed_def srf_maybe_update_def Let_def)

section \<open>Properties\<close>


text \<open>
  C30: the receive window stays open and never shrinks.  Over any sequence of reads and
  limit updates with a peer that respects the limit, the advertised limits are strictly
  increasing, at most one window lies between what was consumed and the limit, and right
  after an update at least half a window is open, so the sender cannot be starved.
\<close>

theorem recv_window_open:
  "let (limits, f) = window_run rfc_max_data rfc_consumed rfc_on_data_consumed rfc_maybe_update es
         (RecvFlowControl_new window);
       f' = snd (rfc_maybe_update f)
   in sorted_wrt (<) limits \<and> rfc_max_data f \<le> rfc_consumed f + window
      \<and> rfc_max_data f \<le> rfc_max_data f' \<and> window div 2 \<le> rfc_max_data f' - rfc_consumed f'"
proof -
  let ?f0 = "RecvFlowControl_new window"
  have i: "conn_window.inv ?f0" by (simp add: conn_window.inv_def RecvFlowControl_new_def)
  have w: "rfc_window ?f0 = window" by (simp add: RecvFlowControl_new_def)
  define f where "f = snd (conn_window.run es ?f0)"
  have f: "conn_window.inv f" "rfc_window f = window"
    using conn_window.run_inv [OF i, of es] by (simp_all add: f_def w)
  show ?thesis
    using f conn_window.run_advertised [OF i, of es] conn_window.advance_monotone [OF f(1)]
      conn_window.advance_opens [OF f(1)]
    by (simp add: case_prod_unfold Let_def conn_window.inv_def flip: f_def)
qed

end
