(* ===== verification/Recovery.thy ===== *)
theory Recovery
  imports Prelude
begin

text \<open>
  \<^verbatim>\<open>oxiquic-transport/src/recovery.rs\<close>: the round-trip-time estimator and the
  loss-detection and probe timers.  Durations and instants are nanosecond counts; the
  overflow panics of \<^verbatim>\<open>Duration\<close> arithmetic, centuries away, are not modelled.
\<close>

section \<open>Round-trip time\<close>

definition K_GRANULARITY :: duration where
  "K_GRANULARITY = 1000000"

definition K_INITIAL_RTT :: duration where
  "K_INITIAL_RTT = 333000000"

record RttEstimator =
  rtt_latest :: duration
  rtt_min :: duration
  rtt_smoothed :: duration
  rtt_var :: duration
  rtt_have_sample :: bool

definition RttEstimator_new :: RttEstimator where
  "RttEstimator_new =
     \<lparr>rtt_latest = 0, rtt_min = 0, rtt_smoothed = K_INITIAL_RTT, rtt_var = K_INITIAL_RTT div 2,
      rtt_have_sample = False\<rparr>"

definition abs_diff :: "duration \<Rightarrow> duration \<Rightarrow> duration" where
  "abs_diff a b = (if a \<ge> b then a - b else b - a)"

definition update_rtt :: "duration \<Rightarrow> duration \<Rightarrow> duration \<Rightarrow> RttEstimator \<Rightarrow> RttEstimator" where
  "update_rtt rtt_sample ack_delay max_ack_delay r =
     (let r = r\<lparr>rtt_latest := rtt_sample\<rparr> in
      if \<not> rtt_have_sample r
      then r\<lparr>rtt_min := rtt_sample, rtt_smoothed := rtt_sample, rtt_var := rtt_sample div 2,
             rtt_have_sample := True\<rparr>
      else
        let r = r\<lparr>rtt_min := min (rtt_min r) rtt_sample\<rparr>;
            ack_delay = min ack_delay max_ack_delay;
            adjusted_rtt = (if rtt_latest r \<ge> rtt_min r + ack_delay then rtt_latest r - ack_delay
                            else rtt_latest r);
            rttvar_sample = abs_diff (rtt_smoothed r) adjusted_rtt;
            r = r\<lparr>rtt_var := (rtt_var r * 3 + rttvar_sample) div 4\<rparr>
        in r\<lparr>rtt_smoothed := (rtt_smoothed r * 7 + adjusted_rtt) div 8\<rparr>)"

definition loss_delay :: "RttEstimator \<Rightarrow> duration" where
  "loss_delay r =
     (let base = max (rtt_latest r) (rtt_smoothed r); scaled = base * 9 div 8
      in max scaled K_GRANULARITY)"

definition pto_base :: "duration \<Rightarrow> RttEstimator \<Rightarrow> duration" where
  "pto_base max_ack_delay r = rtt_smoothed r + max (rtt_var r * 4) K_GRANULARITY + max_ack_delay"

section \<open>Timers\<close>

datatype SpaceIndex = InitialIdx | HandshakeIdx | ApplicationIdx

fun space_as_usize :: "SpaceIndex \<Rightarrow> nat" where
  "space_as_usize InitialIdx = 0"
| "space_as_usize HandshakeIdx = 1"
| "space_as_usize ApplicationIdx = 2"

text \<open>\<open>ld_loss_time\<close> is the array of three slots.\<close>

record LossDetection =
  ld_pto_count :: nat
  ld_loss_time :: "instant option list"

definition LossDetection_new :: LossDetection where
  "LossDetection_new = \<lparr>ld_pto_count = 0, ld_loss_time = [None, None, None]\<rparr>"

definition set_loss_time :: "SpaceIndex \<Rightarrow> instant option \<Rightarrow> LossDetection \<Rightarrow> LossDetection" where
  "set_loss_time space time l = l\<lparr>ld_loss_time := (ld_loss_time l)[space_as_usize space := time]\<rparr>"

fun earliest_loop ::
    "nat \<Rightarrow> instant option list \<Rightarrow> (instant \<times> SpaceIndex) option \<Rightarrow> (instant \<times> SpaceIndex) option" where
  "earliest_loop i [] best = best"
| "earliest_loop i (None # slots) best = earliest_loop (Suc i) slots best"
| "earliest_loop i (Some t # slots) best =
     (let space = (if i = 0 then InitialIdx else if i = 1 then HandshakeIdx else ApplicationIdx);
          best = (case best of
                    Some (bt, bs) \<Rightarrow> if bt \<le> t then (bt, bs) else (t, space)
                  | None \<Rightarrow> (t, space))
      in earliest_loop (Suc i) slots (Some best))"

definition earliest_loss_time :: "LossDetection \<Rightarrow> (instant \<times> SpaceIndex) option" where
  "earliest_loss_time l = earliest_loop 0 (ld_loss_time l) None"

definition reset_pto_count :: "LossDetection \<Rightarrow> LossDetection" where
  "reset_pto_count l = l\<lparr>ld_pto_count := 0\<rparr>"

text \<open>\<^verbatim>\<open>pto_count\<close> is a \<^verbatim>\<open>u32\<close> with a saturating increment.\<close>

definition increase_pto_count :: "LossDetection \<Rightarrow> LossDetection" where
  "increase_pto_count l = l\<lparr>ld_pto_count := min (ld_pto_count l + 1) (2 ^ 32 - 1)\<rparr>"

definition pto_deadline :: "instant \<Rightarrow> duration \<Rightarrow> LossDetection \<Rightarrow> instant" where
  "pto_deadline earliest_sent base l = earliest_sent + base * 2 ^ min (ld_pto_count l) 20"

section \<open>The estimator stays within its samples\<close>

text \<open>
  \<open>rtt_bounded lo hi r\<close>: the minimum is \<open>lo\<close>, no sample exceeded \<open>hi\<close>, and the averages
  lie between.
\<close>

definition rtt_bounded :: "duration \<Rightarrow> duration \<Rightarrow> RttEstimator \<Rightarrow> bool" where
  "rtt_bounded lo hi r \<longleftrightarrow>
     rtt_have_sample r \<and> rtt_min r = lo \<and> lo \<le> rtt_smoothed r \<and> rtt_smoothed r \<le> hi
     \<and> rtt_var r \<le> hi \<and> lo \<le> rtt_latest r \<and> rtt_latest r \<le> hi"

lemma update_rtt_first:
  "\<not> rtt_have_sample r \<Longrightarrow> rtt_bounded s s (update_rtt s d m r)"
  by (simp add: update_rtt_def rtt_bounded_def)

lemma weighted_mean_bounds:
  assumes "lo \<le> a" and "a \<le> hi" and "lo \<le> b" and "b \<le> (hi::nat)"
  shows "lo \<le> (a * 7 + b) div 8" and "(a * 7 + b) div 8 \<le> hi"
  using assms by linarith+

lemma update_rtt_next:
  assumes "rtt_bounded lo hi r"
  shows "rtt_bounded (min lo s) (max hi s) (update_rtt s d m r)"
proof -
  define lo' where "lo' = min lo s"
  define adj where "adj = (if s \<ge> lo' + min d m then s - min d m else s)"
  have u: "update_rtt s d m r =
      r\<lparr>rtt_latest := s, rtt_min := lo', rtt_var := (rtt_var r * 3 + abs_diff (rtt_smoothed r) adj) div 4,
        rtt_smoothed := (rtt_smoothed r * 7 + adj) div 8\<rparr>"
    using assms by (simp add: update_rtt_def rtt_bounded_def Let_def adj_def lo'_def)
  have adj: "lo' \<le> adj" "adj \<le> max hi s" by (auto simp add: adj_def lo'_def)
  have s: "lo' \<le> rtt_smoothed r" "rtt_smoothed r \<le> max hi s" "rtt_var r \<le> max hi s"
    using assms by (auto simp add: rtt_bounded_def lo'_def)
  have "abs_diff (rtt_smoothed r) adj \<le> max hi s"
    using adj s by (auto simp add: abs_diff_def)
  then have "(rtt_var r * 3 + abs_diff (rtt_smoothed r) adj) div 4 \<le> max hi s"
    using s(3) by linarith
  then show ?thesis
    using weighted_mean_bounds [OF s(1,2) adj] assms
    by (simp add: u rtt_bounded_def lo'_def)
qed

definition update_all :: "(duration \<times> duration \<times> duration) list \<Rightarrow> RttEstimator \<Rightarrow> RttEstimator" where
  "update_all xs r = fold (\<lambda>(s, d, m). update_rtt s d m) xs r"

lemma update_all_bounded:
  assumes "rtt_bounded lo hi r"
  shows "rtt_bounded (fold min (map fst xs) lo) (fold max (map fst xs) hi) (update_all xs r)"
  using assms
proof (induction xs arbitrary: lo hi r)
  case (Cons x xs)
  obtain s d m where x: "x = (s, d, m)" by (metis prod_cases3)
  show ?case
    using Cons.IH [OF update_rtt_next [OF Cons.prems, of s d m]]
    by (simp add: x update_all_def min.commute max.commute)
qed (simp add: update_all_def)

lemma update_all_latest: "xs \<noteq> [] \<Longrightarrow> rtt_latest (update_all xs r) = fst (last xs)"
  by (induction xs rule: rev_induct) (auto simp add: update_all_def update_rtt_def Let_def)

section \<open>Timers\<close>

lemma loss_times_three: "length (ld_loss_time (set_loss_time sp t l)) = length (ld_loss_time l)"
  by (simp add: set_loss_time_def)

lemma earliest_loop_three:
  "earliest_loop 0 [a, b, c] None = Some (t, sp) \<Longrightarrow>
     [a, b, c] ! space_as_usize sp = Some t \<and> list_all (\<lambda>s. case s of Some u \<Rightarrow> t \<le> u | None \<Rightarrow> True) [a, b, c]"
  by (cases a; cases b; cases c) (auto split: if_splits)

lemma earliest_loop_three_None: "earliest_loop 0 [a, b, c] None = None \<longleftrightarrow> a = None \<and> b = None \<and> c = None"
  by (cases a; cases b; cases c) simp_all

lemma increase_pto_count_funpow:
  "min (ld_pto_count ((increase_pto_count ^^ k) (reset_pto_count l))) 20 = min k 20"
proof (induction k)
  case (Suc k)
  then show ?case by (simp add: increase_pto_count_def min_def split: if_splits)
qed (simp add: reset_pto_count_def)

section \<open>Properties\<close>

text \<open>
  C34: the RTT estimates stay within the observed samples.  After any non-empty sequence
  of samples, with any reported delays, the minimum is the smallest sample, the smoothed
  estimate lies between the smallest and the largest sample in spite of rounding and
  delay adjustment, and the variation does not exceed the largest sample.
\<close>

theorem rtt_estimates_bounded:
  assumes "xs \<noteq> []"
  defines "r \<equiv> update_all xs RttEstimator_new" and "samples \<equiv> set (map fst xs)"
  shows "rtt_min r = Min samples \<and> Min samples \<le> rtt_smoothed r \<and> rtt_smoothed r \<le> Max samples
    \<and> rtt_var r \<le> Max samples \<and> rtt_latest r = fst (last xs)"
proof -
  obtain s d m ys where xs: "xs = (s, d, m) # ys" using assms(1) by (metis neq_Nil_conv prod_cases3)
  have "rtt_bounded s s (update_rtt s d m RttEstimator_new)"
    by (rule update_rtt_first) (simp add: RttEstimator_new_def)
  from update_all_bounded [OF this, of ys]
  have "rtt_bounded (Min samples) (Max samples) r"
    by (simp add: r_def samples_def xs update_all_def flip: Min.set_eq_fold Max.set_eq_fold)
  then show ?thesis
    using update_all_latest [OF assms(1)] by (simp add: rtt_bounded_def r_def)
qed

theorem rtt_estimates_bounded_witness:
  "rtt_smoothed (update_all [(100, 0, 0), (80, 10, 25), (200, 30, 25)] RttEstimator_new) \<le> Max {100, 80, 200}"
  using rtt_estimates_bounded [of "[(100, 0, 0), (80, 10, 25), (200, 30, 25)]"] by simp

text \<open>
  The loss timer fires for the right space.  The deadline chosen among the three
  packet-number spaces is one of their pending deadlines, is the earliest, and belongs
  to the space it is reported for; none is chosen exactly when none is pending.
\<close>

theorem earliest_loss_time_exact:
  assumes "ld_loss_time l = [a, b, c]"
  shows "case earliest_loss_time l of
      None \<Rightarrow> ld_loss_time l = [None, None, None]
    | Some (t, sp) \<Rightarrow> ld_loss_time l ! space_as_usize sp = Some t
        \<and> list_all (\<lambda>s. case s of Some u \<Rightarrow> t \<le> u | None \<Rightarrow> True) (ld_loss_time l)"
  using earliest_loop_three [of a b c] earliest_loop_three_None [of a b c]
  by (simp add: earliest_loss_time_def assms split: option.split)

theorem earliest_loss_time_exact_witness:
  "earliest_loss_time (set_loss_time ApplicationIdx (Some 5) (set_loss_time InitialIdx (Some 9) LossDetection_new))
     = Some (5, ApplicationIdx)
   \<and> (case earliest_loss_time (set_loss_time ApplicationIdx (Some 5) LossDetection_new) of
        None \<Rightarrow> False | Some (t, sp) \<Rightarrow> [None, None, Some 5] ! space_as_usize sp = Some t)"
  using earliest_loss_time_exact [of "set_loss_time ApplicationIdx (Some 5) LossDetection_new" None None "Some 5"]
  by (simp add: earliest_loss_time_def set_loss_time_def LossDetection_new_def)


end
