(* ===== verification/Sent_Packets.thy ===== *)
theory Sent_Packets
  imports Core_Types "HOL-Library.Multiset"
begin

text \<open>
  \<^verbatim>\<open>oxiquic-transport/src/sent_packet.rs\<close>: the store of sent packets, acknowledgement
  and loss detection over it.
\<close>

section \<open>Data\<close>

datatype SentFrame =
    SF_Crypto u64 bytes
  | SF_Stream u64 u64 bool bytes
  | SF_Ping
  | SF_MtuProbe nat
  | SF_NewConnectionId u64 u64 ConnectionId bytes
  | SF_RetireConnectionId u64
  | SF_MaxStreams Direction u64
  | SF_StreamsBlocked Direction u64
  | SF_NewToken bytes

record RateSample =
  rs_delivered :: u64
  rs_delivered_time :: instant
  rs_first_sent_time :: instant
  rs_is_app_limited :: bool
  rs_sent_time :: instant
  rs_size :: nat

definition rate_sample_sentinel :: "instant \<Rightarrow> nat \<Rightarrow> RateSample" where
  "rate_sample_sentinel t bytes_size =
     \<lparr>rs_delivered = 0, rs_delivered_time = t, rs_first_sent_time = t,
      rs_is_app_limited = False, rs_sent_time = t, rs_size = bytes_size\<rparr>"

record SentPacket =
  packet_number :: u64
  time_sent :: instant
  ack_eliciting :: bool
  in_flight :: bool
  sent_bytes :: nat
  sent_frames :: "SentFrame list"
  rate_sample :: "RateSample option"

record SentPackets =
  sent :: "SentPacket bmap"
  largest_acked :: "u64 option"

record AckOutcome =
  newly_acked :: "SentPacket list"
  acked_ack_eliciting :: bool
  largest_newly_acked :: "u64 option"

definition SentPackets_new :: SentPackets where
  "SentPackets_new = \<lparr>sent = [], largest_acked = None\<rparr>"

definition AckOutcome_default :: AckOutcome where
  "AckOutcome_default =
     \<lparr>newly_acked = [], acked_ack_eliciting = False, largest_newly_acked = None\<rparr>"

section \<open>Operations\<close>

definition sp_on_packet_sent :: "SentPacket \<Rightarrow> SentPackets \<Rightarrow> SentPackets" where
  "sp_on_packet_sent packet s = s\<lparr>sent := bmap_insert (packet_number packet) packet (sent s)\<rparr>"

fun ack_ranges_loop :: "u64 \<Rightarrow> (u64 \<times> u64) list \<Rightarrow> (u64 \<times> u64) list" where
  "ack_ranges_loop smallest [] = []"
| "ack_ranges_loop smallest ((gap, rng) # ranges) =
     (case checked_sub smallest (gap + 2) of
        None \<Rightarrow> []
      | Some next_largest \<Rightarrow>
          let next_low = next_largest - rng
          in (next_low, next_largest) # ack_ranges_loop next_low ranges)"

definition ack_ranges :: "u64 \<Rightarrow> u64 \<Rightarrow> (u64 \<times> u64) list \<Rightarrow> (u64 \<times> u64) list" where
  "ack_ranges largest first_range ranges =
     (let first_low = largest - first_range
      in (first_low, largest) # ack_ranges_loop first_low ranges)"

definition max_opt :: "u64 option \<Rightarrow> u64 \<Rightarrow> u64 option" where
  "max_opt m n = Some (case m of Some prev \<Rightarrow> max prev n | None \<Rightarrow> n)"

fun on_ack_pns :: "u64 list \<Rightarrow> SentPacket bmap \<times> AckOutcome \<Rightarrow> SentPacket bmap \<times> AckOutcome" where
  "on_ack_pns [] st = st"
| "on_ack_pns (pn # pns) (m, outcome) =
     (case bmap_get pn m of
        Some packet \<Rightarrow>
          on_ack_pns pns
            (bmap_remove pn m,
             outcome\<lparr>acked_ack_eliciting := acked_ack_eliciting outcome \<or> ack_eliciting packet,
                     largest_newly_acked := max_opt (largest_newly_acked outcome) pn,
                     newly_acked := newly_acked outcome @ [packet]\<rparr>)
      | None \<Rightarrow> on_ack_pns pns (m, outcome))"

definition range_keys :: "u64 \<Rightarrow> u64 \<Rightarrow> 'v bmap \<Rightarrow> u64 list" where
  "range_keys low high m = filter (\<lambda>k. low \<le> k \<and> k \<le> high) (bmap_keys m)"

fun on_ack_loop ::
    "(u64 \<times> u64) list \<Rightarrow> SentPacket bmap \<times> AckOutcome \<Rightarrow> SentPacket bmap \<times> AckOutcome" where
  "on_ack_loop [] st = st"
| "on_ack_loop ((low, high) # rs) (m, outcome) =
     on_ack_loop rs (on_ack_pns (range_keys low high m) (m, outcome))"

definition on_ack ::
    "u64 \<Rightarrow> u64 \<Rightarrow> (u64 \<times> u64) list \<Rightarrow> SentPackets \<Rightarrow> AckOutcome \<times> SentPackets" where
  "on_ack largest first_range ranges s =
     (let s = s\<lparr>largest_acked := max_opt (largest_acked s) largest\<rparr>;
          (m, outcome) =
            on_ack_loop (ack_ranges largest first_range ranges) (sent s, AckOutcome_default)
      in (outcome, s\<lparr>sent := m\<rparr>))"

definition K_PACKET_THRESHOLD :: nat where
  "K_PACKET_THRESHOLD = 3"

definition min_opt :: "instant option \<Rightarrow> instant \<Rightarrow> instant option" where
  "min_opt m n = Some (case m of Some prev \<Rightarrow> min prev n | None \<Rightarrow> n)"

fun detect_lost_loop ::
    "u64 \<Rightarrow> instant option \<Rightarrow> duration \<Rightarrow> u64 list
     \<Rightarrow> SentPacket bmap \<times> SentPacket list \<times> instant option
     \<Rightarrow> SentPacket bmap \<times> SentPacket list \<times> instant option" where
  "detect_lost_loop la threshold loss_delay [] st = st"
| "detect_lost_loop la threshold loss_delay (pn # pns) (m, lost, next_loss_time) =
     (case bmap_get pn m of
        None \<Rightarrow> detect_lost_loop la threshold loss_delay pns (m, lost, next_loss_time)
      | Some packet \<Rightarrow>
          let pn_lost = (la \<ge> pn + K_PACKET_THRESHOLD);
              time_lost = (case threshold of Some t \<Rightarrow> time_sent packet \<le> t | None \<Rightarrow> False)
          in if pn_lost \<or> time_lost
             then detect_lost_loop la threshold loss_delay pns
                    (bmap_remove pn m, lost @ [packet], next_loss_time)
             else detect_lost_loop la threshold loss_delay pns
                    (m, lost, min_opt next_loss_time (time_sent packet + loss_delay)))"

definition detect_lost ::
    "instant \<Rightarrow> duration \<Rightarrow> SentPackets \<Rightarrow> (SentPacket list \<times> instant option) \<times> SentPackets" where
  "detect_lost now loss_delay s =
     (case largest_acked s of
        None \<Rightarrow> (([], None), s)
      | Some la \<Rightarrow>
          let candidates = filter (\<lambda>k. k \<le> la) (bmap_keys (sent s));
              (m, lost, next_loss_time) =
                detect_lost_loop la (checked_sub now loss_delay) loss_delay candidates
                  (sent s, [], None)
          in ((lost, next_loss_time), s\<lparr>sent := m\<rparr>))"

definition earliest_ack_eliciting_time :: "SentPackets \<Rightarrow> instant option" where
  "earliest_ack_eliciting_time s =
     (case map time_sent (filter ack_eliciting (map snd (sent s))) of
        [] \<Rightarrow> None
      | t # ts \<Rightarrow> Some (fold min ts t))"

definition oldest_ack_eliciting_frames :: "SentPackets \<Rightarrow> SentFrame list option" where
  "oldest_ack_eliciting_frames s =
     map_option sent_frames
       (find (\<lambda>p. ack_eliciting p \<and> sent_frames p \<noteq> []) (map snd (sent s)))"

definition outstanding :: "SentPackets \<Rightarrow> nat" where
  "outstanding s = length (sent s)"

section \<open>Acknowledgement\<close>

text \<open>The store invariant: entries are keyed by their own packet number.\<close>

definition store_ok :: "SentPacket bmap \<Rightarrow> bool" where
  "store_ok m \<longleftrightarrow> bmap_ok m \<and> (\<forall>(k, p) \<in> set m. packet_number p = k)"

definition without :: "u64 set \<Rightarrow> 'v bmap \<Rightarrow> 'v bmap" where
  "without A m = filter (\<lambda>(k, _). k \<notin> A) m"

definition picked :: "u64 set \<Rightarrow> 'v bmap \<Rightarrow> 'v list" where
  "picked A m = map snd (filter (\<lambda>(k, _). k \<in> A) m)"

lemma store_ok_filter [simp, intro]: "store_ok m \<Longrightarrow> store_ok (filter P m)"
  by (auto simp add: store_ok_def)

lemma store_ok_remove [simp, intro]: "store_ok m \<Longrightarrow> store_ok (bmap_remove k m)"
  by (simp add: bmap_remove_def)

lemma store_ok_insert:
  "store_ok m \<Longrightarrow> store_ok (bmap_insert (packet_number p) p m)"
  by (auto simp add: store_ok_def bmap_insert_mem)

lemma store_ok_without [simp, intro]: "store_ok m \<Longrightarrow> store_ok (without A m)"
  by (simp add: without_def)

lemma remove_is_without: "bmap_remove k m = without {k} m"
  by (simp add: bmap_remove_def without_def)

lemma without_without: "without A (without B m) = without (A \<union> B) m"
  by (simp add: without_def) (rule filter_cong, auto)

lemma get_without: "bmap_get k (without A m) = (if k \<in> A then None else bmap_get k m)"
  unfolding bmap_get_def without_def by (induction m) auto

lemma on_ack_pns_spec:
  assumes "distinct pns" and "\<forall>pn \<in> set pns. bmap_get pn m \<noteq> None"
  shows "on_ack_pns pns (m, out) =
    (without (set pns) m,
     \<lparr>newly_acked = newly_acked out @ map (\<lambda>pn. the (bmap_get pn m)) pns,
      acked_ack_eliciting = (acked_ack_eliciting out \<or> (\<exists>pn \<in> set pns. ack_eliciting (the (bmap_get pn m)))),
      largest_newly_acked = fold (\<lambda>pn acc. max_opt acc pn) pns (largest_newly_acked out)\<rparr>)"
  using assms
proof (induction pns arbitrary: m out)
  case Nil
  then show ?case by (simp add: without_def)
next
  case (Cons pn pns)
  obtain p where p: "bmap_get pn m = Some p" using Cons.prems by auto
  have ne: "q \<in> set pns \<Longrightarrow> q \<noteq> pn" for q using Cons.prems by auto
  have get: "q \<in> set pns \<Longrightarrow> bmap_get q (bmap_remove pn m) = bmap_get q m" for q
    using ne by (auto simp add: bmap_get_remove)
  have IH: "on_ack_pns pns (bmap_remove pn m, out') =
      (without (set pns) (bmap_remove pn m),
       \<lparr>newly_acked = newly_acked out' @ map (\<lambda>pn. the (bmap_get pn m)) pns,
        acked_ack_eliciting = (acked_ack_eliciting out' \<or> (\<exists>pn \<in> set pns. ack_eliciting (the (bmap_get pn m)))),
        largest_newly_acked = fold (\<lambda>pn acc. max_opt acc pn) pns (largest_newly_acked out')\<rparr>)" for out'
    using Cons.IH [of "bmap_remove pn m" out'] Cons.prems get by (simp cong: map_cong bex_cong)
  have "without (set pns) (bmap_remove pn m) = without (set (pn # pns)) m"
    by (simp add: remove_is_without without_without)
  then show ?case by (simp add: p IH disj_assoc)
qed

lemma range_keys_props:
  assumes "bmap_ok m"
  shows "distinct (range_keys l h m)" and "\<forall>k \<in> set (range_keys l h m). bmap_get k m \<noteq> None"
    and "set (range_keys l h m) = {l..h} \<inter> fst ` set m"
    and "map (\<lambda>k. the (bmap_get k m)) (range_keys l h m) = picked {l..h} m"
proof -
  have d: "distinct (map fst m)" using assms by (rule bmap_ok_distinct)
  then show "distinct (range_keys l h m)" by (simp add: range_keys_def bmap_keys_def)
  show "set (range_keys l h m) = {l..h} \<inter> fst ` set m"
    by (auto simp add: range_keys_def bmap_keys_def)
  then show "\<forall>k \<in> set (range_keys l h m). bmap_get k m \<noteq> None"
    by (simp add: bmap_get_None_iff)
  have "map (\<lambda>k. the (bmap_get k m)) (range_keys l h m)
      = map (\<lambda>(k, p). the (bmap_get k m)) (filter (\<lambda>(k, _). k \<in> {l..h}) m)"
    by (simp add: range_keys_def bmap_keys_def filter_map o_def case_prod_unfold)
  also have "\<dots> = picked {l..h} m"
    unfolding picked_def using d by (auto simp add: bmap_get_def)
  finally show "map (\<lambda>k. the (bmap_get k m)) (range_keys l h m) = picked {l..h} m" .
qed

text \<open>The numbers an \<^verbatim>\<open>ACK\<close> acknowledges.\<close>

definition acked_set :: "(u64 \<times> u64) list \<Rightarrow> u64 set" where
  "acked_set rs = (\<Union>(l, h) \<in> set rs. {l..h})"

lemma acked_set_simps [simp]:
  "acked_set [] = {}"
  "acked_set ((l, h) # rs) = {l..h} \<union> acked_set rs"
  by (auto simp add: acked_set_def)

lemma without_keys: "without (A \<inter> fst ` set m) m = without A m"
  unfolding without_def by (rule filter_cong) force+

lemma picked_simps [simp]:
  "picked A [] = []"
  "picked A ((k, v) # m) = (if k \<in> A then v # picked A m else picked A m)"
  by (simp_all add: picked_def)

lemma without_simps [simp]:
  "without A [] = []"
  "without A ((k, v) # m) = (if k \<in> A then without A m else (k, v) # without A m)"
  by (simp_all add: without_def)

lemma mset_picked_Un: "mset (picked (A \<union> B) m) = mset (picked A m) + mset (picked B (without A m))"
  by (induction m) auto

lemma length_picked_without: "length (picked A m) + length (without A m) = length m"
  by (induction m) auto

lemma set_picked: "p \<in> set (picked A m) \<longleftrightarrow> (\<exists>k \<in> A. (k, p) \<in> set m)"
  by (force simp add: picked_def)

lemma on_ack_loop_spec:
  assumes "store_ok m" and "on_ack_loop rs (m, out) = (m', out')"
  shows "m' = without (acked_set rs) m \<and>
    (\<exists>L. newly_acked out' = newly_acked out @ L \<and> mset L = mset (picked (acked_set rs) m)
      \<and> (acked_ack_eliciting out' \<longleftrightarrow> acked_ack_eliciting out \<or> (\<exists>p \<in> set L. ack_eliciting p))
      \<and> largest_newly_acked out' =
          fold (\<lambda>pn acc. max_opt acc pn) (map packet_number L) (largest_newly_acked out))"
  using assms
proof (induction rs arbitrary: m out)
  case Nil
  then show ?case by (simp add: without_def picked_def)
next
  case (Cons r rs)
  obtain l h where r: "r = (l, h)" by force
  have m: "bmap_ok m" and keyed: "\<forall>(k, p) \<in> set m. packet_number p = k"
    using Cons.prems(1) by (auto simp add: store_ok_def)
  let ?K = "picked {l..h} m"
  let ?m1 = "without {l..h} m"
  note rk = range_keys_props [OF m, of l h]
  have names: "range_keys l h m = map packet_number ?K"
    using keyed unfolding range_keys_def bmap_keys_def picked_def
    by (induction m) (auto simp add: store_ok_def)
  have bex: "(\<exists>pn \<in> set (range_keys l h m). ack_eliciting (the (bmap_get pn m))) \<longleftrightarrow> (\<exists>p \<in> set ?K. ack_eliciting p)"
    unfolding rk(4) [symmetric] by auto
  have keys: "without (set (range_keys l h m)) m = ?m1"
    by (simp only: rk(3) without_keys)
  define out1 where "out1 = snd (on_ack_pns (range_keys l h m) (m, out))"
  have step: "on_ack_pns (range_keys l h m) (m, out) = (?m1, out1)"
    and out1: "newly_acked out1 = newly_acked out @ ?K"
      "acked_ack_eliciting out1 \<longleftrightarrow> acked_ack_eliciting out \<or> (\<exists>p \<in> set ?K. ack_eliciting p)"
      "largest_newly_acked out1 =
         fold (\<lambda>pn acc. max_opt acc pn) (map packet_number ?K) (largest_newly_acked out)"
    unfolding out1_def on_ack_pns_spec [OF rk(1,2)] keys bex rk(4) by (simp_all add: names)
  have "store_ok ?m1" using Cons.prems(1) by (simp add: without_def)
  moreover have "on_ack_loop rs (?m1, out1) = (m', out')"
    using Cons.prems(2) by (simp add: r step)
  ultimately obtain L where m': "m' = without (acked_set rs) ?m1"
    and L: "newly_acked out' = newly_acked out1 @ L" "mset L = mset (picked (acked_set rs) ?m1)"
      "acked_ack_eliciting out' \<longleftrightarrow> acked_ack_eliciting out1 \<or> (\<exists>p \<in> set L. ack_eliciting p)"
      "largest_newly_acked out' = fold (\<lambda>pn acc. max_opt acc pn) (map packet_number L) (largest_newly_acked out1)"
    using Cons.IH by blast
  show ?case
  proof (intro conjI exI [of _ "?K @ L"])
    show "m' = without (acked_set (r # rs)) m"
      by (simp add: m' r without_without Un_commute)
    show "mset (?K @ L) = mset (picked (acked_set (r # rs)) m)"
      by (simp add: r L(2) mset_picked_Un)
  qed (use L out1 in auto)
qed

lemma Max_insert_max: "finite S \<Longrightarrow> Max (insert (max a x) S) = Max (insert a (insert x S))"
  for a :: nat
  by (cases "S = {}") (simp_all add: max.assoc)

lemma Min_insert_min: "finite S \<Longrightarrow> Min (insert (min a x) S) = Min (insert a (insert x S))"
  for a :: nat
  by (cases "S = {}") (simp_all add: min.assoc)

lemma fold_max_opt:
  "fold (\<lambda>pn acc. max_opt acc pn) pns (Some a) = Some (Max (insert a (set pns)))"
  by (induction pns arbitrary: a) (simp_all add: max_opt_def Max_insert_max del: Max_insert)

lemma fold_min_opt:
  "fold (\<lambda>t acc. min_opt acc t) ts (Some a) = Some (Min (insert a (set ts)))"
  by (induction ts arbitrary: a) (simp_all add: min_opt_def Min_insert_min del: Min_insert)

lemma fold_min_opt_None:
  "fold (\<lambda>t acc. min_opt acc t) ts None = (if ts = [] then None else Some (Min (set ts)))"
  by (cases ts) (simp_all add: min_opt_def [of None] fold_min_opt)

lemma fold_max_opt_None:
  "fold (\<lambda>pn acc. max_opt acc pn) pns None = (if pns = [] then None else Some (Max (set pns)))"
  by (cases pns) (simp_all add: max_opt_def [of None] fold_max_opt)

lemma get_picked:
  assumes "bmap_ok m"
  shows "p \<in> set (picked A m) \<longleftrightarrow> (\<exists>k \<in> A. bmap_get k m = Some p)"
  using bmap_get_iff_mem [OF assms] by (auto simp add: set_picked)

section \<open>Loss detection\<close>

definition is_lost :: "u64 \<Rightarrow> instant option \<Rightarrow> SentPacket \<Rightarrow> u64 \<Rightarrow> bool" where
  "is_lost la threshold packet pn \<longleftrightarrow>
     la \<ge> pn + K_PACKET_THRESHOLD
     \<or> (case threshold of Some t \<Rightarrow> time_sent packet \<le> t | None \<Rightarrow> False)"

lemma detect_lost_loop_spec:
  fixes la :: u64 and thr :: "instant option"
  assumes "distinct pns" and "\<forall>pn \<in> set pns. bmap_get pn m \<noteq> None"
  defines "L \<equiv> filter (\<lambda>pn. is_lost la thr (the (bmap_get pn m)) pn) pns"
    and "K \<equiv> filter (\<lambda>pn. \<not> is_lost la thr (the (bmap_get pn m)) pn) pns"
  shows "detect_lost_loop la thr d pns (m, lost, nlt) =
    (without (set L) m, lost @ map (\<lambda>pn. the (bmap_get pn m)) L,
     fold (\<lambda>t acc. min_opt acc t) (map (\<lambda>pn. time_sent (the (bmap_get pn m)) + d) K) nlt)"
  using assms(1,2) unfolding L_def K_def
proof (induction pns arbitrary: m lost nlt)
  case Nil
  then show ?case by (simp add: without_def)
next
  case (Cons pn pns)
  obtain p where p: "bmap_get pn m = Some p" using Cons.prems by auto
  show ?case
  proof (cases "is_lost la thr p pn")
    case True
    have ne: "q \<in> set pns \<Longrightarrow> q \<noteq> pn" for q using Cons.prems by auto
    have get: "q \<in> set pns \<Longrightarrow> bmap_get q (bmap_remove pn m) = bmap_get q m" for q
      using ne by (auto simp add: bmap_get_remove)
    have mapped: "map (\<lambda>x. f (the (bmap_get x (bmap_remove pn m)))) (filter P pns) =
        map (\<lambda>x. f (the (bmap_get x m))) (filter P pns)" for f :: "SentPacket \<Rightarrow> 'z" and P
      using get by simp
    have "detect_lost_loop la thr d (pn # pns) (m, lost, nlt) =
        detect_lost_loop la thr d pns (bmap_remove pn m, lost @ [p], nlt)"
      using True by (simp add: p is_lost_def Let_def)
    also have "\<dots> = (without (set (filter (\<lambda>pn. is_lost la thr (the (bmap_get pn m)) pn) pns)) (bmap_remove pn m),
        (lost @ [p]) @ map (\<lambda>pn. the (bmap_get pn m)) (filter (\<lambda>pn. is_lost la thr (the (bmap_get pn m)) pn) pns),
        fold (\<lambda>t acc. min_opt acc t) (map (\<lambda>pn. time_sent (the (bmap_get pn m)) + d)
          (filter (\<lambda>pn. \<not> is_lost la thr (the (bmap_get pn m)) pn) pns)) nlt)"
      using Cons.IH [of "bmap_remove pn m" "lost @ [p]" nlt] Cons.prems get
        mapped [of "\<lambda>p. time_sent p + d"] mapped [of "\<lambda>p. p"]
      by (simp cong: filter_cong)
    finally show ?thesis
      using True by (simp add: p remove_is_without without_without insert_commute)
  next
    case False
    then have "detect_lost_loop la thr d (pn # pns) (m, lost, nlt) =
        detect_lost_loop la thr d pns (m, lost, min_opt nlt (time_sent p + d))"
      by (simp add: p is_lost_def Let_def)
    then show ?thesis
      using Cons.IH [of m lost "min_opt nlt (time_sent p + d)"] Cons.prems False by (simp add: p)
  qed
qed

lemma length_without:
  assumes "bmap_ok m" and "distinct L" and "set L \<subseteq> fst ` set m"
  shows "length L + length (without (set L) m) = length m"
proof -
  have "length (picked (set L) m) = length (filter (\<lambda>k. k \<in> set L) (map fst m))"
    unfolding picked_def by (simp add: filter_map o_def case_prod_unfold)
  also have "\<dots> = card (set (filter (\<lambda>k. k \<in> set L) (map fst m)))"
    using bmap_ok_distinct [OF assms(1)] by (intro distinct_card [symmetric]) simp
  also have "set (filter (\<lambda>k. k \<in> set L) (map fst m)) = set L"
    using assms(3) by auto
  also have "card (set L) = length L" using assms(2) by (rule distinct_card)
  finally show ?thesis using length_picked_without [of "set L" m] by simp
qed

lemma detect_lost_unfold:
  assumes "bmap_ok (sent s)" and "largest_acked s = Some la"
    and "detect_lost now d s = ((lost, nlt), s')"
  obtains L K where
    "L = filter (\<lambda>pn. is_lost la (checked_sub now d) (the (bmap_get pn (sent s))) pn)
          (filter (\<lambda>k. k \<le> la) (bmap_keys (sent s)))"
    "K = filter (\<lambda>pn. \<not> is_lost la (checked_sub now d) (the (bmap_get pn (sent s))) pn)
          (filter (\<lambda>k. k \<le> la) (bmap_keys (sent s)))"
    "sent s' = without (set L) (sent s)" "lost = map (\<lambda>pn. the (bmap_get pn (sent s))) L"
    "nlt = fold (\<lambda>t acc. min_opt acc t) (map (\<lambda>pn. time_sent (the (bmap_get pn (sent s))) + d) K) None"
    "distinct L" "set L \<subseteq> fst ` set (sent s)"
proof -
  let ?pns = "filter (\<lambda>k. k \<le> la) (bmap_keys (sent s))"
  let ?L = "filter (\<lambda>pn. is_lost la (checked_sub now d) (the (bmap_get pn (sent s))) pn)"
  let ?K = "filter (\<lambda>pn. \<not> is_lost la (checked_sub now d) (the (bmap_get pn (sent s))) pn)"
  have d: "distinct ?pns" and g: "\<forall>pn \<in> set ?pns. bmap_get pn (sent s) \<noteq> None"
    using bmap_ok_distinct [OF assms(1)] by (auto simp add: bmap_keys_def bmap_get_None_iff)
  have "detect_lost now d s = ((map (\<lambda>pn. the (bmap_get pn (sent s))) (?L ?pns),
      fold (\<lambda>t acc. min_opt acc t) (map (\<lambda>pn. time_sent (the (bmap_get pn (sent s))) + d) (?K ?pns)) None),
      s\<lparr>sent := without (set (?L ?pns)) (sent s)\<rparr>)"
    by (simp add: detect_lost_def assms(2) detect_lost_loop_spec [OF d g])
  then have "sent s' = without (set (?L ?pns)) (sent s)" "lost = map (\<lambda>pn. the (bmap_get pn (sent s))) (?L ?pns)"
    "nlt = fold (\<lambda>t acc. min_opt acc t) (map (\<lambda>pn. time_sent (the (bmap_get pn (sent s))) + d) (?K ?pns)) None"
    unfolding assms(3) by simp_all
  moreover have "distinct (?L ?pns)" using d by (rule distinct_filter)
  moreover have "set (?L ?pns) \<subseteq> fst ` set (sent s)" by (auto simp add: bmap_keys_def)
  ultimately show thesis by (rule that [OF refl refl])
qed

lemma bmap_keys_mem: "k \<in> set (bmap_keys m) \<longleftrightarrow> (\<exists>p. bmap_get k m = Some p)"
  using bmap_get_None_iff [of k m] by (cases "bmap_get k m") (simp_all add: bmap_keys_def)

lemma is_lost_iff:
  "is_lost la (checked_sub now d) p pn \<longleftrightarrow> pn + 3 \<le> la \<or> time_sent p + d \<le> now"
  by (auto simp add: is_lost_def K_PACKET_THRESHOLD_def checked_sub_def)

section \<open>Properties\<close>

text \<open>
  C20: acknowledgement is exact.  Processing an \<^verbatim>\<open>ACK\<close> removes from the store exactly the
  packets whose numbers it covers and leaves every other packet in place; the packets
  reported as newly acknowledged are those, each once, the ack-eliciting flag is set
  when one of them is ack-eliciting, and the largest newly acknowledged number is the
  maximum of them.
\<close>

theorem on_ack_exact:
  assumes "store_ok (sent s)" and "on_ack la first_range rngs s = (out, s')"
  shows "let A = acked_set (ack_ranges la first_range rngs) in
    (\<forall>pn. bmap_get pn (sent s') = (if pn \<in> A then None else bmap_get pn (sent s)))
    \<and> (\<forall>p. p \<in> set (newly_acked out) \<longleftrightarrow> (\<exists>pn. pn \<in> A \<and> bmap_get pn (sent s) = Some p))
    \<and> length (newly_acked out) + outstanding s' = outstanding s
    \<and> (acked_ack_eliciting out \<longleftrightarrow> (\<exists>p \<in> set (newly_acked out). ack_eliciting p))
    \<and> largest_newly_acked out =
        (if newly_acked out = [] then None
         else Some (Max (packet_number ` set (newly_acked out))))
    \<and> store_ok (sent s')"
proof -
  let ?A = "acked_set (ack_ranges la first_range rngs)"
  have m: "bmap_ok (sent s)" using assms(1) by (simp add: store_ok_def)
  have loop: "on_ack_loop (ack_ranges la first_range rngs) (sent s, AckOutcome_default) = (sent s', out)"
    using assms(2) by (auto simp add: on_ack_def Let_def split: prod.splits)
  obtain L where s': "sent s' = without ?A (sent s)"
    and L: "newly_acked out = L" "mset L = mset (picked ?A (sent s))"
      "acked_ack_eliciting out \<longleftrightarrow> (\<exists>p \<in> set L. ack_eliciting p)"
      "largest_newly_acked out = fold (\<lambda>pn acc. max_opt acc pn) (map packet_number L) None"
    using on_ack_loop_spec [OF assms(1) loop] by (auto simp add: AckOutcome_default_def)
  have "set L = set (picked ?A (sent s))" and "length L = length (picked ?A (sent s))"
    using L(2) by (metis set_mset_mset, metis size_mset)
  then show ?thesis
    using length_picked_without [of ?A "sent s"] assms(1)
    by (auto simp add: Let_def s' L get_without get_picked [OF m] fold_max_opt_None outstanding_def)
qed

definition example_packet :: "u64 \<Rightarrow> instant \<Rightarrow> SentPacket" where
  "example_packet pn t =
     \<lparr>packet_number = pn, time_sent = t, ack_eliciting = True, in_flight = True,
      sent_bytes = 1200, sent_frames = [SF_Ping], rate_sample = None\<rparr>"

definition example_store :: SentPackets where
  "example_store =
     \<lparr>sent = map (\<lambda>pn. (pn, example_packet pn (pn * 10))) [0, 1, 2, 3, 4], largest_acked = None\<rparr>"

lemma example_store_ok: "store_ok (sent example_store)"
  by (simp add: example_store_def store_ok_def example_packet_def bmap_ok_def)

theorem on_ack_exact_witness:
  "let (out, s') = on_ack 4 0 [(0, 1)] example_store in
   map packet_number (newly_acked out) = [4, 1, 2] \<and> outstanding s' = 2
   \<and> largest_newly_acked out = Some 4"
proof -
  obtain out s' where r: "on_ack 4 0 [(0, 1)] example_store = (out, s')" by force
  have "map packet_number (newly_acked out) = [4, 1, 2]"
    using r by (auto simp add: on_ack_def example_store_def example_packet_def ack_ranges_def
        checked_sub_def range_keys_def bmap_keys_def bmap_get_def bmap_remove_def
        AckOutcome_default_def Let_def)
  then have pns: "map packet_number (newly_acked out) = [4, 1, 2]"
    and len: "length (newly_acked out) = 3"
    and im: "packet_number ` set (newly_acked out) = {4, 1, 2}"
    by (simp, metis length_map length_Cons list.size(3) numeral_3_eq_3, metis list.set(1,2) set_map)
  have "length (newly_acked out) + outstanding s' = outstanding example_store"
    and "largest_newly_acked out = (if newly_acked out = [] then None
         else Some (Max (packet_number ` set (newly_acked out))))"
    using on_ack_exact [OF example_store_ok r] by (simp_all add: Let_def)
  moreover have "outstanding example_store = 5"
    by (simp add: outstanding_def example_store_def)
  ultimately have "outstanding s' = 2" and "largest_newly_acked out = Some 4"
    using len im by auto
  then show ?thesis using pns r by simp
qed



end
