(* ===== verification/Congestion.thy ===== *)
theory Congestion
  imports Sent_Packets
begin

text \<open>
  \<^verbatim>\<open>oxiquic-transport/src/congestion.rs\<close> (NewReno), \<^verbatim>\<open>cubic.rs\<close> (CUBIC), and the contract every
  congestion controller meets.

  Window arithmetic is over naturals: the windows of the source are \<^verbatim>\<open>u64\<close> byte counts
  far from overflow.  The \<^verbatim>\<open>f64\<close> operations of CUBIC and BBR are fields of a record
  \<open>f64_ops\<close>, an argument of the definitions that use them: every theorem about those
  controllers holds for any behaviour of floating-point arithmetic, in particular for
  the IEEE 754 one.
\<close>

section \<open>Floating point\<close>

text \<open>
  \<open>f_lit n k\<close> is the literal \<open>n / 10\<^sup>k\<close>; \<open>f_to_u64\<close> is the cast \<^verbatim>\<open>as u64\<close>; \<open>as_secs_f64\<close> turns a
  duration into seconds.
\<close>

record 'x f64_ops =
  f_add :: "'x \<Rightarrow> 'x \<Rightarrow> 'x"
  f_sub :: "'x \<Rightarrow> 'x \<Rightarrow> 'x"
  f_mul :: "'x \<Rightarrow> 'x \<Rightarrow> 'x"
  f_div :: "'x \<Rightarrow> 'x \<Rightarrow> 'x"
  f_min :: "'x \<Rightarrow> 'x \<Rightarrow> 'x"
  f_max :: "'x \<Rightarrow> 'x \<Rightarrow> 'x"
  f_le :: "'x \<Rightarrow> 'x \<Rightarrow> bool"
  f_lt :: "'x \<Rightarrow> 'x \<Rightarrow> bool"
  f_cbrt :: "'x \<Rightarrow> 'x"
  f_lit :: "nat \<Rightarrow> nat \<Rightarrow> 'x"
  f_infinity :: 'x
  f_is_finite :: "'x \<Rightarrow> bool"
  f_of_nat :: "nat \<Rightarrow> 'x"
  f_to_u64 :: "'x \<Rightarrow> nat"
  as_secs_f64 :: "duration \<Rightarrow> 'x"

section \<open>Windows\<close>

definition MAX_DATAGRAM_SIZE :: nat where
  "MAX_DATAGRAM_SIZE = 1200"

definition initial_window :: "nat \<Rightarrow> nat" where
  "initial_window max_datagram =
     (let two = 2 * max_datagram;
          lower = (if two > 14720 then two else 14720);
          ten = 10 * max_datagram
      in if ten < lower then ten else lower)"

definition minimum_window :: "nat \<Rightarrow> nat" where
  "minimum_window max_datagram = 2 * max_datagram"

definition in_recovery :: "instant option \<Rightarrow> instant \<Rightarrow> bool" where
  "in_recovery recovery_start_time sent_time =
     (case recovery_start_time of Some start \<Rightarrow> sent_time \<le> start | None \<Rightarrow> False)"

section \<open>NewReno\<close>

record NewReno =
  nr_max_datagram :: nat
  nr_congestion_window :: u64
  nr_bytes_in_flight :: u64
  nr_ssthresh :: u64
  nr_recovery_start_time :: "instant option"

definition NewReno_with_max_datagram :: "nat \<Rightarrow> NewReno" where
  "NewReno_with_max_datagram max_datagram =
     \<lparr>nr_max_datagram = max_datagram, nr_congestion_window = initial_window max_datagram,
      nr_bytes_in_flight = 0, nr_ssthresh = U64_MAX, nr_recovery_start_time = None\<rparr>"

definition NewReno_new :: NewReno where
  "NewReno_new = NewReno_with_max_datagram MAX_DATAGRAM_SIZE"

definition nr_can_send :: "nat \<Rightarrow> NewReno \<Rightarrow> bool" where
  "nr_can_send n c = (nr_bytes_in_flight c + n \<le> nr_congestion_window c)"

definition nr_on_packet_sent :: "nat \<Rightarrow> NewReno \<Rightarrow> NewReno" where
  "nr_on_packet_sent n c = c\<lparr>nr_bytes_in_flight := nr_bytes_in_flight c + n\<rparr>"

definition nr_ack_one :: "nat \<times> instant \<Rightarrow> NewReno \<Rightarrow> NewReno" where
  "nr_ack_one a c =
     (let (n, sent_time) = a;
          c = c\<lparr>nr_bytes_in_flight := nr_bytes_in_flight c - n\<rparr>
      in if in_recovery (nr_recovery_start_time c) sent_time then c
         else if nr_congestion_window c < nr_ssthresh c
         then c\<lparr>nr_congestion_window := nr_congestion_window c + n\<rparr>
         else
           let inc = (nr_max_datagram c * n) div nr_congestion_window c
           in c\<lparr>nr_congestion_window := nr_congestion_window c + max inc 1\<rparr>)"

definition nr_on_packets_acked :: "(nat \<times> instant) list \<Rightarrow> NewReno \<Rightarrow> NewReno" where
  "nr_on_packets_acked acked c = fold nr_ack_one acked c"

definition nr_on_congestion_event :: "instant \<Rightarrow> instant \<Rightarrow> NewReno \<Rightarrow> NewReno" where
  "nr_on_congestion_event sent_time now c =
     (if in_recovery (nr_recovery_start_time c) sent_time then c
      else
        let ssthresh = max (nr_congestion_window c * 1 div 2) (minimum_window (nr_max_datagram c))
        in c\<lparr>nr_recovery_start_time := Some now, nr_ssthresh := ssthresh,
             nr_congestion_window := ssthresh\<rparr>)"

definition nr_on_packets_lost :: "nat \<Rightarrow> instant \<Rightarrow> instant \<Rightarrow> NewReno \<Rightarrow> NewReno" where
  "nr_on_packets_lost lost_bytes largest_lost_sent_time now c =
     nr_on_congestion_event largest_lost_sent_time now
       (c\<lparr>nr_bytes_in_flight := nr_bytes_in_flight c - lost_bytes\<rparr>)"

definition nr_on_persistent_congestion :: "NewReno \<Rightarrow> NewReno" where
  "nr_on_persistent_congestion c =
     c\<lparr>nr_congestion_window := minimum_window (nr_max_datagram c), nr_recovery_start_time := None,
       nr_ssthresh := U64_MAX\<rparr>"

definition is_persistent_congestion :: "instant \<Rightarrow> instant \<Rightarrow> duration \<Rightarrow> bool" where
  "is_persistent_congestion oldest_lost newest_lost base =
     (newest_lost - oldest_lost > base * 3)"

section \<open>CUBIC\<close>

record 'x Cubic =
  cu_max_datagram :: nat
  cu_cwnd :: u64
  cu_ssthresh :: u64
  cu_bytes_in_flight :: u64
  cu_w_max :: u64
  cu_epoch_start :: "instant option"
  cu_k_secs :: 'x
  cu_recovery_start_time :: "instant option"

definition Cubic_with_max_datagram :: "'x f64_ops \<Rightarrow> nat \<Rightarrow> 'x Cubic" where
  "Cubic_with_max_datagram fp max_datagram =
     \<lparr>cu_max_datagram = max_datagram, cu_cwnd = initial_window max_datagram, cu_ssthresh = U64_MAX,
      cu_bytes_in_flight = 0, cu_w_max = initial_window max_datagram, cu_epoch_start = None,
      cu_k_secs = f_lit fp 0 1, cu_recovery_start_time = None\<rparr>"

definition Cubic_new :: "'x f64_ops \<Rightarrow> 'x Cubic" where
  "Cubic_new fp = Cubic_with_max_datagram fp MAX_DATAGRAM_SIZE"

definition cu_can_send :: "nat \<Rightarrow> 'x Cubic \<Rightarrow> bool" where
  "cu_can_send n c = (cu_bytes_in_flight c + n \<le> cu_cwnd c)"

definition cu_on_packet_sent :: "nat \<Rightarrow> 'x Cubic \<Rightarrow> 'x Cubic" where
  "cu_on_packet_sent n c = c\<lparr>cu_bytes_in_flight := cu_bytes_in_flight c + n\<rparr>"

definition BETA_CUBIC :: "'x f64_ops \<Rightarrow> 'x" where
  "BETA_CUBIC fp = f_lit fp 7 1"

definition CUBIC_C :: "'x f64_ops \<Rightarrow> 'x" where
  "CUBIC_C fp = f_lit fp 4 1"

definition w_cubic :: "'x f64_ops \<Rightarrow> 'x \<Rightarrow> 'x Cubic \<Rightarrow> nat" where
  "w_cubic fp t_secs c =
     (let max_datagram = f_of_nat fp (cu_max_datagram c);
          w_max_segs = f_div fp (f_of_nat fp (cu_w_max c)) max_datagram;
          delta = f_sub fp t_secs (cu_k_secs c);
          cubic_segs = f_add fp (f_mul fp (f_mul fp (f_mul fp (CUBIC_C fp) delta) delta) delta) w_max_segs
      in if f_le fp cubic_segs (f_lit fp 0 1) then minimum_window (cu_max_datagram c)
         else
           let cubic_bytes = f_mul fp cubic_segs max_datagram
           in if f_le fp (f_of_nat fp U64_MAX) cubic_bytes then U64_MAX else f_to_u64 fp cubic_bytes)"

definition compute_k_secs :: "'x f64_ops \<Rightarrow> nat \<Rightarrow> nat \<Rightarrow> 'x" where
  "compute_k_secs fp w_max max_datagram =
     (let w_max_segs = f_div fp (f_of_nat fp w_max) (f_of_nat fp max_datagram);
          arg = f_div fp (f_mul fp w_max_segs (f_sub fp (f_lit fp 10 1) (BETA_CUBIC fp))) (CUBIC_C fp)
      in f_cbrt fp arg)"

definition cu_ack_one :: "'x f64_ops \<Rightarrow> instant \<Rightarrow> nat \<times> instant \<Rightarrow> 'x Cubic \<Rightarrow> 'x Cubic" where
  "cu_ack_one fp now a c =
     (let (n, sent_time) = a;
          c = c\<lparr>cu_bytes_in_flight := cu_bytes_in_flight c - n\<rparr>
      in if in_recovery (cu_recovery_start_time c) sent_time then c
         else if cu_cwnd c < cu_ssthresh c then c\<lparr>cu_cwnd := cu_cwnd c + n\<rparr>
         else
           let c = (if cu_epoch_start c = None
                    then c\<lparr>cu_epoch_start := Some now,
                           cu_k_secs := compute_k_secs fp (cu_w_max c) (cu_max_datagram c)\<rparr>
                    else c);
               epoch = the (cu_epoch_start c);
               t_secs = as_secs_f64 fp (now - epoch);
               target = w_cubic fp t_secs c
           in if target > cu_cwnd c then c\<lparr>cu_cwnd := target\<rparr>
              else
                let inc = max ((cu_max_datagram c * n) div cu_cwnd c) 1
                in c\<lparr>cu_cwnd := cu_cwnd c + inc\<rparr>)"

definition cu_on_packets_acked ::
    "'x f64_ops \<Rightarrow> (nat \<times> instant) list \<Rightarrow> instant \<Rightarrow> 'x Cubic \<Rightarrow> 'x Cubic" where
  "cu_on_packets_acked fp acked now c = fold (cu_ack_one fp now) acked c"

definition cu_on_packets_lost ::
    "'x f64_ops \<Rightarrow> nat \<Rightarrow> instant \<Rightarrow> instant \<Rightarrow> 'x Cubic \<Rightarrow> 'x Cubic" where
  "cu_on_packets_lost fp lost_bytes largest_lost_sent_time now c =
     (let c = c\<lparr>cu_bytes_in_flight := cu_bytes_in_flight c - lost_bytes\<rparr> in
      if in_recovery (cu_recovery_start_time c) largest_lost_sent_time then c
      else
        let new_ssthresh =
              max (f_to_u64 fp (f_mul fp (f_of_nat fp (cu_cwnd c)) (BETA_CUBIC fp)))
                (minimum_window (cu_max_datagram c))
        in c\<lparr>cu_recovery_start_time := Some now, cu_w_max := cu_cwnd c, cu_ssthresh := new_ssthresh,
             cu_cwnd := new_ssthresh, cu_epoch_start := None, cu_k_secs := f_lit fp 0 1\<rparr>)"

definition cu_on_persistent_congestion :: "'x f64_ops \<Rightarrow> 'x Cubic \<Rightarrow> 'x Cubic" where
  "cu_on_persistent_congestion fp c =
     c\<lparr>cu_cwnd := minimum_window (cu_max_datagram c), cu_recovery_start_time := None,
       cu_ssthresh := U64_MAX, cu_w_max := minimum_window (cu_max_datagram c),
       cu_epoch_start := None, cu_k_secs := f_lit fp 0 1\<rparr>"

section \<open>The contract of a congestion controller\<close>

text \<open>
  What the connection reports to its controller.  \<open>flight_after\<close> is the number of bytes in
  flight that these reports amount to; deductions saturate at zero.
\<close>

datatype CcEvent =
    CcSent nat instant
  | CcAcked "(nat \<times> instant \<times> RateSample option) list" instant
  | CcLost nat instant instant
  | CcPersistent

fun flight_after :: "CcEvent list \<Rightarrow> nat \<Rightarrow> nat" where
  "flight_after [] n = n"
| "flight_after (CcSent k t # es) n = flight_after es (n + k)"
| "flight_after (CcAcked xs t # es) n = flight_after es (n - sum_list (map fst xs))"
| "flight_after (CcLost k t t' # es) n = flight_after es (n - k)"
| "flight_after (CcPersistent # es) n = flight_after es n"

fun cc_step ::
    "(nat \<Rightarrow> instant \<Rightarrow> 'c \<Rightarrow> 'c) \<Rightarrow> ((nat \<times> instant \<times> RateSample option) list \<Rightarrow> instant \<Rightarrow> 'c \<Rightarrow> 'c)
      \<Rightarrow> (nat \<Rightarrow> instant \<Rightarrow> instant \<Rightarrow> 'c \<Rightarrow> 'c) \<Rightarrow> ('c \<Rightarrow> 'c) \<Rightarrow> CcEvent \<Rightarrow> 'c \<Rightarrow> 'c" where
  "cc_step do_sent do_acked do_lost do_persistent (CcSent n t) c = do_sent n t c"
| "cc_step do_sent do_acked do_lost do_persistent (CcAcked xs t) c = do_acked xs t c"
| "cc_step do_sent do_acked do_lost do_persistent (CcLost n t t') c = do_lost n t t' c"
| "cc_step do_sent do_acked do_lost do_persistent CcPersistent c = do_persistent c"

text \<open>
  The contract: the bytes in flight are tracked exactly, the datagram size is fixed, and
  an invariant keeps the window at two datagrams or more.
\<close>

locale congestion_controller =
  fixes cwnd :: "'c \<Rightarrow> nat" and flight :: "'c \<Rightarrow> nat" and datagram :: "'c \<Rightarrow> nat"
    and do_sent :: "nat \<Rightarrow> instant \<Rightarrow> 'c \<Rightarrow> 'c"
    and do_acked :: "(nat \<times> instant \<times> RateSample option) list \<Rightarrow> instant \<Rightarrow> 'c \<Rightarrow> 'c"
    and do_lost :: "nat \<Rightarrow> instant \<Rightarrow> instant \<Rightarrow> 'c \<Rightarrow> 'c"
    and do_persistent :: "'c \<Rightarrow> 'c"
    and invar :: "'c \<Rightarrow> bool"
  assumes invar_window: "invar c \<Longrightarrow> minimum_window (datagram c) \<le> cwnd c"
    and sent_laws: "flight (do_sent n t c) = flight c + n \<and> datagram (do_sent n t c) = datagram c
      \<and> cwnd (do_sent n t c) = cwnd c"
    and acked_laws: "flight (do_acked xs t c) = flight c - sum_list (map fst xs)
      \<and> datagram (do_acked xs t c) = datagram c"
    and lost_laws: "flight (do_lost n t t' c) = flight c - n \<and> datagram (do_lost n t t' c) = datagram c"
    and persistent_laws: "flight (do_persistent c) = flight c \<and> datagram (do_persistent c) = datagram c"
    and invar_sent: "invar c \<Longrightarrow> invar (do_sent n t c)"
    and invar_acked: "invar c \<Longrightarrow> invar (do_acked xs t c)"
    and invar_lost: "invar c \<Longrightarrow> invar (do_lost n t t' c)"
    and invar_persistent: "invar c \<Longrightarrow> invar (do_persistent c)"
begin

abbreviation step :: "CcEvent \<Rightarrow> 'c \<Rightarrow> 'c" where
  "step \<equiv> cc_step do_sent do_acked do_lost do_persistent"

lemma step_laws:
  "flight (step e c) = flight_after [e] (flight c)" "datagram (step e c) = datagram c"
  "invar c \<Longrightarrow> invar (step e c)"
  by (cases e; simp add: sent_laws acked_laws lost_laws persistent_laws
      invar_sent invar_acked invar_lost invar_persistent)+

lemma flight_after_Cons: "flight_after (e # es) n = flight_after es (flight_after [e] n)"
  by (cases e) simp_all

lemma run_laws:
  "flight (fold step es c) = flight_after es (flight c)"
  "datagram (fold step es c) = datagram c"
  "invar c \<Longrightarrow> invar (fold step es c)"
proof (induction es arbitrary: c)
  case (Cons e es)
  { case 1 show ?case using Cons(1) [of "step e c"] flight_after_Cons [of e es] by (simp add: step_laws) }
  { case 2 show ?case using Cons(2) [of "step e c"] by (simp add: step_laws) }
  { case 3 then show ?case using Cons(3) [of "step e c"] by (simp add: step_laws) }
qed simp_all

text \<open>The window never closes: with nothing in flight a full datagram may be do_sent.\<close>

lemma run_can_send:
  assumes "invar c" and "flight (fold step es c) = 0"
  shows "datagram c \<le> cwnd (fold step es c)"
  using invar_window [OF run_laws(3) [OF assms(1), of es]] by (simp add: run_laws(2) minimum_window_def)

end

section \<open>NewReno meets the contract\<close>

definition nr_inv :: "NewReno \<Rightarrow> bool" where
  "nr_inv c \<longleftrightarrow> minimum_window (nr_max_datagram c) \<le> nr_congestion_window c"

lemma initial_above_minimum: "minimum_window d \<le> initial_window d"
  by (simp add: minimum_window_def initial_window_def Let_def)

lemma nr_ack_one_laws:
  "nr_bytes_in_flight (nr_ack_one a c) = nr_bytes_in_flight c - fst a"
  "nr_max_datagram (nr_ack_one a c) = nr_max_datagram c"
  "nr_congestion_window c \<le> nr_congestion_window (nr_ack_one a c)"
  by (simp_all add: nr_ack_one_def Let_def split: prod.split)

lemma nr_acked_laws:
  "nr_bytes_in_flight (nr_on_packets_acked xs c) = nr_bytes_in_flight c - sum_list (map fst xs)"
  "nr_max_datagram (nr_on_packets_acked xs c) = nr_max_datagram c"
  "nr_congestion_window c \<le> nr_congestion_window (nr_on_packets_acked xs c)"
  unfolding nr_on_packets_acked_def
proof (induction xs arbitrary: c)
  case (Cons x xs)
  { case 1 show ?case using Cons(1) [of "nr_ack_one x c"] by (simp add: nr_ack_one_laws) }
  { case 2 show ?case using Cons(2) [of "nr_ack_one x c"] by (simp add: nr_ack_one_laws) }
  { case 3 show ?case using Cons(3) [of "nr_ack_one x c"] nr_ack_one_laws(3) [of c x] by simp }
qed simp_all

definition strip_samples :: "(nat \<times> instant \<times> RateSample option) list \<Rightarrow> (nat \<times> instant) list" where
  "strip_samples acked = map (\<lambda>(b, t, _). (b, t)) acked"

lemma strip_samples_bytes [simp]: "map fst (strip_samples xs) = map fst xs"
  by (simp add: strip_samples_def case_prod_unfold)

interpretation newreno: congestion_controller nr_congestion_window nr_bytes_in_flight nr_max_datagram
  "\<lambda>n t. nr_on_packet_sent n" "\<lambda>xs t. nr_on_packets_acked (strip_samples xs)" nr_on_packets_lost
  nr_on_persistent_congestion nr_inv
proof unfold_locales
  fix c xs
  assume "nr_inv c"
  then show "nr_inv (nr_on_packets_acked (strip_samples xs) c)"
    using nr_acked_laws(3) [of c "strip_samples xs"] by (simp add: nr_inv_def nr_acked_laws(2))
qed (auto simp add: nr_inv_def nr_acked_laws nr_on_packet_sent_def nr_on_packets_lost_def
  nr_on_congestion_event_def nr_on_persistent_congestion_def Let_def)

section \<open>CUBIC meets the contract\<close>

definition cu_inv :: "'x Cubic \<Rightarrow> bool" where
  "cu_inv c \<longleftrightarrow> minimum_window (cu_max_datagram c) \<le> cu_cwnd c"

lemma cu_ack_one_laws:
  "cu_bytes_in_flight (cu_ack_one fp now a c) = cu_bytes_in_flight c - fst a"
  "cu_max_datagram (cu_ack_one fp now a c) = cu_max_datagram c"
  "cu_cwnd c \<le> cu_cwnd (cu_ack_one fp now a c)"
  by (simp_all add: cu_ack_one_def Let_def split: prod.split)

lemma cu_acked_laws:
  "cu_bytes_in_flight (cu_on_packets_acked fp xs now c) = cu_bytes_in_flight c - sum_list (map fst xs)"
  "cu_max_datagram (cu_on_packets_acked fp xs now c) = cu_max_datagram c"
  "cu_cwnd c \<le> cu_cwnd (cu_on_packets_acked fp xs now c)"
  unfolding cu_on_packets_acked_def
proof (induction xs arbitrary: c)
  case (Cons x xs)
  { case 1 show ?case using Cons(1) [of "cu_ack_one fp now x c"] by (simp add: cu_ack_one_laws) }
  { case 2 show ?case using Cons(2) [of "cu_ack_one fp now x c"] by (simp add: cu_ack_one_laws) }
  { case 3 show ?case using Cons(3) [of "cu_ack_one fp now x c"] cu_ack_one_laws(3) [of c fp now x] by simp }
qed simp_all

interpretation cubic: congestion_controller cu_cwnd cu_bytes_in_flight cu_max_datagram
  "\<lambda>n t. cu_on_packet_sent n" "\<lambda>xs t. cu_on_packets_acked fp (strip_samples xs) t"
  "cu_on_packets_lost fp" "cu_on_persistent_congestion fp" cu_inv for fp
proof unfold_locales
  fix c :: "'a Cubic" and xs t
  assume "cu_inv c"
  then show "cu_inv (cu_on_packets_acked fp (strip_samples xs) t c)"
    using cu_acked_laws(3) [of c fp "strip_samples xs" t] by (simp add: cu_inv_def cu_acked_laws(2))
qed (auto simp add: cu_inv_def cu_acked_laws cu_on_packet_sent_def cu_on_packets_lost_def
  cu_on_persistent_congestion_def Let_def)

section \<open>One reduction per recovery period\<close>

text \<open>An event that concerns only packets sent up to the start of the recovery period.\<close>

fun within_period :: "instant \<Rightarrow> CcEvent \<Rightarrow> bool" where
  "within_period start (CcSent n t) = True"
| "within_period start (CcAcked xs t) = list_all (\<lambda>(_, sent_time, _). sent_time \<le> start) xs"
| "within_period start (CcLost n t t') = (t \<le> start)"
| "within_period start CcPersistent = False"

abbreviation newreno_step :: "CcEvent \<Rightarrow> NewReno \<Rightarrow> NewReno" where
  "newreno_step \<equiv> cc_step (\<lambda>n t. nr_on_packet_sent n) (\<lambda>xs t. nr_on_packets_acked (strip_samples xs))
     nr_on_packets_lost nr_on_persistent_congestion"

lemma nr_acked_in_recovery:
  assumes "nr_recovery_start_time c = Some start" and "list_all (\<lambda>(_, sent_time). sent_time \<le> start) xs"
  shows "nr_congestion_window (nr_on_packets_acked xs c) = nr_congestion_window c
    \<and> nr_recovery_start_time (nr_on_packets_acked xs c) = Some start"
  using assms unfolding nr_on_packets_acked_def
proof (induction xs arbitrary: c)
  case (Cons x xs)
  have "nr_ack_one x c = c\<lparr>nr_bytes_in_flight := nr_bytes_in_flight c - fst x\<rparr>"
    using Cons.prems by (simp add: nr_ack_one_def in_recovery_def case_prod_unfold)
  then show ?case using Cons by simp
qed simp

lemma newreno_step_in_recovery:
  assumes "nr_recovery_start_time c = Some start" and "within_period start e"
  shows "nr_congestion_window (newreno_step e c) = nr_congestion_window c
    \<and> nr_recovery_start_time (newreno_step e c) = Some start"
proof (cases e)
  case (CcAcked xs t)
  then have "list_all (\<lambda>(_, sent_time). sent_time \<le> start) (strip_samples xs)"
    using assms(2) by (simp add: strip_samples_def list_all_iff case_prod_unfold)
  then show ?thesis using nr_acked_in_recovery [OF assms(1)] by (simp add: CcAcked)
qed (use assms in \<open>simp_all add: nr_on_packet_sent_def nr_on_packets_lost_def nr_on_congestion_event_def
  in_recovery_def\<close>)

lemma newreno_run_in_recovery:
  assumes "nr_recovery_start_time c = Some start" and "list_all (within_period start) es"
  shows "nr_congestion_window (fold newreno_step es c) = nr_congestion_window c"
  using assms
proof (induction es arbitrary: c)
  case (Cons e es)
  then show ?case using newreno_step_in_recovery [of c start e] by simp
qed simp

text \<open>
  NewReno reduces its window once per recovery period.  A loss outside recovery
  halves the window, down to two datagrams at least; after that no sends, losses or
  acknowledgements of packets sent before the period began change it.
\<close>

theorem newreno_one_reduction:
  assumes "\<not> in_recovery (nr_recovery_start_time c) t" and "list_all (within_period now) es"
  shows "nr_congestion_window (fold newreno_step es (nr_on_packets_lost n t now c)) =
    max (nr_congestion_window c div 2) (minimum_window (nr_max_datagram c))"
proof -
  let ?c = "nr_on_packets_lost n t now c"
  have c: "nr_recovery_start_time ?c = Some now"
    "nr_congestion_window ?c = max (nr_congestion_window c div 2) (minimum_window (nr_max_datagram c))"
    using assms(1) by (simp_all add: nr_on_packets_lost_def nr_on_congestion_event_def Let_def)
  show ?thesis using newreno_run_in_recovery [OF c(1) assms(2)] c(2) by simp
qed

theorem newreno_one_reduction_witness:
  "nr_congestion_window (fold newreno_step [CcLost 1200 7 12, CcAcked [(1200, 9, None)] 13]
     (nr_on_packets_lost 1200 5 10 NewReno_new)) = 6000"
  using newreno_one_reduction [of NewReno_new 5 10 "[CcLost 1200 7 12, CcAcked [(1200, 9, None)] 13]" 1200]
  by (simp add: NewReno_new_def NewReno_with_max_datagram_def in_recovery_def MAX_DATAGRAM_SIZE_def
      initial_window_def minimum_window_def)

end
