(* ===== verification/Bbr.thy ===== *)
theory Bbr
  imports Congestion
begin

text \<open>
  \<^verbatim>\<open>oxiquic-transport/src/bbr.rs\<close>: the BBR controller, its delivery-rate estimator and its
  windowed maximum filter.  Floating-point operations come from \<open>f64_ops\<close>; \<^verbatim>\<open>Instant::now()\<close>
  at construction is an argument.
\<close>

section \<open>Delivery rate\<close>

record DeliveryRateEstimator =
  dr_delivered :: u64
  dr_delivered_time :: instant
  dr_first_sent_time :: instant
  dr_app_limited :: bool
  dr_app_limited_until :: u64

definition DeliveryRateEstimator_new :: "instant \<Rightarrow> DeliveryRateEstimator" where
  "DeliveryRateEstimator_new now =
     \<lparr>dr_delivered = 0, dr_delivered_time = now, dr_first_sent_time = now, dr_app_limited = False,
      dr_app_limited_until = 0\<rparr>"

definition dr_on_packet_sent ::
    "nat \<Rightarrow> instant \<Rightarrow> DeliveryRateEstimator \<Rightarrow> RateSample \<times> DeliveryRateEstimator" where
  "dr_on_packet_sent pkt_size now e =
     (let e = (if dr_first_sent_time e = dr_delivered_time e then e\<lparr>dr_first_sent_time := now\<rparr> else e)
      in (\<lparr>rs_delivered = dr_delivered e, rs_delivered_time = dr_delivered_time e,
           rs_first_sent_time = dr_first_sent_time e, rs_is_app_limited = dr_app_limited e,
           rs_sent_time = now, rs_size = pkt_size\<rparr>, e))"

text \<open>\<^verbatim>\<open>min_by_key\<close>: the first sample with the least send time.\<close>

fun oldest_sample :: "RateSample list \<Rightarrow> RateSample option" where
  "oldest_sample [] = None"
| "oldest_sample (s # ss) =
     (case oldest_sample ss of
        None \<Rightarrow> Some s
      | Some r \<Rightarrow> if rs_sent_time r < rs_sent_time s then Some r else Some s)"

definition dr_on_packets_acked ::
    "'x f64_ops \<Rightarrow> RateSample list \<Rightarrow> nat \<Rightarrow> instant \<Rightarrow> DeliveryRateEstimator
      \<Rightarrow> 'x option \<times> DeliveryRateEstimator" where
  "dr_on_packets_acked fp samples acked_bytes now e =
     (let e = e\<lparr>dr_delivered := dr_delivered e + acked_bytes, dr_delivered_time := now\<rparr> in
      case oldest_sample samples of
        None \<Rightarrow> (None, e)
      | Some oldest \<Rightarrow>
          if rs_is_app_limited oldest then (None, e)
          else
            let delivered_delta = dr_delivered e - rs_delivered oldest;
                ack_elapsed = as_secs_f64 fp (now - rs_delivered_time oldest);
                send_elapsed = as_secs_f64 fp (now - rs_first_sent_time oldest);
                elapsed = f_max fp ack_elapsed send_elapsed
            in if f_le fp elapsed (f_lit fp 0 1) \<or> delivered_delta = 0 then (None, e)
               else if \<not> list_ex (\<lambda>s. rs_size s > 0) samples then (None, e)
               else (Some (f_div fp (f_of_nat fp delivered_delta) elapsed), e))"

definition set_app_limited :: "u64 \<Rightarrow> DeliveryRateEstimator \<Rightarrow> DeliveryRateEstimator" where
  "set_app_limited flight e =
     e\<lparr>dr_app_limited := True, dr_app_limited_until := dr_delivered e + flight\<rparr>"

definition check_app_limited :: "DeliveryRateEstimator \<Rightarrow> DeliveryRateEstimator" where
  "check_app_limited e =
     (if dr_app_limited e \<and> dr_delivered e \<ge> dr_app_limited_until e
      then e\<lparr>dr_app_limited := False\<rparr> else e)"

section \<open>State and filter\<close>

datatype BbrState =
    Startup
  | Drain
  | ProbeBW nat
  | ProbeRTT instant bool

text \<open>The three slots of the filter, each a value with its round.\<close>

record 'x WindowedMaxFilter =
  wm_slot0 :: "'x \<times> u64"
  wm_slot1 :: "'x \<times> u64"
  wm_slot2 :: "'x \<times> u64"

definition WindowedMaxFilter_new :: "'x f64_ops \<Rightarrow> 'x WindowedMaxFilter" where
  "WindowedMaxFilter_new fp =
     \<lparr>wm_slot0 = (f_lit fp 0 1, 0), wm_slot1 = (f_lit fp 0 1, 0), wm_slot2 = (f_lit fp 0 1, 0)\<rparr>"

definition wm_get :: "'x WindowedMaxFilter \<Rightarrow> 'x" where
  "wm_get w = fst (wm_slot0 w)"

definition wm_update ::
    "'x f64_ops \<Rightarrow> 'x \<Rightarrow> u64 \<Rightarrow> u64 \<Rightarrow> 'x WindowedMaxFilter \<Rightarrow> 'x WindowedMaxFilter" where
  "wm_update fp v round_count win_len w =
     (if f_le fp (fst (wm_slot0 w)) v \<or> round_count - snd (wm_slot2 w) \<ge> win_len
      then \<lparr>wm_slot0 = (v, round_count), wm_slot1 = (v, round_count), wm_slot2 = (v, round_count)\<rparr>
      else
        let w = (if f_le fp (fst (wm_slot1 w)) v
                 then w\<lparr>wm_slot1 := (v, round_count), wm_slot2 := (v, round_count)\<rparr>
                 else if f_le fp (fst (wm_slot2 w)) v then w\<lparr>wm_slot2 := (v, round_count)\<rparr>
                 else w)
        in if round_count - snd (wm_slot0 w) \<ge> win_len
           then w\<lparr>wm_slot0 := wm_slot1 w, wm_slot1 := wm_slot2 w, wm_slot2 := (v, round_count)\<rparr>
           else if round_count - snd (wm_slot1 w) \<ge> win_len
           then w\<lparr>wm_slot1 := wm_slot2 w, wm_slot2 := (v, round_count)\<rparr>
           else w)"

section \<open>The controller\<close>

definition DURATION_MAX :: duration where
  "DURATION_MAX = U64_MAX * 1000000000 + 999999999"

definition HIGH_GAIN :: "'x f64_ops \<Rightarrow> 'x" where
  "HIGH_GAIN fp = f_lit fp 2885390081777927 15"

definition CYCLE_LEN :: nat where
  "CYCLE_LEN = 8"

definition probe_bw_gain :: "'x f64_ops \<Rightarrow> nat \<Rightarrow> 'x" where
  "probe_bw_gain fp i =
     (if i = 0 then f_div fp (f_lit fp 50 1) (f_lit fp 40 1)
      else if i = 1 then f_div fp (f_lit fp 30 1) (f_lit fp 40 1)
      else f_lit fp 10 1)"

definition PROBE_RTT_DURATION :: duration where
  "PROBE_RTT_DURATION = 200000000"

definition RT_PROP_FILTER_LEN :: duration where
  "RT_PROP_FILTER_LEN = 10000000000"

record 'x Bbr =
  bb_max_datagram :: nat
  bb_state :: BbrState
  bb_btl_bw :: 'x
  bb_bw_filter :: "'x WindowedMaxFilter"
  bb_rt_prop :: duration
  bb_rt_prop_stamp :: instant
  bb_pacing_gain :: 'x
  bb_cwnd_gain :: 'x
  bb_congestion_window :: u64
  bb_bytes_in_flight :: u64
  bb_round_count :: u64
  bb_round_start :: bool
  bb_next_round_delivered :: u64
  bb_delivered :: u64
  bb_rate_estimator :: DeliveryRateEstimator
  bb_filled_pipe :: bool
  bb_full_bw :: 'x
  bb_full_bw_count :: nat
  bb_cycle_stamp :: instant
  bb_cycle_index :: nat
  bb_probe_rtt_done_stamp :: "instant option"
  bb_probe_rtt_round_done :: bool
  bb_prior_cwnd :: u64
  bb_idle_restart :: bool
  bb_bw_hi :: 'x
  bb_bw_lo :: 'x
  bb_inflight_hi :: u64
  bb_inflight_lo :: u64
  bb_recovery_start_time :: "instant option"

definition Bbr_with_max_datagram :: "'x f64_ops \<Rightarrow> instant \<Rightarrow> nat \<Rightarrow> 'x Bbr" where
  "Bbr_with_max_datagram fp now max_datagram =
     (let init_cwnd = initial_window max_datagram in
      \<lparr>bb_max_datagram = max_datagram, bb_state = Startup, bb_btl_bw = f_lit fp 0 1,
       bb_bw_filter = WindowedMaxFilter_new fp, bb_rt_prop = DURATION_MAX, bb_rt_prop_stamp = now,
       bb_pacing_gain = HIGH_GAIN fp, bb_cwnd_gain = f_lit fp 20 1,
       bb_congestion_window = init_cwnd, bb_bytes_in_flight = 0, bb_round_count = 0,
       bb_round_start = False, bb_next_round_delivered = 0, bb_delivered = 0,
       bb_rate_estimator = DeliveryRateEstimator_new now, bb_filled_pipe = False,
       bb_full_bw = f_lit fp 0 1, bb_full_bw_count = 0, bb_cycle_stamp = now, bb_cycle_index = 0,
       bb_probe_rtt_done_stamp = None, bb_probe_rtt_round_done = False, bb_prior_cwnd = init_cwnd,
       bb_idle_restart = False, bb_bw_hi = f_infinity fp, bb_bw_lo = f_lit fp 0 1,
       bb_inflight_hi = U64_MAX, bb_inflight_lo = 0, bb_recovery_start_time = None\<rparr>)"

definition Bbr_new :: "'x f64_ops \<Rightarrow> instant \<Rightarrow> 'x Bbr" where
  "Bbr_new fp now = Bbr_with_max_datagram fp now MAX_DATAGRAM_SIZE"

definition bb_can_send :: "nat \<Rightarrow> 'x Bbr \<Rightarrow> bool" where
  "bb_can_send n b = (bb_bytes_in_flight b + n \<le> bb_congestion_window b)"

definition pacing_rate :: "'x f64_ops \<Rightarrow> 'x Bbr \<Rightarrow> nat option" where
  "pacing_rate fp b =
     (if f_le fp (bb_btl_bw b) (f_lit fp 0 1) \<or> \<not> f_is_finite fp (bb_btl_bw b) then None
      else
        let rate = f_mul fp (bb_pacing_gain b) (bb_btl_bw b);
            rate = f_max fp (f_min fp rate (bb_bw_hi b)) (bb_bw_lo b)
        in Some (f_to_u64 fp (f_max fp rate (f_lit fp 0 1))))"

definition bb_on_packet_sent :: "nat \<Rightarrow> instant \<Rightarrow> 'x Bbr \<Rightarrow> RateSample \<times> 'x Bbr" where
  "bb_on_packet_sent n now b =
     (let (sample, e) = dr_on_packet_sent n now (bb_rate_estimator b)
      in (sample, b\<lparr>bb_idle_restart := (bb_bytes_in_flight b = 0),
                    bb_bytes_in_flight := bb_bytes_in_flight b + n, bb_rate_estimator := e\<rparr>))"

definition update_round_count :: "'x Bbr \<Rightarrow> 'x Bbr" where
  "update_round_count b =
     (if bb_delivered b \<ge> bb_next_round_delivered b
      then b\<lparr>bb_next_round_delivered := bb_delivered b, bb_round_count := bb_round_count b + 1,
             bb_round_start := True\<rparr>
      else b\<lparr>bb_round_start := False\<rparr>)"

definition check_startup_full_pipe :: "'x f64_ops \<Rightarrow> 'x Bbr \<Rightarrow> 'x Bbr" where
  "check_startup_full_pipe fp b =
     (if f_le fp (f_mul fp (bb_full_bw b) (f_lit fp 125 2)) (bb_btl_bw b)
      then b\<lparr>bb_full_bw := bb_btl_bw b, bb_full_bw_count := 0\<rparr>
      else
        let b = b\<lparr>bb_full_bw_count := bb_full_bw_count b + 1\<rparr>
        in if bb_full_bw_count b \<ge> 3 then b\<lparr>bb_filled_pipe := True\<rparr> else b)"

definition rt_or_default :: "'x Bbr \<Rightarrow> duration" where
  "rt_or_default b = (if bb_rt_prop b = DURATION_MAX then 100000000 else bb_rt_prop b)"

definition bdp :: "'x f64_ops \<Rightarrow> 'x Bbr \<Rightarrow> nat" where
  "bdp fp b =
     f_to_u64 fp (f_max fp (f_mul fp (bb_btl_bw b) (as_secs_f64 fp (rt_or_default b))) (f_lit fp 0 1))"

definition inflight_limit :: "'x f64_ops \<Rightarrow> 'x Bbr \<Rightarrow> nat" where
  "inflight_limit fp b =
     (let model_limit =
            f_to_u64 fp (f_max fp (f_mul fp (f_mul fp (bb_cwnd_gain b) (bb_btl_bw b))
              (as_secs_f64 fp (rt_or_default b))) (f_lit fp 0 1))
      in max (min model_limit (bb_inflight_hi b)) (bb_inflight_lo b))"

definition min_pipe_cwnd :: "'x Bbr \<Rightarrow> nat" where
  "min_pipe_cwnd b = 4 * bb_max_datagram b"

definition set_cwnd :: "'x f64_ops \<Rightarrow> 'x Bbr \<Rightarrow> 'x Bbr" where
  "set_cwnd fp b =
     (case bb_state b of
        ProbeRTT _ _ \<Rightarrow> b\<lparr>bb_congestion_window := min_pipe_cwnd b\<rparr>
      | _ \<Rightarrow>
          let target = (if f_le fp (bb_btl_bw b) (f_lit fp 0 1) then initial_window (bb_max_datagram b)
                        else max (inflight_limit fp b) (min_pipe_cwnd b))
          in b\<lparr>bb_congestion_window := target\<rparr>)"

definition enter_drain :: "'x f64_ops \<Rightarrow> 'x Bbr \<Rightarrow> 'x Bbr" where
  "enter_drain fp b =
     b\<lparr>bb_state := Drain, bb_pacing_gain := f_div fp (f_lit fp 10 1) (HIGH_GAIN fp),
       bb_cwnd_gain := f_lit fp 10 1\<rparr>"

definition enter_probe_bw :: "'x f64_ops \<Rightarrow> instant \<Rightarrow> 'x Bbr \<Rightarrow> 'x Bbr" where
  "enter_probe_bw fp now b =
     b\<lparr>bb_state := ProbeBW 1, bb_cycle_index := 1, bb_pacing_gain := probe_bw_gain fp 1,
       bb_cwnd_gain := f_lit fp 20 1, bb_cycle_stamp := now\<rparr>"

definition enter_probe_rtt :: "'x f64_ops \<Rightarrow> instant \<Rightarrow> 'x Bbr \<Rightarrow> 'x Bbr" where
  "enter_probe_rtt fp now b =
     b\<lparr>bb_prior_cwnd := bb_congestion_window b, bb_state := ProbeRTT now True,
       bb_pacing_gain := f_lit fp 10 1, bb_cwnd_gain := f_lit fp 10 1,
       bb_probe_rtt_done_stamp := None, bb_probe_rtt_round_done := False\<rparr>"

definition enter_startup :: "'x f64_ops \<Rightarrow> 'x Bbr \<Rightarrow> 'x Bbr" where
  "enter_startup fp b =
     b\<lparr>bb_state := Startup, bb_pacing_gain := HIGH_GAIN fp, bb_cwnd_gain := f_lit fp 20 1\<rparr>"

definition advance_cycle_phase :: "'x f64_ops \<Rightarrow> instant \<Rightarrow> 'x Bbr \<Rightarrow> 'x Bbr" where
  "advance_cycle_phase fp now b =
     (if now - bb_cycle_stamp b \<ge> rt_or_default b
      then let i = (bb_cycle_index b + 1) mod CYCLE_LEN
           in b\<lparr>bb_cycle_index := i, bb_cycle_stamp := now, bb_pacing_gain := probe_bw_gain fp i,
                bb_state := ProbeBW i\<rparr>
      else b)"

definition handle_probe_rtt :: "'x f64_ops \<Rightarrow> instant \<Rightarrow> 'x Bbr \<Rightarrow> 'x Bbr" where
  "handle_probe_rtt fp now b =
     (let b = b\<lparr>bb_rt_prop_stamp := now\<rparr> in
      if bb_probe_rtt_done_stamp b = None \<and> bb_bytes_in_flight b \<le> min_pipe_cwnd b
      then b\<lparr>bb_probe_rtt_done_stamp := Some (now + PROBE_RTT_DURATION),
             bb_probe_rtt_round_done := False, bb_next_round_delivered := bb_delivered b\<rparr>
      else case bb_probe_rtt_done_stamp b of
        Some done_at \<Rightarrow>
          let b = (if bb_round_start b then b\<lparr>bb_probe_rtt_round_done := True\<rparr> else b)
          in if bb_probe_rtt_round_done b \<and> now \<ge> done_at
             then
               let b = b\<lparr>bb_rt_prop_stamp := now, bb_congestion_window := bb_prior_cwnd b\<rparr>
               in if \<not> bb_filled_pipe b then enter_startup fp b else enter_probe_bw fp now b
             else b
      | None \<Rightarrow> b)"

definition update_state :: "'x f64_ops \<Rightarrow> instant \<Rightarrow> bool \<Rightarrow> 'x Bbr \<Rightarrow> 'x Bbr" where
  "update_state fp now probe_rtt_trigger b =
     (case bb_state b of
        Startup \<Rightarrow> if bb_filled_pipe b then enter_drain fp b else b
      | Drain \<Rightarrow> if bb_bytes_in_flight b \<le> bdp fp b then enter_probe_bw fp now b else b
      | ProbeBW _ \<Rightarrow>
          if probe_rtt_trigger then enter_probe_rtt fp now b else advance_cycle_phase fp now b
      | ProbeRTT _ _ \<Rightarrow> handle_probe_rtt fp now b)"

text \<open>The eight numbered steps of \<^verbatim>\<open>on_packets_acked\<close>.\<close>

definition note_min_rtt :: "instant list \<Rightarrow> instant \<Rightarrow> 'x Bbr \<Rightarrow> 'x Bbr" where
  "note_min_rtt sent_times now b =
     (if sent_times = [] then b
      else
        let rtt_sample = now - Max (set sent_times)
        in if rtt_sample < bb_rt_prop b then b\<lparr>bb_rt_prop := rtt_sample, bb_rt_prop_stamp := now\<rparr>
           else b)"

definition note_bandwidth :: "'x f64_ops \<Rightarrow> 'x option \<Rightarrow> 'x Bbr \<Rightarrow> 'x Bbr" where
  "note_bandwidth fp bw_sample b =
     (case bw_sample of
        None \<Rightarrow> b
      | Some bw \<Rightarrow>
          if f_lt fp (f_lit fp 0 1) bw then
            let b = b\<lparr>bb_bw_filter := wm_update fp bw (bb_round_count b) 10 (bb_bw_filter b)\<rparr>;
                new_btl_bw = f_min fp (wm_get (bb_bw_filter b)) (bb_bw_hi b)
            in if f_lt fp (bb_btl_bw b) new_btl_bw then b\<lparr>bb_btl_bw := new_btl_bw\<rparr> else b
          else b)"

definition bb_on_packets_acked ::
    "'x f64_ops \<Rightarrow> (nat \<times> instant \<times> RateSample) list \<Rightarrow> instant \<Rightarrow> 'x Bbr \<Rightarrow> 'x Bbr" where
  "bb_on_packets_acked fp acked now b =
     (let acked_bytes = sum_list (map fst acked);
          samples = map (\<lambda>(_, _, s). s) acked;
          b = b\<lparr>bb_bytes_in_flight := bb_bytes_in_flight b - acked_bytes,
                bb_delivered := bb_delivered b + acked_bytes,
                bb_rate_estimator := check_app_limited (bb_rate_estimator b)\<rparr>;
          (bw_sample, e) = dr_on_packets_acked fp samples acked_bytes now (bb_rate_estimator b);
          b = b\<lparr>bb_rate_estimator := e\<rparr>;
          b = note_min_rtt (map (\<lambda>(_, t, _). t) acked) now b;
          b = update_round_count b;
          b = note_bandwidth fp bw_sample b;
          b = (if \<not> bb_filled_pipe b \<and> bb_round_start b then check_startup_full_pipe fp b else b);
          probe_rtt_trigger = (now - bb_rt_prop_stamp b \<ge> RT_PROP_FILTER_LEN
            \<and> (case bb_state b of ProbeRTT _ _ \<Rightarrow> False | _ \<Rightarrow> True));
          b = update_state fp now probe_rtt_trigger b
      in set_cwnd fp b)"

definition bb_on_packets_lost ::
    "'x f64_ops \<Rightarrow> nat \<Rightarrow> instant \<Rightarrow> instant \<Rightarrow> 'x Bbr \<Rightarrow> 'x Bbr" where
  "bb_on_packets_lost fp lost_bytes largest_lost_sent_time now b =
     (let inflight_at_loss = bb_bytes_in_flight b + lost_bytes;
          b = b\<lparr>bb_bytes_in_flight := bb_bytes_in_flight b - lost_bytes\<rparr>
      in if in_recovery (bb_recovery_start_time b) largest_lost_sent_time then b
         else
           let b = b\<lparr>bb_recovery_start_time := Some now\<rparr>;
               b = b\<lparr>bb_inflight_hi := max (inflight_at_loss * 7 div 10) (bdp fp b)\<rparr>;
               b = (if f_lt fp (f_lit fp 0 1) (bb_btl_bw b) then b\<lparr>bb_bw_hi := bb_btl_bw b\<rparr> else b)
           in set_cwnd fp b)"

section \<open>BBR meets the contract\<close>

definition bb_inv :: "'x Bbr \<Rightarrow> bool" where
  "bb_inv b \<longleftrightarrow> minimum_window (bb_max_datagram b) \<le> bb_congestion_window b
     \<and> bb_next_round_delivered b \<le> bb_delivered b"

lemma set_cwnd_laws [simp]:
  "bb_bytes_in_flight (set_cwnd fp b) = bb_bytes_in_flight b"
  "bb_max_datagram (set_cwnd fp b) = bb_max_datagram b"
  "bb_next_round_delivered (set_cwnd fp b) = bb_next_round_delivered b"
  "bb_delivered (set_cwnd fp b) = bb_delivered b"
  "bb_state (set_cwnd fp b) = bb_state b"
  "bb_round_start (set_cwnd fp b) = bb_round_start b"
  "bb_filled_pipe (set_cwnd fp b) = bb_filled_pipe b"
  "bb_cycle_index (set_cwnd fp b) = bb_cycle_index b"
  by (simp_all add: set_cwnd_def Let_def split: BbrState.split)

lemma set_cwnd_minimum: "minimum_window (bb_max_datagram b) \<le> bb_congestion_window (set_cwnd fp b)"
  by (simp add: set_cwnd_def Let_def min_pipe_cwnd_def minimum_window_def initial_window_def
      le_max_iff_disj split: BbrState.split)

lemmas bbr_state_defs =
  enter_drain_def enter_probe_bw_def enter_probe_rtt_def enter_startup_def advance_cycle_phase_def
  handle_probe_rtt_def

lemma update_state_laws [simp]:
  "bb_bytes_in_flight (update_state fp now tr b) = bb_bytes_in_flight b"
  "bb_max_datagram (update_state fp now tr b) = bb_max_datagram b"
  "bb_delivered (update_state fp now tr b) = bb_delivered b"
  "bb_round_start (update_state fp now tr b) = bb_round_start b"
  by (simp_all add: update_state_def bbr_state_defs Let_def split: BbrState.split option.split)

lemma update_state_round:
  "bb_next_round_delivered b \<le> bb_delivered b \<Longrightarrow>
     bb_next_round_delivered (update_state fp now tr b) \<le> bb_delivered b"
  by (simp add: update_state_def bbr_state_defs Let_def split: BbrState.split option.split)

definition bbr_ok :: "'x Bbr \<Rightarrow> bool" where
  "bbr_ok b \<longleftrightarrow>
     (bb_filled_pipe b \<longleftrightarrow> bb_state b \<noteq> Startup)
     \<and> (\<forall>i. bb_state b = ProbeBW i \<longrightarrow> i < CYCLE_LEN \<and> bb_cycle_index b = i)"

text \<open>What the steps before the state transition leave alone.\<close>

lemma note_min_rtt_laws [simp]:
  "bb_bytes_in_flight (note_min_rtt ts now b) = bb_bytes_in_flight b"
  "bb_max_datagram (note_min_rtt ts now b) = bb_max_datagram b"
  "bb_delivered (note_min_rtt ts now b) = bb_delivered b"
  "bb_next_round_delivered (note_min_rtt ts now b) = bb_next_round_delivered b"
  "bb_state (note_min_rtt ts now b) = bb_state b"
  "bb_filled_pipe (note_min_rtt ts now b) = bb_filled_pipe b"
  "bb_cycle_index (note_min_rtt ts now b) = bb_cycle_index b"
  by (simp_all add: note_min_rtt_def Let_def)

lemma update_round_count_laws [simp]:
  "bb_bytes_in_flight (update_round_count b) = bb_bytes_in_flight b"
  "bb_max_datagram (update_round_count b) = bb_max_datagram b"
  "bb_delivered (update_round_count b) = bb_delivered b"
  "bb_state (update_round_count b) = bb_state b"
  "bb_filled_pipe (update_round_count b) = bb_filled_pipe b"
  "bb_cycle_index (update_round_count b) = bb_cycle_index b"
  "bb_next_round_delivered b \<le> bb_delivered b \<Longrightarrow> bb_next_round_delivered (update_round_count b) = bb_delivered b"
  "bb_round_start (update_round_count b) \<longleftrightarrow> bb_next_round_delivered b \<le> bb_delivered b"
  by (simp_all add: update_round_count_def)

lemma note_bandwidth_laws [simp]:
  "bb_bytes_in_flight (note_bandwidth fp s b) = bb_bytes_in_flight b"
  "bb_max_datagram (note_bandwidth fp s b) = bb_max_datagram b"
  "bb_delivered (note_bandwidth fp s b) = bb_delivered b"
  "bb_next_round_delivered (note_bandwidth fp s b) = bb_next_round_delivered b"
  "bb_state (note_bandwidth fp s b) = bb_state b"
  "bb_filled_pipe (note_bandwidth fp s b) = bb_filled_pipe b"
  "bb_cycle_index (note_bandwidth fp s b) = bb_cycle_index b"
  "bb_round_start (note_bandwidth fp s b) = bb_round_start b"
  by (simp_all add: note_bandwidth_def Let_def split: option.split)

lemma check_startup_laws [simp]:
  "bb_bytes_in_flight (check_startup_full_pipe fp b) = bb_bytes_in_flight b"
  "bb_max_datagram (check_startup_full_pipe fp b) = bb_max_datagram b"
  "bb_delivered (check_startup_full_pipe fp b) = bb_delivered b"
  "bb_next_round_delivered (check_startup_full_pipe fp b) = bb_next_round_delivered b"
  "bb_state (check_startup_full_pipe fp b) = bb_state b"
  "bb_cycle_index (check_startup_full_pipe fp b) = bb_cycle_index b"
  "bb_round_start (check_startup_full_pipe fp b) = bb_round_start b"
  by (simp_all add: check_startup_full_pipe_def Let_def)

text \<open>\<^verbatim>\<open>on_packets_acked\<close> as its preparation followed by the state transition.\<close>

definition bb_prepare ::
    "'x f64_ops \<Rightarrow> (nat \<times> instant \<times> RateSample) list \<Rightarrow> instant \<Rightarrow> 'x Bbr \<Rightarrow> 'x Bbr" where
  "bb_prepare fp acked now b =
     (let n = sum_list (map fst acked);
          b = b\<lparr>bb_bytes_in_flight := bb_bytes_in_flight b - n, bb_delivered := bb_delivered b + n,
                bb_rate_estimator := check_app_limited (bb_rate_estimator b)\<rparr>;
          (s, e) = dr_on_packets_acked fp (map (\<lambda>(_, _, s). s) acked) n now (bb_rate_estimator b);
          b = note_bandwidth fp s (update_round_count
                (note_min_rtt (map (\<lambda>(_, t, _). t) acked) now (b\<lparr>bb_rate_estimator := e\<rparr>)))
      in if \<not> bb_filled_pipe b \<and> bb_round_start b then check_startup_full_pipe fp b else b)"

lemma bb_on_packets_acked_prepare:
  "\<exists>tr. bb_on_packets_acked fp acked now b = set_cwnd fp (update_state fp now tr (bb_prepare fp acked now b))"
  unfolding bb_on_packets_acked_def bb_prepare_def Let_def case_prod_unfold by (rule exI) (rule refl)

lemma bb_prepare_laws:
  "bb_bytes_in_flight (bb_prepare fp acked now b) = bb_bytes_in_flight b - sum_list (map fst acked)"
  "bb_max_datagram (bb_prepare fp acked now b) = bb_max_datagram b"
  "bb_delivered (bb_prepare fp acked now b) = bb_delivered b + sum_list (map fst acked)"
  "bb_state (bb_prepare fp acked now b) = bb_state b"
  "bb_cycle_index (bb_prepare fp acked now b) = bb_cycle_index b"
  "bb_filled_pipe b \<Longrightarrow> bb_filled_pipe (bb_prepare fp acked now b)"
  "bb_next_round_delivered b \<le> bb_delivered b \<Longrightarrow>
     bb_next_round_delivered (bb_prepare fp acked now b) = bb_delivered (bb_prepare fp acked now b)"
  "bb_next_round_delivered b \<le> bb_delivered b \<Longrightarrow> bb_round_start (bb_prepare fp acked now b)"
  by (simp_all add: bb_prepare_def Let_def case_prod_unfold)

definition fill_samples ::
    "(nat \<times> instant \<times> RateSample option) list \<Rightarrow> (nat \<times> instant \<times> RateSample) list" where
  "fill_samples acked =
     map (\<lambda>(n, sent_time, rs). (n, sent_time,
       case rs of Some s \<Rightarrow> s | None \<Rightarrow> rate_sample_sentinel sent_time n)) acked"

lemma fill_samples_bytes [simp]: "map fst (fill_samples xs) = map fst xs"
  by (simp add: fill_samples_def case_prod_unfold)

lemma bb_acked_laws:
  "bb_bytes_in_flight (bb_on_packets_acked fp xs now b) = bb_bytes_in_flight b - sum_list (map fst xs)"
  "bb_max_datagram (bb_on_packets_acked fp xs now b) = bb_max_datagram b"
  "bb_inv b \<Longrightarrow> bb_inv (bb_on_packets_acked fp xs now b)"
proof -
  obtain tr where eq: "bb_on_packets_acked fp xs now b =
      set_cwnd fp (update_state fp now tr (bb_prepare fp xs now b))"
    using bb_on_packets_acked_prepare by blast
  show "bb_bytes_in_flight (bb_on_packets_acked fp xs now b) = bb_bytes_in_flight b - sum_list (map fst xs)"
    and "bb_max_datagram (bb_on_packets_acked fp xs now b) = bb_max_datagram b"
    by (simp_all add: eq bb_prepare_laws)
  show "bb_inv (bb_on_packets_acked fp xs now b)" if "bb_inv b"
    using that set_cwnd_minimum [of "update_state fp now tr (bb_prepare fp xs now b)" fp]
      update_state_round [of "bb_prepare fp xs now b" fp now tr]
    by (simp add: bb_inv_def eq bb_prepare_laws)
qed

interpretation bbr: congestion_controller bb_congestion_window bb_bytes_in_flight bb_max_datagram
  "\<lambda>n t b. snd (bb_on_packet_sent n t b)" "\<lambda>xs t. bb_on_packets_acked fp (fill_samples xs) t"
  "bb_on_packets_lost fp" "\<lambda>b. b" bb_inv for fp
proof unfold_locales
  fix b :: "'a Bbr" and n t t'
  assume i: "bb_inv b"
  show "bb_inv (bb_on_packets_lost fp n t t' b)"
    using i by (auto simp add: bb_inv_def bb_on_packets_lost_def Let_def intro: order_trans [OF _ set_cwnd_minimum])
next
  fix b :: "'a Bbr" and xs t
  assume "bb_inv b"
  then show "bb_inv (bb_on_packets_acked fp (fill_samples xs) t b)" by (rule bb_acked_laws(3))
qed (auto simp add: bb_acked_laws bb_inv_def bb_on_packet_sent_def bb_on_packets_lost_def Let_def
  case_prod_unfold)

section \<open>The state machine\<close>

inductive bbr_next :: "BbrState \<Rightarrow> BbrState \<Rightarrow> bool" where
  stay: "bbr_next s s"
| pipe_filled: "bbr_next Startup Drain"
| drained: "bbr_next Drain (ProbeBW 1)"
| cycle: "i < CYCLE_LEN \<Longrightarrow> bbr_next (ProbeBW i) (ProbeBW ((i + 1) mod CYCLE_LEN))"
| rtt_expired: "bbr_next (ProbeBW i) (ProbeRTT t True)"
| rtt_done: "bbr_next (ProbeRTT t x) (ProbeBW 1)"

inductive_simps bbr_next_simps:
  "bbr_next Startup s" "bbr_next Drain s" "bbr_next (ProbeBW i) s" "bbr_next (ProbeRTT t x) s"

text \<open>Just before the transition the pipe may have been found full in Startup.\<close>

lemma update_state_ok:
  assumes "bb_state b \<noteq> Startup \<Longrightarrow> bb_filled_pipe b"
    and "\<And>i. bb_state b = ProbeBW i \<Longrightarrow> i < CYCLE_LEN \<and> bb_cycle_index b = i"
  shows "bbr_ok (update_state fp now tr b) \<and> bbr_next (bb_state b) (bb_state (update_state fp now tr b))"
proof (cases "bb_state b")
  case Startup
  then show ?thesis by (simp add: update_state_def enter_drain_def bbr_ok_def bbr_next_simps)
next
  case Drain
  then show ?thesis
    using assms(1) by (simp add: update_state_def enter_probe_bw_def bbr_ok_def CYCLE_LEN_def bbr_next_simps)
next
  case (ProbeBW i)
  then have "bb_filled_pipe b" "i < CYCLE_LEN" "bb_cycle_index b = i" using assms by auto
  then show ?thesis
    by (simp add: ProbeBW update_state_def enter_probe_rtt_def advance_cycle_phase_def bbr_ok_def Let_def
        CYCLE_LEN_def bbr_next_simps)
next
  case (ProbeRTT t x)
  then have "bb_filled_pipe b" using assms by auto
  then show ?thesis
    by (auto simp add: ProbeRTT update_state_def handle_probe_rtt_def enter_probe_bw_def bbr_ok_def Let_def
        CYCLE_LEN_def bbr_next_simps split: option.split)
qed

lemma set_cwnd_ok [simp]: "bbr_ok (set_cwnd fp b) = bbr_ok b"
  by (simp add: bbr_ok_def)

lemma bb_acked_ok:
  assumes "bbr_ok b"
  shows "bbr_ok (bb_on_packets_acked fp acked now b)
    \<and> bbr_next (bb_state b) (bb_state (bb_on_packets_acked fp acked now b))"
proof -
  obtain tr where eq: "bb_on_packets_acked fp acked now b =
      set_cwnd fp (update_state fp now tr (bb_prepare fp acked now b))"
    using bb_on_packets_acked_prepare by blast
  have "bbr_ok (update_state fp now tr (bb_prepare fp acked now b))
      \<and> bbr_next (bb_state (bb_prepare fp acked now b)) (bb_state (update_state fp now tr (bb_prepare fp acked now b)))"
    using assms by (intro update_state_ok) (auto simp add: bb_prepare_laws bbr_ok_def)
  then show ?thesis by (simp add: eq bb_prepare_laws)
qed

lemma bb_lost_ok:
  "bbr_ok b \<Longrightarrow> bbr_ok (bb_on_packets_lost fp n t now b)
    \<and> bb_state (bb_on_packets_lost fp n t now b) = bb_state b"
  by (simp add: bb_on_packets_lost_def Let_def bbr_ok_def)

lemma bb_sent_ok:
  "bbr_ok b \<Longrightarrow> bbr_ok (snd (bb_on_packet_sent n now b)) \<and> bb_state (snd (bb_on_packet_sent n now b)) = bb_state b"
  by (simp add: bb_on_packet_sent_def bbr_ok_def case_prod_unfold Let_def)

abbreviation bbr_step :: "'x f64_ops \<Rightarrow> CcEvent \<Rightarrow> 'x Bbr \<Rightarrow> 'x Bbr" where
  "bbr_step fp \<equiv> cc_step (\<lambda>n t b. snd (bb_on_packet_sent n t b))
     (\<lambda>xs t. bb_on_packets_acked fp (fill_samples xs) t) (bb_on_packets_lost fp) (\<lambda>b. b)"

lemma bbr_step_ok:
  "bbr_ok b \<Longrightarrow> bbr_ok (bbr_step fp e b) \<and> bbr_next (bb_state b) (bb_state (bbr_step fp e b))"
  by (cases e) (simp_all add: bb_acked_ok bb_lost_ok bb_sent_ok stay)

lemma bbr_run_ok:
  "bbr_ok b \<Longrightarrow> bbr_ok (fold (bbr_step fp) es b) \<and> bbr_next\<^sup>*\<^sup>* (bb_state b) (bb_state (fold (bbr_step fp) es b))"
proof (induction es arbitrary: b)
  case (Cons e es)
  then show ?case
    using bbr_step_ok [of b fp e] by (auto intro: converse_rtranclp_into_rtranclp)
qed simp

lemma bbr_new_ok: "bbr_ok (Bbr_new fp now)" "bb_inv (Bbr_new fp now)" "bb_state (Bbr_new fp now) = Startup"
  by (simp_all add: Bbr_new_def Bbr_with_max_datagram_def Let_def bbr_ok_def bb_inv_def initial_above_minimum)

text \<open>
  C25: BBR follows its state machine, whatever floating-point arithmetic does.  Over any
  sequence of reports from a new controller, each step of the state is one of the
  documented transitions, the gain-cycle index stays within its table, and the
  controller has left Startup exactly when the pipe has been found full, so Startup is
  never re-entered.
\<close>

theorem bbr_state_machine:
  "let b = fold (bbr_step fp) es (Bbr_new fp now0); b' = bbr_step fp e b in
     bbr_next (bb_state b) (bb_state b') \<and> (bb_state b' = Startup \<longleftrightarrow> \<not> bb_filled_pipe b')
     \<and> (case bb_state b' of ProbeBW i \<Rightarrow> i < CYCLE_LEN \<and> bb_cycle_index b' = i | _ \<Rightarrow> True)"
proof -
  have "bbr_ok (fold (bbr_step fp) es (Bbr_new fp now0))"
    using bbr_run_ok [OF bbr_new_ok(1)] by blast
  from bbr_step_ok [OF this, of fp e] show ?thesis
    by (simp add: Let_def bbr_ok_def split: BbrState.split)
qed

text \<open>
  The round counter does not count round trips: from any controller in use, every
  acknowledgement starts a new round, since the threshold of the next round is set to
  what has been delivered already.
\<close>

lemma every_ack_starts_a_round:
  assumes "bb_inv b"
  shows "bb_round_start (bb_on_packets_acked fp acked now b)"
  using bb_on_packets_acked_prepare [of fp acked now b] assms
  by (auto simp add: bb_prepare_laws bb_inv_def)

end
