(* ===== verification/Cc_Dispatch.thy ===== *)
theory Cc_Dispatch
  imports Bbr
begin

text \<open>
  \<^verbatim>\<open>oxiquic-transport/src/cc_dispatch.rs\<close>: the controller a connection uses, one of the three
  algorithms behind a common interface.
\<close>

datatype CongestionAlgorithm = NewRenoAlgo | CubicAlgo | BbrAlgo

datatype 'x CongestionController =
    CcNewReno NewReno
  | CcCubic "'x Cubic"
  | CcBbr "'x Bbr"

definition from_config :: "'x f64_ops \<Rightarrow> instant \<Rightarrow> CongestionAlgorithm \<Rightarrow> 'x CongestionController" where
  "from_config fp now algo =
     (case algo of
        NewRenoAlgo \<Rightarrow> CcNewReno NewReno_new
      | CubicAlgo \<Rightarrow> CcCubic (Cubic_new fp)
      | BbrAlgo \<Rightarrow> CcBbr (Bbr_new fp now))"

fun cc_congestion_window :: "'x CongestionController \<Rightarrow> u64" where
  "cc_congestion_window (CcNewReno nr) = nr_congestion_window nr"
| "cc_congestion_window (CcCubic c) = cu_cwnd c"
| "cc_congestion_window (CcBbr b) = bb_congestion_window b"

fun cc_bytes_in_flight :: "'x CongestionController \<Rightarrow> u64" where
  "cc_bytes_in_flight (CcNewReno nr) = nr_bytes_in_flight nr"
| "cc_bytes_in_flight (CcCubic c) = cu_bytes_in_flight c"
| "cc_bytes_in_flight (CcBbr b) = bb_bytes_in_flight b"

fun cc_can_send :: "nat \<Rightarrow> 'x CongestionController \<Rightarrow> bool" where
  "cc_can_send n (CcNewReno nr) = nr_can_send n nr"
| "cc_can_send n (CcCubic c) = cu_can_send n c"
| "cc_can_send n (CcBbr b) = bb_can_send n b"

fun cc_on_packet_sent ::
    "nat \<Rightarrow> instant \<Rightarrow> 'x CongestionController \<Rightarrow> RateSample option \<times> 'x CongestionController" where
  "cc_on_packet_sent n now (CcBbr b) =
     (let (rs, b) = bb_on_packet_sent n now b in (Some rs, CcBbr b))"
| "cc_on_packet_sent n now (CcNewReno nr) = (None, CcNewReno (nr_on_packet_sent n nr))"
| "cc_on_packet_sent n now (CcCubic c) = (None, CcCubic (cu_on_packet_sent n c))"

fun cc_on_packets_acked ::
    "'x f64_ops \<Rightarrow> (nat \<times> instant \<times> RateSample option) list \<Rightarrow> instant
      \<Rightarrow> 'x CongestionController \<Rightarrow> 'x CongestionController" where
  "cc_on_packets_acked fp acked now (CcBbr b) = CcBbr (bb_on_packets_acked fp (fill_samples acked) now b)"
| "cc_on_packets_acked fp acked now (CcNewReno nr) = CcNewReno (nr_on_packets_acked (strip_samples acked) nr)"
| "cc_on_packets_acked fp acked now (CcCubic c) = CcCubic (cu_on_packets_acked fp (strip_samples acked) now c)"

fun cc_on_packets_lost ::
    "'x f64_ops \<Rightarrow> nat \<Rightarrow> instant \<Rightarrow> instant \<Rightarrow> 'x CongestionController \<Rightarrow> 'x CongestionController" where
  "cc_on_packets_lost fp n t now (CcBbr b) = CcBbr (bb_on_packets_lost fp n t now b)"
| "cc_on_packets_lost fp n t now (CcNewReno nr) = CcNewReno (nr_on_packets_lost n t now nr)"
| "cc_on_packets_lost fp n t now (CcCubic c) = CcCubic (cu_on_packets_lost fp n t now c)"

fun cc_on_persistent_congestion :: "'x f64_ops \<Rightarrow> 'x CongestionController \<Rightarrow> 'x CongestionController" where
  "cc_on_persistent_congestion fp (CcBbr b) = CcBbr b"
| "cc_on_persistent_congestion fp (CcNewReno nr) = CcNewReno (nr_on_persistent_congestion nr)"
| "cc_on_persistent_congestion fp (CcCubic c) = CcCubic (cu_on_persistent_congestion fp c)"

section \<open>The dispatcher meets the contract\<close>

fun cc_datagram :: "'x CongestionController \<Rightarrow> nat" where
  "cc_datagram (CcNewReno nr) = nr_max_datagram nr"
| "cc_datagram (CcCubic c) = cu_max_datagram c"
| "cc_datagram (CcBbr b) = bb_max_datagram b"

fun cc_inv :: "'x CongestionController \<Rightarrow> bool" where
  "cc_inv (CcNewReno nr) = nr_inv nr"
| "cc_inv (CcCubic c) = cu_inv c"
| "cc_inv (CcBbr b) = bb_inv b"

lemmas controller_invars =
  newreno.invar_window newreno.invar_sent newreno.invar_acked newreno.invar_lost newreno.invar_persistent
  cubic.invar_window cubic.invar_sent cubic.invar_acked cubic.invar_lost cubic.invar_persistent
  bbr.invar_window bbr.invar_sent bbr.invar_acked bbr.invar_lost

lemmas controller_laws =
  newreno.sent_laws newreno.acked_laws newreno.lost_laws newreno.persistent_laws
  cubic.sent_laws cubic.acked_laws cubic.lost_laws cubic.persistent_laws
  bbr.sent_laws bbr.acked_laws bbr.lost_laws

interpretation controller: congestion_controller cc_congestion_window cc_bytes_in_flight cc_datagram
  "\<lambda>n t c. snd (cc_on_packet_sent n t c)" "cc_on_packets_acked fp" "cc_on_packets_lost fp"
  "cc_on_persistent_congestion fp" cc_inv for fp
proof unfold_locales
  fix c :: "'a CongestionController" and n t t' and xs :: "(nat \<times> instant \<times> RateSample option) list"
  show "cc_inv c \<Longrightarrow> minimum_window (cc_datagram c) \<le> cc_congestion_window c"
    by (cases c) (simp_all add: controller_invars)
  show "cc_bytes_in_flight (snd (cc_on_packet_sent n t c)) = cc_bytes_in_flight c + n
      \<and> cc_datagram (snd (cc_on_packet_sent n t c)) = cc_datagram c
      \<and> cc_congestion_window (snd (cc_on_packet_sent n t c)) = cc_congestion_window c"
    by (cases c) (simp_all add: controller_laws case_prod_unfold Let_def)
  show "cc_bytes_in_flight (cc_on_packets_acked fp xs t c) = cc_bytes_in_flight c - sum_list (map fst xs)
      \<and> cc_datagram (cc_on_packets_acked fp xs t c) = cc_datagram c"
    by (cases c) (simp_all add: controller_laws)
  show "cc_bytes_in_flight (cc_on_packets_lost fp n t t' c) = cc_bytes_in_flight c - n
      \<and> cc_datagram (cc_on_packets_lost fp n t t' c) = cc_datagram c"
    by (cases c) (simp_all add: controller_laws)
  show "cc_bytes_in_flight (cc_on_persistent_congestion fp c) = cc_bytes_in_flight c
      \<and> cc_datagram (cc_on_persistent_congestion fp c) = cc_datagram c"
    by (cases c) (simp_all add: controller_laws)
  show "cc_inv c \<Longrightarrow> cc_inv (snd (cc_on_packet_sent n t c))"
    by (cases c) (simp_all add: controller_invars case_prod_unfold Let_def)
  show "cc_inv c \<Longrightarrow> cc_inv (cc_on_packets_acked fp xs t c)"
    by (cases c) (simp_all add: controller_invars)
  show "cc_inv c \<Longrightarrow> cc_inv (cc_on_packets_lost fp n t t' c)"
    by (cases c) (simp_all add: controller_invars)
  show "cc_inv c \<Longrightarrow> cc_inv (cc_on_persistent_congestion fp c)"
    by (cases c) (simp_all add: controller_invars)
qed

lemma from_config_inv: "cc_inv (from_config fp now algo)" "cc_bytes_in_flight (from_config fp now algo) = 0"
  "cc_datagram (from_config fp now algo) = MAX_DATAGRAM_SIZE"
  by (cases algo; simp add: from_config_def NewReno_new_def NewReno_with_max_datagram_def nr_inv_def
      Cubic_new_def Cubic_with_max_datagram_def cu_inv_def Bbr_new_def Bbr_with_max_datagram_def bb_inv_def
      Let_def initial_above_minimum)+

lemma cc_can_send_iff: "cc_can_send n c \<longleftrightarrow> cc_bytes_in_flight c + n \<le> cc_congestion_window c"
  by (cases c) (simp_all add: nr_can_send_def cu_can_send_def bb_can_send_def)


end
