(* ===== verification/Cid_Pool.thy ===== *)
theory Cid_Pool
  imports Core_Types
begin

text \<open>
  \<^verbatim>\<open>oxiquic-transport/src/connection/cid.rs\<close>: the connection IDs this endpoint issued and
  those the peer issued.  HMAC-SHA256, from the \<^verbatim>\<open>hmac\<close> and \<^verbatim>\<open>sha2\<close> crates, is the argument
  \<open>hmac\<close> (key, then message).
\<close>

record IssuedCid =
  ic_seq :: u64
  ic_cid :: ConnectionId
  ic_token :: bytes

record PeerCid =
  pc_seq :: u64
  pc_cid :: ConnectionId
  pc_token :: bytes

datatype CidEvent = Register ConnectionId | Unregister ConnectionId | InitialRetired bytes

definition stateless_reset_token :: "(bytes \<Rightarrow> bytes \<Rightarrow> bytes) \<Rightarrow> bytes \<Rightarrow> ConnectionId \<Rightarrow> bytes" where
  "stateless_reset_token hmac secret cid = take 16 (hmac secret cid)"

section \<open>Issued connection IDs\<close>

record LocalCidPool =
  lp_active :: "IssuedCid list"
  lp_next_seq :: u64
  lp_pending_new :: "IssuedCid list"
  lp_secret :: bytes
  lp_limit :: u64

definition LocalCidPool_new ::
    "(bytes \<Rightarrow> bytes \<Rightarrow> bytes) \<Rightarrow> ConnectionId \<Rightarrow> bytes \<Rightarrow> u64 \<Rightarrow> LocalCidPool" where
  "LocalCidPool_new hmac initial_cid secret limit =
     \<lparr>lp_active = [\<lparr>ic_seq = 0, ic_cid = initial_cid,
                     ic_token = stateless_reset_token hmac secret initial_cid\<rparr>],
      lp_next_seq = 1, lp_pending_new = [], lp_secret = secret, lp_limit = limit\<rparr>"

definition issue_new_cid ::
    "(bytes \<Rightarrow> bytes \<Rightarrow> bytes) \<Rightarrow> bytes \<Rightarrow> LocalCidPool
      \<Rightarrow> (OxiQuicError + u64 \<times> ConnectionId) \<times> LocalCidPool" where
  "issue_new_cid hmac raw p =
     (if length (lp_active p) \<ge> lp_limit p
      then (Inl (E_Protocol ''active_connection_id_limit reached; cannot issue more CIDs''), p)
      else
        let cid = raw;
            token = stateless_reset_token hmac (lp_secret p) cid;
            sq = lp_next_seq p;
            issued = \<lparr>ic_seq = sq, ic_cid = cid, ic_token = token\<rparr>
        in (Inr (sq, cid),
            p\<lparr>lp_next_seq := lp_next_seq p + 1, lp_pending_new := lp_pending_new p @ [issued],
              lp_active := lp_active p @ [issued]\<rparr>))"

fun remove_seq :: "u64 \<Rightarrow> IssuedCid list \<Rightarrow> (IssuedCid \<times> IssuedCid list) option" where
  "remove_seq sq [] = None"
| "remove_seq sq (c # cs) =
     (if ic_seq c = sq then Some (c, cs)
      else case remove_seq sq cs of None \<Rightarrow> None | Some (r, cs') \<Rightarrow> Some (r, c # cs'))"

definition handle_peer_retirement :: "u64 \<Rightarrow> LocalCidPool \<Rightarrow> ConnectionId option \<times> LocalCidPool" where
  "handle_peer_retirement sq p =
     (case remove_seq sq (lp_active p) of
        None \<Rightarrow> (None, p)
      | Some (removed, active) \<Rightarrow> (Some (ic_cid removed), p\<lparr>lp_active := active\<rparr>))"

definition pop_pending_new :: "LocalCidPool \<Rightarrow> IssuedCid option \<times> LocalCidPool" where
  "pop_pending_new p =
     (case lp_pending_new p of [] \<Rightarrow> (None, p) | c # cs \<Rightarrow> (Some c, p\<lparr>lp_pending_new := cs\<rparr>))"

definition has_pending_new :: "LocalCidPool \<Rightarrow> bool" where
  "has_pending_new p = (lp_pending_new p \<noteq> [])"

definition can_issue :: "LocalCidPool \<Rightarrow> bool" where
  "can_issue p = (length (lp_active p) < lp_limit p)"

section \<open>The peer's connection IDs\<close>

record PeerCidPool =
  pp_active :: "PeerCid list"
  pp_retire_threshold :: u64
  pp_pending_retire :: "u64 list"
  pp_limit :: u64

definition PeerCidPool_new :: "ConnectionId \<Rightarrow> u64 \<Rightarrow> PeerCidPool" where
  "PeerCidPool_new initial_cid limit =
     \<lparr>pp_active = [\<lparr>pc_seq = 0, pc_cid = initial_cid, pc_token = replicate 16 0\<rparr>],
      pp_retire_threshold = 0, pp_pending_retire = [], pp_limit = limit\<rparr>"

definition receive_new_cid ::
    "u64 \<Rightarrow> u64 \<Rightarrow> ConnectionId \<Rightarrow> bytes \<Rightarrow> PeerCidPool \<Rightarrow> (OxiQuicError + unit) \<times> PeerCidPool" where
  "receive_new_cid sq retire_prior_to cid token p =
     (if retire_prior_to > sq
      then (Inl (E_TransportError FrameEncodingError (Some FT_NewConnectionId)
              ''NEW_CONNECTION_ID: retire_prior_to > seq''), p)
      else if list_ex (\<lambda>c. pc_seq c = sq) (pp_active p) then (Inr (), p)
      else
        let active_after = length (filter (\<lambda>c. pc_seq c \<ge> retire_prior_to) (pp_active p)) + 1 in
        if active_after > pp_limit p
        then (Inl (E_TransportError ConnectionIdLimitError (Some FT_NewConnectionId)
                ''NEW_CONNECTION_ID: would exceed active_connection_id_limit''), p)
        else
          let p = (if retire_prior_to > pp_retire_threshold p
                   then p\<lparr>pp_pending_retire := pp_pending_retire p
                            @ map pc_seq (filter (\<lambda>c. pc_seq c < retire_prior_to) (pp_active p)),
                          pp_active := filter (\<lambda>c. pc_seq c \<ge> retire_prior_to) (pp_active p),
                          pp_retire_threshold := retire_prior_to\<rparr>
                   else p)
          in (Inr (), p\<lparr>pp_active := pp_active p @ [\<lparr>pc_seq = sq, pc_cid = cid, pc_token = token\<rparr>]\<rparr>))"

definition pop_pending_retire :: "PeerCidPool \<Rightarrow> u64 option \<times> PeerCidPool" where
  "pop_pending_retire p =
     (case pp_pending_retire p of [] \<Rightarrow> (None, p) | s # ss \<Rightarrow> (Some s, p\<lparr>pp_pending_retire := ss\<rparr>))"

definition push_front_retire :: "u64 \<Rightarrow> PeerCidPool \<Rightarrow> PeerCidPool" where
  "push_front_retire sq p = p\<lparr>pp_pending_retire := sq # pp_pending_retire p\<rparr>"

definition has_pending_retire :: "PeerCidPool \<Rightarrow> bool" where
  "has_pending_retire p = (pp_pending_retire p \<noteq> [])"

text \<open>\<^verbatim>\<open>min_by_key\<close>: the first entry with the least sequence number.\<close>

fun lowest_seq :: "PeerCid list \<Rightarrow> PeerCid option" where
  "lowest_seq [] = None"
| "lowest_seq (c # cs) =
     (case lowest_seq cs of None \<Rightarrow> Some c | Some d \<Rightarrow> if pc_seq d < pc_seq c then Some d else Some c)"

definition preferred_cid :: "PeerCidPool \<Rightarrow> ConnectionId option" where
  "preferred_cid p = map_option pc_cid (lowest_seq (pp_active p))"

definition matches_stateless_reset :: "bytes \<Rightarrow> PeerCidPool \<Rightarrow> bool" where
  "matches_stateless_reset token p = list_ex (\<lambda>c. pc_token c = token) (pp_active p)"

section \<open>Invariants of the local pool\<close>

definition local_ok :: "LocalCidPool \<Rightarrow> bool" where
  "local_ok p \<longleftrightarrow>
     sorted_wrt (<) (map ic_seq (lp_active p)) \<and> list_all (\<lambda>c. ic_seq c < lp_next_seq p) (lp_active p)
     \<and> sorted_wrt (<) (map ic_seq (lp_pending_new p))
     \<and> list_all (\<lambda>c. ic_seq c < lp_next_seq p) (lp_pending_new p)
     \<and> length (lp_active p) \<le> max 1 (lp_limit p)"

lemma remove_seq_Some:
  "remove_seq sq cs = Some (r, cs') \<Longrightarrow> ic_seq r = sq \<and> (\<exists>us vs. cs = us @ r # vs \<and> cs' = us @ vs)"
proof (induction sq cs arbitrary: r cs' rule: remove_seq.induct)
  case (2 sq c cs)
  show ?case
  proof (cases "ic_seq c = sq")
    case True
    then have "r = c" "cs' = cs" using 2(2) by auto
    then show ?thesis using True by (metis append_Nil)
  next
    case False
    then obtain cs'' where r: "remove_seq sq cs = Some (r, cs'')" "cs' = c # cs''"
      using 2(2) by (auto split: option.splits)
    from 2(1) [OF False r(1)] obtain us vs where "ic_seq r = sq" "cs = us @ r # vs" "cs'' = us @ vs" by blast
    then show ?thesis using r(2) by (metis append_Cons)
  qed
qed simp

lemma remove_seq_None: "remove_seq sq cs = None \<longleftrightarrow> sq \<notin> ic_seq ` set cs"
  by (induction sq cs rule: remove_seq.induct) (auto split: option.splits)

lemma local_ok_new: "local_ok (LocalCidPool_new hmac cid secret limit)"
  by (simp add: local_ok_def LocalCidPool_new_def)

lemma local_ok_issue: "local_ok p \<Longrightarrow> local_ok (snd (issue_new_cid hmac raw p))"
  by (auto simp add: local_ok_def issue_new_cid_def Let_def sorted_wrt_append list_all_iff)

lemma local_ok_retire:
  assumes "local_ok p"
  shows "local_ok (snd (handle_peer_retirement sq p))"
proof (cases "remove_seq sq (lp_active p)")
  case (Some x)
  obtain r cs where x: "x = (r, cs)" by force
  obtain us vs where *: "lp_active p = us @ r # vs" "cs = us @ vs"
    using remove_seq_Some [of sq "lp_active p" r cs] Some x by auto
  have "snd (handle_peer_retirement sq p) = p\<lparr>lp_active := us @ vs\<rparr>"
    by (simp add: handle_peer_retirement_def Some x *(2))
  then show ?thesis using assms by (simp add: *(1) local_ok_def sorted_wrt_append)
qed (simp add: handle_peer_retirement_def assms)

lemma local_ok_pop: "local_ok p \<Longrightarrow> local_ok (snd (pop_pending_new p))"
  by (auto simp add: local_ok_def pop_pending_new_def split: list.split)

text \<open>The operations on the local pool in any order; the sequence numbers of the
  NEW_CONNECTION_ID frames emitted are collected.\<close>

datatype LocalOp = Issue bytes | PeerRetires u64 | EmitNew

fun local_run :: "(bytes \<Rightarrow> bytes \<Rightarrow> bytes) \<Rightarrow> LocalOp list \<Rightarrow> LocalCidPool \<Rightarrow> u64 list \<times> LocalCidPool" where
  "local_run hmac [] p = ([], p)"
| "local_run hmac (Issue raw # ops) p = local_run hmac ops (snd (issue_new_cid hmac raw p))"
| "local_run hmac (PeerRetires sq # ops) p = local_run hmac ops (snd (handle_peer_retirement sq p))"
| "local_run hmac (EmitNew # ops) p =
     (let (c, p) = pop_pending_new p; (es, p) = local_run hmac ops p
      in ((case c of Some c \<Rightarrow> [ic_seq c] | None \<Rightarrow> []) @ es, p))"

definition next_emitted :: "LocalCidPool \<Rightarrow> u64" where
  "next_emitted p = (case lp_pending_new p of [] \<Rightarrow> lp_next_seq p | c # _ \<Rightarrow> ic_seq c)"

lemma next_emitted_issue: "local_ok p \<Longrightarrow> next_emitted p \<le> next_emitted (snd (issue_new_cid hmac raw p))"
  by (cases "lp_pending_new p") (auto simp add: next_emitted_def issue_new_cid_def Let_def)

lemma next_emitted_retire [simp]: "next_emitted (snd (handle_peer_retirement sq p)) = next_emitted p"
  by (cases "lp_pending_new p") (auto simp add: next_emitted_def handle_peer_retirement_def split: option.split)

lemma next_emitted_pop:
  assumes "local_ok p" and "pop_pending_new p = (Some c, p')"
  shows "ic_seq c = next_emitted p \<and> ic_seq c < next_emitted p'"
  using assms by (auto simp add: local_ok_def pop_pending_new_def next_emitted_def split: list.splits)

lemma local_run_ok:
  assumes "local_ok p"
  shows "local_ok (snd (local_run hmac ops p))"
    and "sorted_wrt (<) (fst (local_run hmac ops p))"
    and "list_all (\<lambda>sq. next_emitted p \<le> sq) (fst (local_run hmac ops p))"
  using assms
proof (induction hmac ops p rule: local_run.induct)
  case (2 hmac raw ops p)
  note IH = 2(1-3) [OF local_ok_issue] and mono = next_emitted_issue [of p hmac raw]
  { case 1 then show ?case using IH(1) by simp }
  { case 2 then show ?case using IH(2) by simp }
  { case 3 then show ?case using IH(3) mono by (auto simp add: list_all_iff intro: order_trans) }
next
  case (3 hmac sq ops p)
  note IH = 3(1-3) [OF local_ok_retire]
  { case 1 then show ?case using IH(1) by simp }
  { case 2 then show ?case using IH(2) by simp }
  { case 3 then show ?case using IH(3) by simp }
next
  case (4 hmac ops p)
  obtain c p' where pop: "pop_pending_new p = (c, p')" by force
  have run: "local_run hmac (EmitNew # ops) p =
      ((case c of Some c \<Rightarrow> [ic_seq c] | None \<Rightarrow> []) @ fst (local_run hmac ops p'), snd (local_run hmac ops p'))"
    by (simp add: pop case_prod_unfold Let_def)
  have ok: "local_ok p \<Longrightarrow> local_ok p'" using local_ok_pop [of p] pop by simp
  have none: "c = None \<Longrightarrow> p' = p" using pop by (auto simp add: pop_pending_new_def split: list.splits)
  note IH = 4(1-3) [OF pop [symmetric] refl ok] and next_c = next_emitted_pop [of p _ p']
  { case 1 then show ?case using IH(1) unfolding run by simp }
  { case 2 then show ?case using IH(2,3) next_c pop unfolding run
      by (fastforce simp add: list_all_iff split: option.split) }
  { case 3 then show ?case using IH(3) next_c pop none unfolding run
      by (fastforce simp add: list_all_iff split: option.split) }
qed simp_all


section \<open>Invariants of the peer's pool\<close>

definition peer_ok :: "PeerCidPool \<Rightarrow> bool" where
  "peer_ok p \<longleftrightarrow>
     distinct (map pc_seq (pp_active p)) \<and> list_all (\<lambda>c. pp_retire_threshold p \<le> pc_seq c) (pp_active p)
     \<and> length (pp_active p) \<le> max 1 (pp_limit p)"

definition known_seqs :: "PeerCidPool \<Rightarrow> u64 set" where
  "known_seqs p = pc_seq ` set (pp_active p) \<union> set (pp_pending_retire p)"

lemma peer_ok_receive:
  assumes "peer_ok p" and "pp_retire_threshold p \<le> sq"
  shows "peer_ok (snd (receive_new_cid sq rpt cid tok p))"
proof -
  have all: "filter (\<lambda>c. rpt \<le> pc_seq c) (pp_active p) = pp_active p" if "rpt \<le> pp_retire_threshold p"
    using assms(1) that by (intro filter_True) (auto simp add: peer_ok_def list_all_iff intro: order_trans)
  show ?thesis
    using assms all
    by (auto simp add: peer_ok_def receive_new_cid_def Let_def list_all_iff list_ex_iff distinct_map_filter
        not_less)
qed

lemma known_seqs_receive:
  "fst (receive_new_cid sq rpt cid tok p) = Inr () \<Longrightarrow>
     known_seqs (snd (receive_new_cid sq rpt cid tok p)) = insert sq (known_seqs p)"
  by (auto simp add: known_seqs_def receive_new_cid_def Let_def list_ex_iff image_iff split: if_splits)
    (metis linorder_not_le)

text \<open>The frames of a peer that issues no ID it has already asked to be retired.\<close>

fun honest_frames :: "(u64 \<times> u64 \<times> ConnectionId \<times> bytes) list \<Rightarrow> PeerCidPool \<Rightarrow> bool" where
  "honest_frames [] p = True"
| "honest_frames ((sq, rpt, cid, tok) # fs) p =
     (pp_retire_threshold p \<le> sq \<and> honest_frames fs (snd (receive_new_cid sq rpt cid tok p)))"

definition receive_all :: "(u64 \<times> u64 \<times> ConnectionId \<times> bytes) list \<Rightarrow> PeerCidPool \<Rightarrow> PeerCidPool" where
  "receive_all fs p = fold (\<lambda>(sq, rpt, cid, tok) p. snd (receive_new_cid sq rpt cid tok p)) fs p"

lemma peer_ok_receive_all: "peer_ok p \<Longrightarrow> honest_frames fs p \<Longrightarrow> peer_ok (receive_all fs p)"
  by (induction fs p rule: honest_frames.induct) (simp_all add: receive_all_def peer_ok_receive)

lemma pp_limit_receive [simp]: "pp_limit (snd (receive_new_cid sq rpt cid tok p)) = pp_limit p"
  by (simp add: receive_new_cid_def Let_def)

lemma pp_limit_receive_all [simp]: "pp_limit (receive_all fs p) = pp_limit p"
  by (induction fs arbitrary: p) (simp_all add: receive_all_def case_prod_unfold)



text \<open>
  Without that assumption the limit does not hold: an ID below the threshold is accepted,
  is not counted against the limit, and is never retired.
\<close>

lemma peer_pool_limit_exceeded:
  "length (pp_active (receive_all [(5, 5, [5], []), (1, 0, [1], []), (6, 5, [6], [])] (PeerCidPool_new [0] 2))) = 3"
  by (simp add: receive_all_def receive_new_cid_def PeerCidPool_new_def)

text \<open>The handshake ID has the all-zero token, which a datagram can carry.\<close>

lemma zero_token_matches_new_pool:
  "matches_stateless_reset (replicate 16 0) (PeerCidPool_new cid limit)"
  by (simp add: matches_stateless_reset_def PeerCidPool_new_def)

end
