(* ===== verification/Params_Codec.thy ===== *)
theory Params_Codec
  imports Coding Core_Types
begin

text \<open>
  \<^verbatim>\<open>oxiquic-transport/src/params_codec.rs\<close>: the TLS encoding of transport parameters.
\<close>

definition ID_MAX_IDLE_TIMEOUT :: nat where "ID_MAX_IDLE_TIMEOUT = 0x01"
definition ID_MAX_UDP_PAYLOAD_SIZE :: nat where "ID_MAX_UDP_PAYLOAD_SIZE = 0x03"
definition ID_INITIAL_MAX_DATA :: nat where "ID_INITIAL_MAX_DATA = 0x04"
definition ID_INITIAL_MAX_STREAM_DATA_BIDI_LOCAL :: nat where "ID_INITIAL_MAX_STREAM_DATA_BIDI_LOCAL = 0x05"
definition ID_INITIAL_MAX_STREAM_DATA_BIDI_REMOTE :: nat where "ID_INITIAL_MAX_STREAM_DATA_BIDI_REMOTE = 0x06"
definition ID_INITIAL_MAX_STREAM_DATA_UNI :: nat where "ID_INITIAL_MAX_STREAM_DATA_UNI = 0x07"
definition ID_INITIAL_MAX_STREAMS_BIDI :: nat where "ID_INITIAL_MAX_STREAMS_BIDI = 0x08"
definition ID_INITIAL_MAX_STREAMS_UNI :: nat where "ID_INITIAL_MAX_STREAMS_UNI = 0x09"
definition ID_ACK_DELAY_EXPONENT :: nat where "ID_ACK_DELAY_EXPONENT = 0x0a"
definition ID_MAX_ACK_DELAY :: nat where "ID_MAX_ACK_DELAY = 0x0b"
definition ID_DISABLE_ACTIVE_MIGRATION :: nat where "ID_DISABLE_ACTIVE_MIGRATION = 0x0c"
definition ID_ACTIVE_CONNECTION_ID_LIMIT :: nat where "ID_ACTIVE_CONNECTION_ID_LIMIT = 0x0e"
definition ID_MAX_DATAGRAM_FRAME_SIZE :: nat where "ID_MAX_DATAGRAM_FRAME_SIZE = 0x20"

lemmas param_ids =
  ID_MAX_IDLE_TIMEOUT_def ID_MAX_UDP_PAYLOAD_SIZE_def ID_INITIAL_MAX_DATA_def
  ID_INITIAL_MAX_STREAM_DATA_BIDI_LOCAL_def ID_INITIAL_MAX_STREAM_DATA_BIDI_REMOTE_def
  ID_INITIAL_MAX_STREAM_DATA_UNI_def ID_INITIAL_MAX_STREAMS_BIDI_def ID_INITIAL_MAX_STREAMS_UNI_def
  ID_ACK_DELAY_EXPONENT_def ID_MAX_ACK_DELAY_def ID_DISABLE_ACTIVE_MIGRATION_def
  ID_ACTIVE_CONNECTION_ID_LIMIT_def ID_MAX_DATAGRAM_FRAME_SIZE_def

section \<open>Encoding\<close>

definition put_varint_param :: "nat \<Rightarrow> u64 \<Rightarrow> bytes" where
  "put_varint_param param v = put_varint param @ put_varint (varint_size v) @ put_varint v"

definition put_unless_zero :: "nat \<Rightarrow> u64 \<Rightarrow> bytes" where
  "put_unless_zero param v = (if v \<noteq> 0 then put_varint_param param v else [])"

definition encode_transport_params :: "TransportParams \<Rightarrow> bytes" where
  "encode_transport_params p =
     put_unless_zero ID_MAX_IDLE_TIMEOUT (max_idle_timeout_ms p)
     @ put_varint_param ID_MAX_UDP_PAYLOAD_SIZE (max_udp_payload_size p)
     @ put_unless_zero ID_INITIAL_MAX_DATA (initial_max_data p)
     @ put_unless_zero ID_INITIAL_MAX_STREAM_DATA_BIDI_LOCAL (initial_max_stream_data_bidi_local p)
     @ put_unless_zero ID_INITIAL_MAX_STREAM_DATA_BIDI_REMOTE (initial_max_stream_data_bidi_remote p)
     @ put_unless_zero ID_INITIAL_MAX_STREAM_DATA_UNI (initial_max_stream_data_uni p)
     @ put_unless_zero ID_INITIAL_MAX_STREAMS_BIDI (initial_max_streams_bidi p)
     @ put_unless_zero ID_INITIAL_MAX_STREAMS_UNI (initial_max_streams_uni p)
     @ put_varint_param ID_ACK_DELAY_EXPONENT (ack_delay_exponent p)
     @ put_varint_param ID_MAX_ACK_DELAY (max_ack_delay_ms p)
     @ put_varint_param ID_ACTIVE_CONNECTION_ID_LIMIT (active_connection_id_limit p)
     @ (if disable_active_migration p then put_varint ID_DISABLE_ACTIVE_MIGRATION @ put_varint 0 else [])
     @ put_unless_zero ID_MAX_DATAGRAM_FRAME_SIZE (max_datagram_frame_size p)"

section \<open>Decoding\<close>

definition param_error :: "string \<Rightarrow> OxiQuicError" where
  "param_error reason = E_TransportError TransportParameterError None reason"

definition scalar :: "bytes \<Rightarrow> OxiQuicError + u64" where
  "scalar v =
     bind_result (map_err (\<lambda>_. param_error ''transport parameter value is not a varint'')
         (get_varint (Buf_new v)))
       (\<lambda>(x, inner). if \<not> buf_is_empty inner
          then Inl (param_error ''trailing bytes in transport parameter value'') else Inr x)"

definition set_param :: "nat \<Rightarrow> bytes \<Rightarrow> TransportParams \<Rightarrow> OxiQuicError + TransportParams" where
  "set_param param v p =
     (if param = ID_MAX_IDLE_TIMEOUT
      then bind_result (scalar v) (\<lambda>x. Inr (p\<lparr>max_idle_timeout_ms := x\<rparr>))
      else if param = ID_MAX_UDP_PAYLOAD_SIZE
      then bind_result (scalar v) (\<lambda>x. Inr (p\<lparr>max_udp_payload_size := x\<rparr>))
      else if param = ID_INITIAL_MAX_DATA
      then bind_result (scalar v) (\<lambda>x. Inr (p\<lparr>initial_max_data := x\<rparr>))
      else if param = ID_INITIAL_MAX_STREAM_DATA_BIDI_LOCAL
      then bind_result (scalar v) (\<lambda>x. Inr (p\<lparr>initial_max_stream_data_bidi_local := x\<rparr>))
      else if param = ID_INITIAL_MAX_STREAM_DATA_BIDI_REMOTE
      then bind_result (scalar v) (\<lambda>x. Inr (p\<lparr>initial_max_stream_data_bidi_remote := x\<rparr>))
      else if param = ID_INITIAL_MAX_STREAM_DATA_UNI
      then bind_result (scalar v) (\<lambda>x. Inr (p\<lparr>initial_max_stream_data_uni := x\<rparr>))
      else if param = ID_INITIAL_MAX_STREAMS_BIDI
      then bind_result (scalar v) (\<lambda>x. Inr (p\<lparr>initial_max_streams_bidi := x\<rparr>))
      else if param = ID_INITIAL_MAX_STREAMS_UNI
      then bind_result (scalar v) (\<lambda>x. Inr (p\<lparr>initial_max_streams_uni := x\<rparr>))
      else if param = ID_ACK_DELAY_EXPONENT
      then bind_result (scalar v) (\<lambda>x. Inr (p\<lparr>ack_delay_exponent := min x 255\<rparr>))
      else if param = ID_MAX_ACK_DELAY
      then bind_result (scalar v) (\<lambda>x. Inr (p\<lparr>max_ack_delay_ms := x\<rparr>))
      else if param = ID_ACTIVE_CONNECTION_ID_LIMIT
      then bind_result (scalar v) (\<lambda>x. Inr (p\<lparr>active_connection_id_limit := x\<rparr>))
      else if param = ID_DISABLE_ACTIVE_MIGRATION
      then if v \<noteq> [] then Inl (param_error ''disable_active_migration must be zero-length'')
           else Inr (p\<lparr>disable_active_migration := True\<rparr>)
      else if param = ID_MAX_DATAGRAM_FRAME_SIZE
      then bind_result (scalar v) (\<lambda>x. Inr (p\<lparr>max_datagram_frame_size := x\<rparr>))
      else Inr p)"

definition lift_d :: "'e + 'a \<Rightarrow> ('e, 'a) decoder" where
  "lift_d r = (case r of Inl e \<Rightarrow> fail_d e | Inr x \<Rightarrow> return_d x)"

definition decode_param :: "TransportParams \<Rightarrow> (OxiQuicError, TransportParams) decoder" where
  "decode_param p =
     bind_d (map_err_d (\<lambda>_. param_error ''truncated transport parameter id'') get_varint) (\<lambda>param.
     bind_d (map_err_d (\<lambda>_. param_error ''truncated transport parameter length'') get_varint) (\<lambda>len.
     bind_d (map_err_d (\<lambda>_. param_error ''transport parameter length overruns buffer'') (get_bytes len))
       (\<lambda>v. lift_d (set_param param v p))))"

text \<open>A decoder never gives bytes back, and a varint takes at least one.\<close>

definition forward :: "('e, 'a) decoder \<Rightarrow> bool" where
  "forward p \<longleftrightarrow> (\<forall>b x b'. p b = Inr (x, b') \<longrightarrow> remaining b' \<le> remaining b)"

lemma forward_bind:
  assumes "forward p" and "\<And>x. forward (f x)"
  shows "forward (bind_d p f)"
  unfolding forward_def
proof (intro allI impI)
  fix b y b'
  assume "bind_d p f b = Inr (y, b')"
  then obtain x b1 where "p b = Inr (x, b1)" "f x b1 = Inr (y, b')" by (rule bind_d_InrE)
  then show "remaining b' \<le> remaining b" using assms unfolding forward_def by (meson order_trans)
qed

lemma forward_get_u8: "forward get_u8"
  by (auto simp add: forward_def get_u8_def remaining_def split: if_splits)

lemma forward_get_bytes: "forward (get_bytes n)"
  by (auto simp add: forward_def get_bytes_def remaining_def checked_add_def split: if_splits)

lemma forward_return: "forward (return_d x)" "forward (fail_d e)"
  by (simp_all add: forward_def return_d_def fail_d_def)

lemma forward_map_err: "forward p \<Longrightarrow> forward (map_err_d g p)"
  by (simp add: forward_def map_err_d_Inr_iff)

lemma forward_varint_loop: "forward (get_varint_loop n v)"
  by (induction n v rule: get_varint_loop.induct) (simp_all add: forward_return forward_bind forward_get_u8)

lemma forward_get_varint: "forward get_varint"
  unfolding get_varint_def Let_def by (intro forward_bind forward_get_u8 forward_varint_loop)

lemma forward_lift: "forward (lift_d r)"
  by (cases r) (simp_all add: lift_d_def forward_return)

lemma get_varint_strict:
  assumes "get_varint b = Inr (v, b')"
  shows "remaining b' < remaining b"
proof -
  obtain first b1 n v0 where "get_u8 b = Inr (first, b1)" "get_varint_loop n v0 b1 = Inr (v, b')"
    using assms unfolding get_varint_def Let_def by (rule bind_d_InrE)
  then show ?thesis
    using forward_varint_loop [of n v0]
    by (fastforce simp add: forward_def get_u8_def remaining_def split: if_splits)
qed

lemma forward_param_value:
  "forward (bind_d (map_err_d g get_varint) (\<lambda>len. bind_d (map_err_d h (get_bytes len)) (\<lambda>v. lift_d (r v))))"
  by (intro forward_bind forward_map_err forward_get_varint forward_get_bytes forward_lift)

lemma strict_bind:
  assumes "bind_d p f b = Inr (y, b')" and "\<And>x b1. p b = Inr (x, b1) \<Longrightarrow> remaining b1 < remaining b"
    and "\<And>x. forward (f x)"
  shows "remaining b' < remaining b"
proof -
  obtain x b1 where "p b = Inr (x, b1)" "f x b1 = Inr (y, b')"
    using assms(1) by (rule bind_d_InrE)
  then show ?thesis using assms(2) assms(3) [of x] unfolding forward_def by (meson order_le_less_trans)
qed

lemma decode_param_progress: "decode_param p b = Inr (q, b') \<Longrightarrow> remaining b' < remaining b"
  unfolding decode_param_def
  by (erule strict_bind) (simp_all add: map_err_d_Inr_iff get_varint_strict forward_param_value)

function decode_params_loop :: "TransportParams \<Rightarrow> Buf \<Rightarrow> OxiQuicError + TransportParams" where
  "decode_params_loop p b =
     (if buf_is_empty b then Inr p
      else case decode_param p b of
        Inl e \<Rightarrow> Inl e
      | Inr (q, b') \<Rightarrow> decode_params_loop q b')"
  by pat_completeness auto
termination
  by (relation "measure (\<lambda>(_, b). remaining b)") (auto intro: decode_param_progress)

declare decode_params_loop.simps [simp del]

definition decode_transport_params :: "bytes \<Rightarrow> OxiQuicError + TransportParams" where
  "decode_transport_params bs = decode_params_loop TransportParams_default (Buf_new bs)"

section \<open>Round trip\<close>

text \<open>\<open>loops enc p q\<close>: with \<open>enc\<close> next in the input, the loop goes from \<open>p\<close> to \<open>q\<close>.\<close>

definition loops :: "bytes \<Rightarrow> TransportParams \<Rightarrow> TransportParams \<Rightarrow> bool" where
  "loops enc p q \<longleftrightarrow>
     (\<forall>b tail. buf_ok b \<longrightarrow> rest b = enc @ tail \<longrightarrow>
        decode_params_loop p b = decode_params_loop q (advance (length enc) b))"

lemma loops_Nil: "loops [] p p"
  by (simp add: loops_def)

lemma loops_append:
  assumes "loops e1 p q" and "loops e2 q r"
  shows "loops (e1 @ e2) p r"
  unfolding loops_def
proof (intro allI impI)
  fix b tail
  assume b: "buf_ok b" "rest b = (e1 @ e2) @ tail"
  then have "buf_ok (advance (length e1) b)" "rest (advance (length e1) b) = e2 @ tail"
    by (auto intro: buf_ok_advance rest_advance)
  then show "decode_params_loop p b = decode_params_loop r (advance (length (e1 @ e2)) b)"
    using assms b by (simp add: loops_def)
qed

lemma loops_param:
  assumes "reads (decode_param p) enc q" and "enc \<noteq> []"
  shows "loops enc p q"
  unfolding loops_def
proof (intro allI impI)
  fix b tail
  assume b: "buf_ok b" "rest b = enc @ tail"
  then have "\<not> buf_is_empty b" using assms(2) length_rest [OF b(1)] by (cases enc) (auto simp add: buf_is_empty_def)
  then show "decode_params_loop p b = decode_params_loop q (advance (length enc) b)"
    using assms(1) b by (simp add: decode_params_loop.simps [of p b] reads_def)
qed

lemma put_varint_nonempty [simp]: "put_varint v \<noteq> []"
  using length_put_varint [of v] by (auto simp add: varint_size_def split: if_splits)

lemma scalar_put_varint: "v \<le> VARINT_MAX \<Longrightarrow> scalar (put_varint v) = Inr v"
  using varint.round_trip [of v "[]"] length_put_varint_le [of v]
  by (simp add: scalar_def buf_is_empty_def remaining_def advance_def Buf_new_def U64_MAX_def)

lemma reads_lift: "r = Inr x \<Longrightarrow> reads (lift_d r) [] x"
  by (simp add: lift_d_def reads_return)

lemma reads_decode_param:
  assumes "set_param param (put_varint v) p = Inr q" and "param \<le> VARINT_MAX" and "v \<le> VARINT_MAX"
  shows "reads (decode_param p) (put_varint_param param v) q"
proof -
  have len: "varint_size v = length (put_varint v)" using assms(3) by (simp add: length_put_varint)
  have "length (put_varint v) \<le> VARINT_MAX"
    using length_put_varint_le [of v] by (simp add: VARINT_MAX_def)
  then have "reads (decode_param p) (put_varint param @ put_varint (length (put_varint v)) @ put_varint v @ []) q"
    unfolding decode_param_def
    by (intro reads_bind [where x = param] reads_bind [where x = "length (put_varint v)"]
        reads_bind [where x = "put_varint v"] reads_map_err varint.enc_reads reads_get_bytes reads_lift assms)
  then show ?thesis by (simp add: put_varint_param_def len)
qed

lemma loops_put_param:
  assumes "set_param param (put_varint v) p = Inr q" and "param \<le> 0x20" and "v \<le> VARINT_MAX"
  shows "loops (put_varint_param param v) p q"
  using assms by (intro loops_param reads_decode_param) (auto simp add: put_varint_param_def VARINT_MAX_def)

lemma loops_unless_zero:
  assumes "set_param param (put_varint v) p = Inr q" and "param \<le> 0x20" and "v \<le> VARINT_MAX"
    and "v = 0 \<Longrightarrow> p = q"
  shows "loops (put_unless_zero param v) p q"
  using assms by (simp add: put_unless_zero_def loops_put_param loops_Nil)

lemma loops_migration_flag:
  "loops (if d then put_varint ID_DISABLE_ACTIVE_MIGRATION @ put_varint 0 else []) p
     (if d then p\<lparr>disable_active_migration := True\<rparr> else p)"
proof (cases d)
  case True
  have "reads (decode_param p) (put_varint ID_DISABLE_ACTIVE_MIGRATION @ put_varint 0 @ [] @ [])
      (p\<lparr>disable_active_migration := True\<rparr>)"
    unfolding decode_param_def
    by (intro reads_bind [where x = ID_DISABLE_ACTIVE_MIGRATION] reads_bind [where x = 0]
        reads_bind [where x = "[]"] reads_map_err varint.enc_reads reads_get_bytes_len reads_lift)
      (simp_all add: set_param_def param_ids VARINT_MAX_def)
  then show ?thesis using True by (simp add: loops_param)
qed (simp add: loops_Nil)

lemma set_param_varint:
  assumes "v \<le> VARINT_MAX"
  shows
    "set_param ID_MAX_IDLE_TIMEOUT (put_varint v) p = Inr (p\<lparr>max_idle_timeout_ms := v\<rparr>)"
    "set_param ID_MAX_UDP_PAYLOAD_SIZE (put_varint v) p = Inr (p\<lparr>max_udp_payload_size := v\<rparr>)"
    "set_param ID_INITIAL_MAX_DATA (put_varint v) p = Inr (p\<lparr>initial_max_data := v\<rparr>)"
    "set_param ID_INITIAL_MAX_STREAM_DATA_BIDI_LOCAL (put_varint v) p = Inr (p\<lparr>initial_max_stream_data_bidi_local := v\<rparr>)"
    "set_param ID_INITIAL_MAX_STREAM_DATA_BIDI_REMOTE (put_varint v) p = Inr (p\<lparr>initial_max_stream_data_bidi_remote := v\<rparr>)"
    "set_param ID_INITIAL_MAX_STREAM_DATA_UNI (put_varint v) p = Inr (p\<lparr>initial_max_stream_data_uni := v\<rparr>)"
    "set_param ID_INITIAL_MAX_STREAMS_BIDI (put_varint v) p = Inr (p\<lparr>initial_max_streams_bidi := v\<rparr>)"
    "set_param ID_INITIAL_MAX_STREAMS_UNI (put_varint v) p = Inr (p\<lparr>initial_max_streams_uni := v\<rparr>)"
    "set_param ID_ACK_DELAY_EXPONENT (put_varint v) p = Inr (p\<lparr>ack_delay_exponent := min v 255\<rparr>)"
    "set_param ID_MAX_ACK_DELAY (put_varint v) p = Inr (p\<lparr>max_ack_delay_ms := v\<rparr>)"
    "set_param ID_ACTIVE_CONNECTION_ID_LIMIT (put_varint v) p = Inr (p\<lparr>active_connection_id_limit := v\<rparr>)"
    "set_param ID_MAX_DATAGRAM_FRAME_SIZE (put_varint v) p = Inr (p\<lparr>max_datagram_frame_size := v\<rparr>)"
  by (simp_all add: set_param_def param_ids scalar_put_varint [OF assms])

lemma loops_mandatory:
  assumes "v \<le> VARINT_MAX"
  shows
    "loops (put_varint_param ID_MAX_UDP_PAYLOAD_SIZE v) p (p\<lparr>max_udp_payload_size := v\<rparr>)"
    "loops (put_varint_param ID_ACK_DELAY_EXPONENT v) p (p\<lparr>ack_delay_exponent := min v 255\<rparr>)"
    "loops (put_varint_param ID_MAX_ACK_DELAY v) p (p\<lparr>max_ack_delay_ms := v\<rparr>)"
    "loops (put_varint_param ID_ACTIVE_CONNECTION_ID_LIMIT v) p (p\<lparr>active_connection_id_limit := v\<rparr>)"
  by (intro loops_put_param set_param_varint [OF assms] assms, simp add: param_ids)+

lemma loops_optional:
  assumes "v \<le> VARINT_MAX"
  shows
    "max_idle_timeout_ms p = 0 \<Longrightarrow> loops (put_unless_zero ID_MAX_IDLE_TIMEOUT v) p (p\<lparr>max_idle_timeout_ms := v\<rparr>)"
    "initial_max_data p = 0 \<Longrightarrow> loops (put_unless_zero ID_INITIAL_MAX_DATA v) p (p\<lparr>initial_max_data := v\<rparr>)"
    "initial_max_stream_data_bidi_local p = 0 \<Longrightarrow> loops (put_unless_zero ID_INITIAL_MAX_STREAM_DATA_BIDI_LOCAL v) p (p\<lparr>initial_max_stream_data_bidi_local := v\<rparr>)"
    "initial_max_stream_data_bidi_remote p = 0 \<Longrightarrow> loops (put_unless_zero ID_INITIAL_MAX_STREAM_DATA_BIDI_REMOTE v) p (p\<lparr>initial_max_stream_data_bidi_remote := v\<rparr>)"
    "initial_max_stream_data_uni p = 0 \<Longrightarrow> loops (put_unless_zero ID_INITIAL_MAX_STREAM_DATA_UNI v) p (p\<lparr>initial_max_stream_data_uni := v\<rparr>)"
    "initial_max_streams_bidi p = 0 \<Longrightarrow> loops (put_unless_zero ID_INITIAL_MAX_STREAMS_BIDI v) p (p\<lparr>initial_max_streams_bidi := v\<rparr>)"
    "initial_max_streams_uni p = 0 \<Longrightarrow> loops (put_unless_zero ID_INITIAL_MAX_STREAMS_UNI v) p (p\<lparr>initial_max_streams_uni := v\<rparr>)"
    "max_datagram_frame_size p = 0 \<Longrightarrow> loops (put_unless_zero ID_MAX_DATAGRAM_FRAME_SIZE v) p (p\<lparr>max_datagram_frame_size := v\<rparr>)"
  by (rule loops_unless_zero [OF _ _ assms]; simp add: set_param_varint [OF assms] param_ids set_param_def scalar_put_varint [OF assms])+

definition params_wf :: "TransportParams \<Rightarrow> bool" where
  "params_wf p \<longleftrightarrow>
     max_idle_timeout_ms p \<le> VARINT_MAX
     \<and> max_udp_payload_size p \<le> VARINT_MAX
     \<and> initial_max_data p \<le> VARINT_MAX
     \<and> initial_max_stream_data_bidi_local p \<le> VARINT_MAX
     \<and> initial_max_stream_data_bidi_remote p \<le> VARINT_MAX
     \<and> initial_max_stream_data_uni p \<le> VARINT_MAX
     \<and> initial_max_streams_bidi p \<le> VARINT_MAX
     \<and> initial_max_streams_uni p \<le> VARINT_MAX
     \<and> max_ack_delay_ms p \<le> VARINT_MAX
     \<and> active_connection_id_limit p \<le> VARINT_MAX
     \<and> max_datagram_frame_size p \<le> VARINT_MAX
     \<and> ack_delay_exponent p \<le> 255"

lemma loops_encode:
  assumes "params_wf p"
  shows "loops (encode_transport_params p) TransportParams_default p"
proof -
  define q where "q = TransportParams_default\<lparr>max_idle_timeout_ms := max_idle_timeout_ms p, max_udp_payload_size := max_udp_payload_size p, initial_max_data := initial_max_data p, initial_max_stream_data_bidi_local := initial_max_stream_data_bidi_local p, initial_max_stream_data_bidi_remote := initial_max_stream_data_bidi_remote p, initial_max_stream_data_uni := initial_max_stream_data_uni p, initial_max_streams_bidi := initial_max_streams_bidi p, initial_max_streams_uni := initial_max_streams_uni p, ack_delay_exponent := min (ack_delay_exponent p) 255, max_ack_delay_ms := max_ack_delay_ms p, active_connection_id_limit := active_connection_id_limit p\<rparr>"
  have exp: "ack_delay_exponent p \<le> VARINT_MAX" using assms by (simp add: params_wf_def VARINT_MAX_def)
  note bounds = assms [unfolded params_wf_def]
  have "loops (encode_transport_params p) TransportParams_default
      ((if disable_active_migration p then q\<lparr>disable_active_migration := True\<rparr> else q)
        \<lparr>max_datagram_frame_size := max_datagram_frame_size p\<rparr>)"
    unfolding encode_transport_params_def q_def
    by (rule loops_append loops_mandatory loops_optional loops_migration_flag
        | simp add: TransportParams_default_def bounds exp)+
  moreover have "(if disable_active_migration p then q\<lparr>disable_active_migration := True\<rparr> else q)
        \<lparr>max_datagram_frame_size := max_datagram_frame_size p\<rparr> = p"
    using assms by (cases p) (auto simp add: q_def params_wf_def TransportParams_default_def)
  ultimately show ?thesis by simp
qed

lemma length_put_param:
  "length (put_varint_param param v) \<le> 24" "length (put_unless_zero param v) \<le> 24"
  "length (if d then put_varint a @ put_varint b else []) \<le> 24"
  using length_put_varint_le [of param] length_put_varint_le [of "varint_size v"] length_put_varint_le [of v]
    length_put_varint_le [of a] length_put_varint_le [of b]
  by (simp_all add: put_varint_param_def put_unless_zero_def)

lemma length_append_le: "length x \<le> m \<Longrightarrow> length y \<le> n \<Longrightarrow> length (x @ y) \<le> m + n"
  by simp

lemma length_encode: "length (encode_transport_params p) \<le> U64_MAX"
proof -
  have "length (encode_transport_params p) \<le> 24 + (24 + (24 + (24 + (24 + (24 + (24 + (24 + (24 + (24 + (24 + (24 + (24))))))))))))"
    unfolding encode_transport_params_def by (intro length_append_le length_put_param)
  then show ?thesis by (simp add: U64_MAX_def)
qed

section \<open>Errors\<close>

lemma set_param_error: "set_param param v p = Inl e \<Longrightarrow> \<exists>r. e = param_error r"
  by (auto simp add: set_param_def scalar_def bind_result_def map_err_def split: if_splits sum.splits)

lemma decode_param_error:
  assumes "decode_param p b = Inl e"
  shows "\<exists>r. e = param_error r"
proof -
  have *: "\<exists>r. e = param_error r" if "lift_d (set_param param v p) b' = Inl e" for param v b'
    using that set_param_error by (auto simp add: lift_d_def fail_d_def return_d_def split: sum.splits)
  show ?thesis
    using assms unfolding decode_param_def bind_d_def map_err_d_def map_err_def
    by (simp split: sum.splits prod.splits) (use * in blast)+
qed

lemma decode_params_loop_error: "decode_params_loop p b = Inl e \<Longrightarrow> \<exists>r. e = param_error r"
proof (induction p b rule: decode_params_loop.induct)
  case (1 p b)
  show ?case
    using 1(2) 1(1) decode_param_error [of p b]
    by (subst (asm) decode_params_loop.simps) (auto split: if_splits sum.splits)
qed

section \<open>Properties\<close>

text \<open>
  C38: transport parameters round trip.  Parameters whose values fit a varint, with an
  exponent that fits a byte, are decoded back exactly from their encoding, parameters
  left out of it included.
\<close>

theorem transport_params_roundtrip:
  assumes "params_wf p"
  shows "decode_transport_params (encode_transport_params p) = Inr p"
proof -
  let ?b = "Buf_new (encode_transport_params p)"
  have "decode_params_loop TransportParams_default ?b =
      decode_params_loop p (advance (length (encode_transport_params p)) ?b)"
    using loops_encode [OF assms] length_encode [of p] unfolding loops_def
    by (metis append_Nil2 buf_ok_new rest_new)
  also have "\<dots> = Inr p"
    by (simp add: decode_params_loop.simps buf_is_empty_def remaining_def advance_def Buf_new_def)
  finally show ?thesis by (simp add: decode_transport_params_def)
qed

theorem transport_params_roundtrip_witness:
  "decode_transport_params (encode_transport_params
     (TransportParams_default\<lparr>initial_max_data := 1048576, disable_active_migration := True\<rparr>)) =
   Inr (TransportParams_default\<lparr>initial_max_data := 1048576, disable_active_migration := True\<rparr>)"
  by (rule transport_params_roundtrip)
    (simp add: params_wf_def TransportParams_default_def VARINT_MAX_def DEFAULT_MAX_UDP_PAYLOAD_SIZE_def
      DEFAULT_ACK_DELAY_EXPONENT_def DEFAULT_MAX_ACK_DELAY_MS_def DEFAULT_ACTIVE_CONNECTION_ID_LIMIT_def)

text \<open>
  Malformed transport parameters are always answered with
  \<^verbatim>\<open>TRANSPORT_PARAMETER_ERROR\<close>, for every byte string.
\<close>

theorem transport_params_error_code:
  assumes "decode_transport_params bs = Inl e"
  shows "\<exists>reason. e = E_TransportError TransportParameterError None reason"
  using decode_params_loop_error assms by (simp add: decode_transport_params_def param_error_def)

theorem transport_params_error_code_witness:
  "\<exists>reason. param_error ''truncated transport parameter id'' = E_TransportError TransportParameterError None reason"
  by (rule transport_params_error_code [of "[0x40]"])
    (simp add: decode_transport_params_def decode_params_loop.simps buf_is_empty_def remaining_def Buf_new_def
      decode_param_def bind_d_def map_err_d_def get_varint_def get_u8_def)

end
