(* ===== verification/Conn_Streams.thy ===== *)
theory Conn_Streams
  imports Streams Flow_Control Frames Sent_Packets
begin

text \<open>
  The streams of a connection: the stream tables, flow control and pending stream frames of
  \<^verbatim>\<open>Connection\<close>, the stream API of \<^verbatim>\<open>connection/streams.rs\<close>, the stream frames of
  \<^verbatim>\<open>connection/recv.rs\<close> and the frame writers of \<^verbatim>\<open>connection/send.rs\<close> (all under
  \<^verbatim>\<open>oxiquic-transport/src\<close>).  Writers append to the payload built so far.  Numbers in error texts
  are left out.
\<close>

section \<open>State\<close>

datatype Role = ClientRole | ServerRole

record ConnStreams =
  role :: Role
  peer_params :: "TransportParams option"
  send_streams :: "SendStream bmap"
  recv_streams :: "RecvStream bmap"
  next_bidi_index :: u64
  next_uni_index :: u64
  readable :: "StreamId list"
  new_peer_streams :: "StreamId list"
  send_flow :: SendFlowControl
  recv_flow :: RecvFlowControl
  stream_send_flow :: "StreamSendFlow bmap"
  stream_recv_flow :: "StreamRecvFlow bmap"
  local_initial_max_stream_data :: u64
  pending_max_data :: "u64 option"
  pending_max_stream_data :: "u64 bmap"
  pending_data_blocked :: "u64 option"
  pending_stream_data_blocked :: "u64 bmap"
  pending_reset_streams :: "(u64 \<times> u64) bmap"
  pending_stop_sending :: "u64 bmap"
  peer_max_streams_bidi :: u64
  peer_max_streams_uni :: u64
  local_max_streams_bidi :: u64
  local_max_streams_uni :: u64
  sent_max_streams_bidi :: u64
  sent_max_streams_uni :: u64
  closed_peer_bidi :: u64
  closed_peer_uni :: u64
  pending_max_streams_bidi :: "u64 option"
  pending_max_streams_uni :: "u64 option"
  pending_streams_blocked_bidi :: "u64 option"
  pending_streams_blocked_uni :: "u64 option"

definition streams_new :: "Role \<Rightarrow> TransportParams \<Rightarrow> ConnStreams" where
  "streams_new r p =
     \<lparr>role = r, peer_params = None, send_streams = [], recv_streams = [], next_bidi_index = 0,
      next_uni_index = 0, readable = [], new_peer_streams = [], send_flow = SendFlowControl_new 0,
      recv_flow = RecvFlowControl_new (initial_max_data p), stream_send_flow = [], stream_recv_flow = [],
      local_initial_max_stream_data = initial_max_stream_data_bidi_remote p, pending_max_data = None,
      pending_max_stream_data = [], pending_data_blocked = None, pending_stream_data_blocked = [],
      pending_reset_streams = [], pending_stop_sending = [], peer_max_streams_bidi = 0,
      peer_max_streams_uni = 0, local_max_streams_bidi = initial_max_streams_bidi p,
      local_max_streams_uni = initial_max_streams_uni p, sent_max_streams_bidi = initial_max_streams_bidi p,
      sent_max_streams_uni = initial_max_streams_uni p, closed_peer_bidi = 0, closed_peer_uni = 0,
      pending_max_streams_bidi = None, pending_max_streams_uni = None,
      pending_streams_blocked_bidi = None, pending_streams_blocked_uni = None\<rparr>"

definition own_initiator :: "ConnStreams \<Rightarrow> Initiator" where
  "own_initiator c = (case role c of ClientRole \<Rightarrow> Client | ServerRole \<Rightarrow> Server)"

definition peer_initial_stream_limit :: "ConnStreams \<Rightarrow> u64" where
  "peer_initial_stream_limit c =
     (case peer_params c of Some p \<Rightarrow> initial_max_stream_data_bidi_remote p | None \<Rightarrow> 0)"

text \<open>\<open>apply_peer_params\<close>, with the assignment of \<open>peer_params\<close> its caller makes next.\<close>

definition streams_apply_peer_params :: "TransportParams \<Rightarrow> ConnStreams \<Rightarrow> ConnStreams" where
  "streams_apply_peer_params p c =
     c\<lparr>send_flow := on_max_data (initial_max_data p) (send_flow c),
       stream_send_flow :=
         map (\<lambda>(k, f). (k, on_max_stream_data (initial_max_stream_data_bidi_remote p) f)) (stream_send_flow c),
       peer_max_streams_bidi := initial_max_streams_bidi p,
       peer_max_streams_uni := initial_max_streams_uni p,
       peer_params := Some p\<rparr>"

text \<open>
  The \<^verbatim>\<open>entry(id).or_insert\<close> calls on the send half of a stream and on its credit account.
\<close>

definition ensure_send :: "StreamId \<Rightarrow> ConnStreams \<Rightarrow> ConnStreams" where
  "ensure_send sid c = c\<lparr>send_streams := bmap_or_insert sid SendStream_new (send_streams c)\<rparr>"

definition ensure_flow :: "StreamId \<Rightarrow> ConnStreams \<Rightarrow> ConnStreams" where
  "ensure_flow sid c =
     c\<lparr>stream_send_flow :=
         bmap_or_insert sid (StreamSendFlow_new (peer_initial_stream_limit c)) (stream_send_flow c)\<rparr>"

section \<open>The stream API\<close>

definition open_bidi :: "ConnStreams \<Rightarrow> (OxiQuicError + StreamId) \<times> ConnStreams" where
  "open_bidi c =
     (if peer_max_streams_bidi c > 0 \<and> next_bidi_index c \<ge> peer_max_streams_bidi c
      then (Inl (E_Stream (''bidirectional stream limit reached ('' @ decimal (peer_max_streams_bidi c) @ '')'')),
            c\<lparr>pending_streams_blocked_bidi := Some (peer_max_streams_bidi c)\<rparr>)
      else
        let sid = StreamId_new (own_initiator c) Bidirectional (next_bidi_index c) in
        (Inr sid,
         c\<lparr>next_bidi_index := next_bidi_index c + 1,
           send_streams := bmap_insert sid SendStream_new (send_streams c),
           recv_streams := bmap_insert sid RecvStream_new (recv_streams c),
           stream_send_flow :=
             bmap_insert sid (StreamSendFlow_new (peer_initial_stream_limit c)) (stream_send_flow c),
           stream_recv_flow :=
             bmap_insert sid (StreamRecvFlow_new (local_initial_max_stream_data c)) (stream_recv_flow c)\<rparr>))"

definition open_uni :: "ConnStreams \<Rightarrow> (OxiQuicError + StreamId) \<times> ConnStreams" where
  "open_uni c =
     (if peer_max_streams_uni c > 0 \<and> next_uni_index c \<ge> peer_max_streams_uni c
      then (Inl (E_Stream (''unidirectional stream limit reached ('' @ decimal (peer_max_streams_uni c) @ '')'')),
            c\<lparr>pending_streams_blocked_uni := Some (peer_max_streams_uni c)\<rparr>)
      else
        let sid = StreamId_new (own_initiator c) Unidirectional (next_uni_index c) in
        (Inr sid,
         c\<lparr>next_uni_index := next_uni_index c + 1,
           send_streams := bmap_insert sid SendStream_new (send_streams c),
           stream_send_flow :=
             bmap_insert sid (StreamSendFlow_new (peer_initial_stream_limit c)) (stream_send_flow c)\<rparr>))"

definition poll_new_peer_stream :: "ConnStreams \<Rightarrow> StreamId option \<times> ConnStreams" where
  "poll_new_peer_stream c =
     (case new_peer_streams c of
        [] \<Rightarrow> (None, c)
      | sid # rest_ids \<Rightarrow> (Some sid, c\<lparr>new_peer_streams := rest_ids\<rparr>))"

definition send_stream :: "StreamId \<Rightarrow> bytes \<Rightarrow> bool \<Rightarrow> ConnStreams \<Rightarrow> (OxiQuicError + unit) \<times> ConnStreams" where
  "send_stream sid data fin c =
     (case bmap_get sid (send_streams c) of
        None \<Rightarrow> (Inl (E_Stream (''unknown stream '' @ stream_text sid)), c)
      | Some s \<Rightarrow> (Inr (), c\<lparr>send_streams := bmap_insert sid (ss_write data fin s) (send_streams c)\<rparr>))"

definition read_stream :: "StreamId \<Rightarrow> ConnStreams \<Rightarrow> (OxiQuicError + bytes \<times> bool) \<times> ConnStreams" where
  "read_stream sid c =
     (case bmap_get sid (recv_streams c) of
        None \<Rightarrow> (Inl (E_Stream (''unknown stream '' @ stream_text sid)), c)
      | Some s \<Rightarrow>
          (case read_checked s of
             (Inl (StreamReset code), s') \<Rightarrow> (Inl (E_Stream (''stream '' @ stream_text sid @ '' was reset by peer: error_code='' @ decimal code)), c)
           | (Inl FinalSize, s') \<Rightarrow> (Inl (E_Stream (''stream '' @ stream_text sid @ '' final-size violation'')), c)
           | (Inr (data, fin), s') \<Rightarrow>
               let c = c\<lparr>recv_streams := bmap_insert sid s' (recv_streams c)\<rparr>;
                   consumed = length data
               in (Inr (data, fin),
                   if consumed > 0
                   then c\<lparr>recv_flow := rfc_on_data_consumed consumed (recv_flow c),
                          stream_recv_flow := bmap_update sid (srf_on_data_consumed consumed) (stream_recv_flow c)\<rparr>
                   else c)))"

definition poll_readable :: "ConnStreams \<Rightarrow> StreamId option \<times> ConnStreams" where
  "poll_readable c =
     (case readable c of
        [] \<Rightarrow> (None, c)
      | sid # rest_ids \<Rightarrow> (Some sid, c\<lparr>readable := rest_ids\<rparr>))"

definition reset_stream :: "StreamId \<Rightarrow> u64 \<Rightarrow> ConnStreams \<Rightarrow> (OxiQuicError + unit) \<times> ConnStreams" where
  "reset_stream sid error_code c =
     (case bmap_get sid (send_streams c) of
        None \<Rightarrow> (Inl (E_Stream (''unknown stream '' @ stream_text sid)), c)
      | Some s \<Rightarrow>
          (Inr (),
           c\<lparr>send_streams := bmap_insert sid (ss_reset error_code s) (send_streams c),
             pending_reset_streams :=
               bmap_insert sid (error_code, ss_final_size s) (pending_reset_streams c)\<rparr>))"

definition stop_sending :: "StreamId \<Rightarrow> u64 \<Rightarrow> ConnStreams \<Rightarrow> (OxiQuicError + unit) \<times> ConnStreams" where
  "stop_sending sid error_code c =
     (case bmap_get sid (recv_streams c) of
        None \<Rightarrow> (Inl (E_Stream (''unknown stream '' @ stream_text sid)), c)
      | Some _ \<Rightarrow> (Inr (), c\<lparr>pending_stop_sending := bmap_insert sid error_code (pending_stop_sending c)\<rparr>))"

definition has_pending_stream_data :: "ConnStreams \<Rightarrow> bool" where
  "has_pending_stream_data c = list_ex (\<lambda>(_, s). ss_has_pending s) (send_streams c)"

text \<open>\<open>queue_early_data\<close> once the handshake is complete, and the replay of rejected early data.\<close>

definition queue_on_stream :: "StreamId \<Rightarrow> bytes \<Rightarrow> bool \<Rightarrow> ConnStreams \<Rightarrow> ConnStreams" where
  "queue_on_stream sid data fin c =
     (let c = ensure_send sid c in c\<lparr>send_streams := bmap_update sid (ss_write data fin) (send_streams c)\<rparr>)"

section \<open>Receiving stream frames\<close>

definition peer_initiated :: "StreamId \<Rightarrow> ConnStreams \<Rightarrow> bool" where
  "peer_initiated sid c \<longleftrightarrow>
     (case role c of ClientRole \<Rightarrow> stream_initiator sid = Server | ServerRole \<Rightarrow> stream_initiator sid = Client)"

text \<open>The entries \<open>recv_stream\<close> creates before it looks at the frame.\<close>

definition ensure_stream :: "StreamId \<Rightarrow> ConnStreams \<Rightarrow> ConnStreams" where
  "ensure_stream sid c =
     (let is_new = (bmap_get sid (recv_streams c) = None);
          c = (if is_new \<and> peer_initiated sid c
               then c\<lparr>new_peer_streams := new_peer_streams c @ [sid]\<rparr> else c);
          c = (if stream_direction sid = Bidirectional then ensure_flow sid (ensure_send sid c) else c)
      in c\<lparr>stream_recv_flow :=
             bmap_or_insert sid (StreamRecvFlow_new (local_initial_max_stream_data c)) (stream_recv_flow c),
           recv_streams := bmap_or_insert sid RecvStream_new (recv_streams c)\<rparr>)"

definition recv_stream ::
    "StreamId \<Rightarrow> u64 \<Rightarrow> bool \<Rightarrow> bytes \<Rightarrow> ConnStreams \<Rightarrow> (OxiQuicError + unit) \<times> ConnStreams" where
  "recv_stream sid offset fin data c =
     (let c = ensure_stream sid c in
      case bmap_get sid (recv_streams c) of
        None \<Rightarrow> (Inr (), c)
      | Some s \<Rightarrow>
          if rv_is_reset s then (Inr (), c)
          else
            (case rv_recv offset data fin s of
               (Inr True, s') \<Rightarrow>
                 (Inr (), c\<lparr>recv_streams := bmap_insert sid s' (recv_streams c), readable := readable c @ [sid]\<rparr>)
             | (Inr False, s') \<Rightarrow> (Inr (), c\<lparr>recv_streams := bmap_insert sid s' (recv_streams c)\<rparr>)
             | (Inl FinalSize, s') \<Rightarrow>
                 (Inl (E_TransportError FinalSizeError None ''stream final size violation''),
                  c\<lparr>recv_streams := bmap_insert sid s' (recv_streams c)\<rparr>)
             | (Inl (StreamReset _), s') \<Rightarrow> (Inr (), c\<lparr>recv_streams := bmap_insert sid s' (recv_streams c)\<rparr>)))"

definition recv_reset_stream :: "StreamId \<Rightarrow> u64 \<Rightarrow> ConnStreams \<Rightarrow> ConnStreams" where
  "recv_reset_stream sid error_code c =
     c\<lparr>recv_streams :=
         bmap_update sid (apply_reset error_code) (bmap_or_insert sid RecvStream_new (recv_streams c)),
       readable := readable c @ [sid]\<rparr>"

definition recv_stop_sending :: "StreamId \<Rightarrow> u64 \<Rightarrow> ConnStreams \<Rightarrow> ConnStreams" where
  "recv_stop_sending sid error_code c =
     (case bmap_get sid (send_streams c) of
        None \<Rightarrow> c
      | Some s \<Rightarrow>
          let effective_code = (case ss_reset_code s of Some code \<Rightarrow> code | None \<Rightarrow> error_code);
              final_size = ss_final_size s;
              s' = (if ss_is_reset s then s else ss_reset effective_code s)
          in c\<lparr>send_streams := bmap_insert sid s' (send_streams c),
               pending_reset_streams := bmap_insert sid (effective_code, final_size) (pending_reset_streams c)\<rparr>)"

definition recv_max_data :: "u64 \<Rightarrow> ConnStreams \<Rightarrow> ConnStreams" where
  "recv_max_data m c = c\<lparr>send_flow := on_max_data m (send_flow c)\<rparr>"

definition recv_max_stream_data :: "StreamId \<Rightarrow> u64 \<Rightarrow> ConnStreams \<Rightarrow> ConnStreams" where
  "recv_max_stream_data sid m c =
     (let c = ensure_flow sid c
      in c\<lparr>stream_send_flow := bmap_update sid (on_max_stream_data m) (stream_send_flow c)\<rparr>)"

definition recv_max_streams :: "Direction \<Rightarrow> u64 \<Rightarrow> ConnStreams \<Rightarrow> ConnStreams" where
  "recv_max_streams dir m c =
     (case dir of
        Bidirectional \<Rightarrow> if m > peer_max_streams_bidi c then c\<lparr>peer_max_streams_bidi := m\<rparr> else c
      | Unidirectional \<Rightarrow> if m > peer_max_streams_uni c then c\<lparr>peer_max_streams_uni := m\<rparr> else c)"

definition maybe_raise_max_streams :: "Direction \<Rightarrow> ConnStreams \<Rightarrow> ConnStreams" where
  "maybe_raise_max_streams dir c =
     (case dir of
        Bidirectional \<Rightarrow>
          let new_max = local_max_streams_bidi c + closed_peer_bidi c in
          if new_max > sent_max_streams_bidi c then c\<lparr>pending_max_streams_bidi := Some new_max\<rparr> else c
      | Unidirectional \<Rightarrow>
          let new_max = local_max_streams_uni c + closed_peer_uni c in
          if new_max > sent_max_streams_uni c then c\<lparr>pending_max_streams_uni := Some new_max\<rparr> else c)"

section \<open>Writing stream frames\<close>

text \<open>How much of stream \<open>sid\<close> may be sent with \<open>avail\<close> bytes of room.\<close>

definition send_amount :: "StreamId \<Rightarrow> nat \<Rightarrow> SendStream \<Rightarrow> ConnStreams \<Rightarrow> nat" where
  "send_amount sid avail s c =
     (if ss_has_resend s then avail
      else
        let conn_credit = sfc_available (send_flow c);
            stream_credit = (case bmap_get sid (stream_send_flow c) of Some f \<Rightarrow> ssf_available f | None \<Rightarrow> 0)
        in min avail (min conn_credit stream_credit))"

text \<open>A chunk that ends at \<open>new_high\<close> has left the stream, which is \<open>s\<close> now: advance flow control.\<close>

definition charge_chunk :: "StreamId \<Rightarrow> u64 \<Rightarrow> SendStream \<Rightarrow> ConnStreams \<Rightarrow> ConnStreams" where
  "charge_chunk sid new_high s c =
     (let fresh = (case bmap_get sid (stream_send_flow c) of
                     Some f \<Rightarrow> fst (record_high_offset new_high f) | None \<Rightarrow> 0)
      in c\<lparr>send_streams := bmap_insert sid s (send_streams c),
           stream_send_flow := bmap_update sid (\<lambda>f. snd (record_high_offset new_high f)) (stream_send_flow c),
           send_flow := sfc_on_data_sent fresh (send_flow c)\<rparr>)"

text \<open>One turn of the loop of \<open>fill_stream_frames\<close>.\<close>

definition fill_stream :: "StreamId \<Rightarrow> nat \<Rightarrow> ConnStreams \<Rightarrow> (u64 \<times> bytes \<times> bool) option \<times> ConnStreams" where
  "fill_stream sid avail c =
     (case bmap_get sid (send_streams c) of
        None \<Rightarrow> (None, c)
      | Some s \<Rightarrow>
          if ss_is_reset s \<or> \<not> ss_has_pending s then (None, c)
          else
            let c = ensure_flow sid c; amount = send_amount sid avail s c in
            if amount = 0 then (None, c)
            else
              (case ss_take amount s of
                 (None, s') \<Rightarrow> (None, c\<lparr>send_streams := bmap_insert sid s' (send_streams c)\<rparr>)
               | (Some (offset, data, fin), s') \<Rightarrow>
                   (Some (offset, data, fin), charge_chunk sid (offset + length data) s' c)))"

fun fill_stream_loop ::
    "nat \<Rightarrow> StreamId list \<Rightarrow> bytes \<Rightarrow> ConnStreams \<Rightarrow> SentFrame list \<times> bytes \<times> ConnStreams" where
  "fill_stream_loop budget [] payload c = ([], payload, c)"
| "fill_stream_loop budget (sid # sids) payload c =
     (let avail = budget - length payload - 24 in
      if avail = 0 then ([], payload, c)
      else case fill_stream sid avail c of
        (None, c') \<Rightarrow> fill_stream_loop budget sids payload c'
      | (Some (offset, data, fin), c') \<Rightarrow>
          let (placed, payload', c'') =
                fill_stream_loop budget sids (payload @ encode (Stream sid offset fin data)) c'
          in (SF_Stream sid offset fin data # placed, payload', c''))"

text \<open>\<open>note_blocked_streams\<close>.\<close>

definition note_blocked_conn :: "ConnStreams \<Rightarrow> ConnStreams" where
  "note_blocked_conn c =
     (if has_pending_stream_data c
      then (case sfc_take_blocked (send_flow c) of
              (Some limit, f) \<Rightarrow> c\<lparr>send_flow := f, pending_data_blocked := Some limit\<rparr>
            | (None, f) \<Rightarrow> c\<lparr>send_flow := f\<rparr>)
      else c)"

definition note_blocked_stream :: "StreamId \<Rightarrow> ConnStreams \<Rightarrow> ConnStreams" where
  "note_blocked_stream sid c =
     (if (case bmap_get sid (send_streams c) of Some s \<Rightarrow> ss_has_pending s | None \<Rightarrow> False)
      then (case bmap_get sid (stream_send_flow c) of
              None \<Rightarrow> c
            | Some f \<Rightarrow>
                (case ssf_take_blocked f of
                   (Some limit, f') \<Rightarrow>
                     c\<lparr>stream_send_flow := bmap_insert sid f' (stream_send_flow c),
                       pending_stream_data_blocked := bmap_insert sid limit (pending_stream_data_blocked c)\<rparr>
                 | (None, f') \<Rightarrow> c\<lparr>stream_send_flow := bmap_insert sid f' (stream_send_flow c)\<rparr>))
      else c)"

definition note_blocked_streams :: "ConnStreams \<Rightarrow> ConnStreams" where
  "note_blocked_streams c =
     (let c = note_blocked_conn c in fold note_blocked_stream (bmap_keys (send_streams c)) c)"

definition fill_stream_frames :: "bytes \<Rightarrow> nat \<Rightarrow> ConnStreams \<Rightarrow> SentFrame list \<times> bytes \<times> ConnStreams" where
  "fill_stream_frames payload budget c =
     (let (placed, payload, c) = fill_stream_loop budget (bmap_keys (send_streams c)) payload c
      in (placed, payload, note_blocked_streams c))"

text \<open>\<open>advance_recv_flow\<close>.\<close>

definition advance_stream_recv_flow :: "StreamId \<Rightarrow> ConnStreams \<Rightarrow> ConnStreams" where
  "advance_stream_recv_flow sid c =
     (case bmap_get sid (stream_recv_flow c) of
        None \<Rightarrow> c
      | Some f \<Rightarrow>
          (case srf_maybe_update f of
             (Some m, f') \<Rightarrow>
               c\<lparr>stream_recv_flow := bmap_insert sid f' (stream_recv_flow c),
                 pending_max_stream_data := bmap_insert sid m (pending_max_stream_data c)\<rparr>
           | (None, f') \<Rightarrow> c\<lparr>stream_recv_flow := bmap_insert sid f' (stream_recv_flow c)\<rparr>))"

definition advance_recv_flow :: "ConnStreams \<Rightarrow> ConnStreams" where
  "advance_recv_flow c =
     (let c = (case rfc_maybe_update (recv_flow c) of
                 (Some m, f) \<Rightarrow> c\<lparr>recv_flow := f, pending_max_data := Some m\<rparr>
               | (None, f) \<Rightarrow> c\<lparr>recv_flow := f\<rparr>)
      in fold advance_stream_recv_flow (bmap_keys (stream_recv_flow c)) c)"

section \<open>Writing control frames\<close>

text \<open>
  \<open>emit_keyed room frame\<close> writes one frame per entry of a pending map: entries that find room are
  written and removed.  \<open>emit_keyed_break\<close> stops at the first that finds none.
\<close>

fun emit_keyed :: "(bytes \<Rightarrow> bool) \<Rightarrow> (nat \<Rightarrow> 'v \<Rightarrow> Frame) \<Rightarrow> 'v bmap \<Rightarrow> bytes \<Rightarrow> bool \<times> bytes \<times> 'v bmap" where
  "emit_keyed room frame [] payload = (False, payload, [])"
| "emit_keyed room frame ((k, v) # m) payload =
     (if room payload
      then let (_, payload', m') = emit_keyed room frame m (payload @ encode (frame k v)) in (True, payload', m')
      else let (placed, payload', m') = emit_keyed room frame m payload in (placed, payload', (k, v) # m'))"

fun emit_keyed_break :: "(bytes \<Rightarrow> bool) \<Rightarrow> (nat \<Rightarrow> 'v \<Rightarrow> Frame) \<Rightarrow> 'v bmap \<Rightarrow> bytes \<Rightarrow> bool \<times> bytes \<times> 'v bmap" where
  "emit_keyed_break room frame [] payload = (False, payload, [])"
| "emit_keyed_break room frame ((k, v) # m) payload =
     (if room payload
      then let (_, payload', m') = emit_keyed_break room frame m (payload @ encode (frame k v)) in (True, payload', m')
      else (False, payload, (k, v) # m))"

definition has_room :: "nat \<Rightarrow> nat \<Rightarrow> bytes \<Rightarrow> bool" where
  "has_room need budget payload \<longleftrightarrow> budget - length payload > need"

definition fill_max_data :: "bytes \<Rightarrow> nat \<Rightarrow> ConnStreams \<Rightarrow> bool \<times> bytes \<times> ConnStreams" where
  "fill_max_data payload budget c =
     (case pending_max_data c of
        Some m \<Rightarrow>
          if has_room 16 budget payload
          then (True, payload @ encode (MaxData m), c\<lparr>pending_max_data := None\<rparr>)
          else (False, payload, c)
      | None \<Rightarrow> (False, payload, c))"

text \<open>Unlike \<open>pending_max_data\<close>, a pending \<open>DATA_BLOCKED\<close> is taken even when it finds no room.\<close>

definition fill_data_blocked :: "bytes \<Rightarrow> nat \<Rightarrow> ConnStreams \<Rightarrow> bool \<times> bytes \<times> ConnStreams" where
  "fill_data_blocked payload budget c =
     (case pending_data_blocked c of
        Some limit \<Rightarrow>
          (if has_room 16 budget payload
           then (True, payload @ encode (DataBlocked limit), c\<lparr>pending_data_blocked := None\<rparr>)
           else (False, payload, c\<lparr>pending_data_blocked := None\<rparr>))
      | None \<Rightarrow> (False, payload, c))"

definition fill_flow_control_frames :: "bytes \<Rightarrow> nat \<Rightarrow> ConnStreams \<Rightarrow> bool \<times> bytes \<times> ConnStreams" where
  "fill_flow_control_frames payload budget c =
     (let (p1, payload, c) = fill_max_data payload budget c;
          (p2, payload, updates) =
            emit_keyed (has_room 16 budget) MaxStreamData (pending_max_stream_data c) payload;
          c = c\<lparr>pending_max_stream_data := updates\<rparr>;
          (p3, payload, c) = fill_data_blocked payload budget c;
          (p4, payload, blocked) =
            emit_keyed (has_room 16 budget) StreamDataBlocked (pending_stream_data_blocked c) payload;
          c = c\<lparr>pending_stream_data_blocked := blocked\<rparr>
      in (p1 \<or> p2 \<or> p3 \<or> p4, payload, c))"

definition fill_reset_stream_frames :: "bytes \<Rightarrow> nat \<Rightarrow> ConnStreams \<Rightarrow> bool \<times> bytes \<times> ConnStreams" where
  "fill_reset_stream_frames payload budget c =
     (let (placed, payload, m) =
            emit_keyed_break (has_room 24 budget) (\<lambda>sid (code, fsize). ResetStream sid code fsize)
              (pending_reset_streams c) payload
      in (placed, payload, c\<lparr>pending_reset_streams := m\<rparr>))"

definition fill_stop_sending_frames :: "bytes \<Rightarrow> nat \<Rightarrow> ConnStreams \<Rightarrow> bool \<times> bytes \<times> ConnStreams" where
  "fill_stop_sending_frames payload budget c =
     (let (placed, payload, m) =
            emit_keyed_break (has_room 16 budget) StopSending (pending_stop_sending c) payload
      in (placed, payload, c\<lparr>pending_stop_sending := m\<rparr>))"

section \<open>Loss\<close>

text \<open>\<open>requeue_frame\<close>, for the frames of streams.\<close>

definition requeue_stream_frame :: "SentFrame \<Rightarrow> ConnStreams \<Rightarrow> ConnStreams" where
  "requeue_stream_frame frame c =
     (case frame of
        SF_Stream sid offset fin data \<Rightarrow>
          c\<lparr>send_streams := bmap_update sid (ss_requeue offset data fin) (send_streams c)\<rparr>
      | SF_MaxStreams Bidirectional m \<Rightarrow>
          (case pending_max_streams_bidi c of
             Some existing \<Rightarrow> if m > existing then c\<lparr>pending_max_streams_bidi := Some m\<rparr> else c
           | None \<Rightarrow> c\<lparr>pending_max_streams_bidi := Some m\<rparr>)
      | SF_MaxStreams Unidirectional m \<Rightarrow>
          (case pending_max_streams_uni c of
             Some existing \<Rightarrow> if m > existing then c\<lparr>pending_max_streams_uni := Some m\<rparr> else c
           | None \<Rightarrow> c\<lparr>pending_max_streams_uni := Some m\<rparr>)
      | SF_StreamsBlocked Bidirectional limit \<Rightarrow> c\<lparr>pending_streams_blocked_bidi := Some limit\<rparr>
      | SF_StreamsBlocked Unidirectional limit \<Rightarrow> c\<lparr>pending_streams_blocked_uni := Some limit\<rparr>
      | _ \<Rightarrow> c)"

end
