(* ===== verification/Stream_Limits.thy ===== *)
theory Stream_Limits
  imports Conn_Streams
begin

text \<open>
  What the stream layer of a connection promises its peer: under any interleaving of the
  operations of \<^verbatim>\<open>connection/streams.rs\<close>, the stream frames of \<^verbatim>\<open>connection/recv.rs\<close>, the
  frame writers of \<^verbatim>\<open>connection/send.rs\<close> and the requeueing of \<^verbatim>\<open>connection/recovery.rs\<close>,
  no STREAM frame passes the credit the peer granted; and what the writers append fits
  the budget they are given.
\<close>

section \<open>Runs of a connection's streams\<close>

text \<open>
  A state is the stream layer and the STREAM frames sent so far.  A well-behaved peer
  names, of the streams of this endpoint, only those it opened; the application does the same.  A
  stream index stays within the 60 bits of a stream identifier.
\<close>

definition may_name :: "StreamId \<Rightarrow> ConnStreams \<Rightarrow> bool" where
  "may_name sid c \<longleftrightarrow> peer_initiated sid c \<or> bmap_get sid (send_streams c) \<noteq> None"

definition is_stream_frame :: "SentFrame \<Rightarrow> bool" where
  "is_stream_frame f = (case f of SF_Stream _ _ _ _ \<Rightarrow> True | _ \<Rightarrow> False)"

inductive conn_step :: "ConnStreams \<times> SentFrame list \<Rightarrow> ConnStreams \<times> SentFrame list \<Rightarrow> bool" where
  params: "conn_step (c, ps) (streams_apply_peer_params p c, ps)"
| open_bidi: "next_bidi_index c \<le> MAX_INDEX \<Longrightarrow> conn_step (c, ps) (snd (open_bidi c), ps)"
| open_uni: "next_uni_index c \<le> MAX_INDEX \<Longrightarrow> conn_step (c, ps) (snd (open_uni c), ps)"
| poll_new: "conn_step (c, ps) (snd (poll_new_peer_stream c), ps)"
| poll_read: "conn_step (c, ps) (snd (poll_readable c), ps)"
| send: "conn_step (c, ps) (snd (send_stream sid data fin c), ps)"
| early: "may_name sid c \<Longrightarrow> conn_step (c, ps) (queue_on_stream sid data fin c, ps)"
| read: "conn_step (c, ps) (snd (read_stream sid c), ps)"
| reset: "conn_step (c, ps) (snd (reset_stream sid code c), ps)"
| stop: "conn_step (c, ps) (snd (stop_sending sid code c), ps)"
| recv: "may_name sid c \<Longrightarrow> conn_step (c, ps) (snd (recv_stream sid off fin data c), ps)"
| recv_reset: "conn_step (c, ps) (recv_reset_stream sid code c, ps)"
| recv_stop: "conn_step (c, ps) (recv_stop_sending sid code c, ps)"
| recv_max_data: "conn_step (c, ps) (recv_max_data m c, ps)"
| recv_max_stream_data: "may_name sid c \<Longrightarrow> conn_step (c, ps) (recv_max_stream_data sid m c, ps)"
| recv_max_streams: "conn_step (c, ps) (recv_max_streams dir m c, ps)"
| raise_max_streams: "conn_step (c, ps) (maybe_raise_max_streams dir c, ps)"
| advance: "conn_step (c, ps) (advance_recv_flow c, ps)"
| fill_control: "conn_step (c, ps) (snd (snd (fill_flow_control_frames payload budget c)), ps)"
| fill_reset: "conn_step (c, ps) (snd (snd (fill_reset_stream_frames payload budget c)), ps)"
| fill_stop: "conn_step (c, ps) (snd (snd (fill_stop_sending_frames payload budget c)), ps)"
| fill: "fill_stream_frames payload budget c = (placed, payload', c') \<Longrightarrow> conn_step (c, ps) (c', placed @ ps)"
| lost: "is_stream_frame f \<Longrightarrow> f \<in> set ps \<Longrightarrow> conn_step (c, ps) (requeue_stream_frame f c, ps)"
| lost_control: "\<not> is_stream_frame f \<Longrightarrow> conn_step (c, ps) (requeue_stream_frame f c, ps)"

section \<open>The invariant\<close>

definition sent_of :: "StreamSendFlow option \<Rightarrow> nat" where
  "sent_of fo = (case fo of None \<Rightarrow> 0 | Some f \<Rightarrow> ssf_data_sent f)"

definition base_of :: "SendStream option \<Rightarrow> nat" where
  "base_of so = (case so of None \<Rightarrow> 0 | Some s \<Rightarrow> ss_base s)"

definition resend_within :: "nat \<Rightarrow> SendStream option \<Rightarrow> bool" where
  "resend_within n so =
     (case so of None \<Rightarrow> True | Some s \<Rightarrow> list_all (\<lambda>g. rg_offset g + length (rg_data g) \<le> n) (ss_resend s))"

definition within_limit :: "StreamSendFlow option \<Rightarrow> bool" where
  "within_limit fo = (case fo of None \<Rightarrow> True | Some f \<Rightarrow> ssf_data_sent f \<le> ssf_max_stream_data f)"

text \<open>A stream and its credit account: what was sent is what the account was charged for.\<close>

definition charged :: "SendStream option \<Rightarrow> StreamSendFlow option \<Rightarrow> bool" where
  "charged so fo \<longleftrightarrow> sent_of fo = base_of so \<and> within_limit fo \<and> resend_within (base_of so) so"

definition next_index :: "Direction \<Rightarrow> u64 \<Rightarrow> u64 \<Rightarrow> u64" where
  "next_index dir bidi uni = (case dir of Bidirectional \<Rightarrow> bidi | Unidirectional \<Rightarrow> uni)"

definition own_index_ok :: "ConnStreams \<Rightarrow> StreamId \<Rightarrow> bool" where
  "own_index_ok c sid \<longleftrightarrow> peer_initiated sid c
     \<or> stream_index sid < next_index (stream_direction sid) (next_bidi_index c) (next_uni_index c)"

definition known :: "ConnStreams \<Rightarrow> StreamId \<Rightarrow> bool" where
  "known c sid \<longleftrightarrow> bmap_get sid (send_streams c) \<noteq> None \<or> bmap_get sid (stream_send_flow c) \<noteq> None"

definition frame_charged :: "StreamSendFlow bmap \<Rightarrow> SentFrame \<Rightarrow> bool" where
  "frame_charged flows f =
     (case f of SF_Stream sid off fin data \<Rightarrow> off + length data \<le> sent_of (bmap_get sid flows) | _ \<Rightarrow> True)"

definition streams_inv :: "ConnStreams \<Rightarrow> bool" where
  "streams_inv c \<longleftrightarrow>
     bmap_ok (send_streams c) \<and> bmap_ok (stream_send_flow c)
     \<and> (\<forall>sid. charged (bmap_get sid (send_streams c)) (bmap_get sid (stream_send_flow c)))
     \<and> (\<forall>sid. known c sid \<longrightarrow> own_index_ok c sid)
     \<and> sfc_data_sent (send_flow c) = bmap_sum ssf_data_sent (stream_send_flow c)
     \<and> sfc_data_sent (send_flow c) \<le> sfc_max_data (send_flow c)"

definition limits_inv :: "ConnStreams \<times> SentFrame list \<Rightarrow> bool" where
  "limits_inv t \<longleftrightarrow> streams_inv (fst t) \<and> list_all (frame_charged (stream_send_flow (fst t))) (snd t)"

text \<open>The invariant reads only the send side of the stream layer.\<close>

definition send_side where
  "send_side c =
     (role c, send_streams c, stream_send_flow c, send_flow c, next_bidi_index c, next_uni_index c)"

lemma streams_inv_frame: "send_side c' = send_side c \<Longrightarrow> streams_inv c' = streams_inv c"
  by (simp add: send_side_def streams_inv_def known_def own_index_ok_def peer_initiated_def)

lemma limits_inv_frame: "send_side c' = send_side c \<Longrightarrow> limits_inv (c', ps) = limits_inv (c, ps)"
  using streams_inv_frame [of c' c] by (simp add: limits_inv_def send_side_def)

lemma advance_stream_send_side [simp]: "send_side (advance_stream_recv_flow sid c) = send_side c"
  by (simp add: advance_stream_recv_flow_def send_side_def split: option.split prod.split)

lemma advance_fold_send_side [simp]: "send_side (fold advance_stream_recv_flow sids c) = send_side c"
  by (induction sids arbitrary: c) simp_all

lemma advance_send_side: "send_side (advance_recv_flow c) = send_side c"
  by (simp add: advance_recv_flow_def Let_def split: prod.split option.split) (simp add: send_side_def)

lemma receive_side_ops:
  "send_side (snd (poll_new_peer_stream c)) = send_side c"
  "send_side (snd (poll_readable c)) = send_side c"
  "send_side (snd (read_stream sid c)) = send_side c"
  "send_side (snd (stop_sending sid code c)) = send_side c"
  "send_side (recv_reset_stream sid code c) = send_side c"
  "send_side (recv_max_streams dir m c) = send_side c"
  "send_side (maybe_raise_max_streams dir c) = send_side c"
  by (simp_all add: send_side_def poll_new_peer_stream_def poll_readable_def read_stream_def stop_sending_def
      recv_reset_stream_def recv_max_streams_def maybe_raise_max_streams_def Let_def
      split: list.split option.split prod.split sum.split StreamError.split Direction.split)

lemma control_writers:
  "send_side (snd (snd (fill_flow_control_frames payload budget c))) = send_side c"
  "send_side (snd (snd (fill_reset_stream_frames payload budget c))) = send_side c"
  "send_side (snd (snd (fill_stop_sending_frames payload budget c))) = send_side c"
  by (simp_all add: send_side_def fill_flow_control_frames_def fill_reset_stream_frames_def
      fill_stop_sending_frames_def fill_max_data_def fill_data_blocked_def Let_def
      split: prod.split option.split)

lemma lost_control_send_side: "\<not> is_stream_frame f \<Longrightarrow> send_side (requeue_stream_frame f c) = send_side c"
  by (simp add: send_side_def requeue_stream_frame_def is_stream_frame_def split: SentFrame.splits Direction.split option.split)

section \<open>Every operation keeps it\<close>

lemmas charge_defs = charged_def sent_of_def base_of_def within_limit_def resend_within_def

text \<open>An operation on the stream tables that charges nothing.\<close>

lemma limits_inv_uncharged:
  assumes inv: "limits_inv (c, ps)"
    and frame: "role c' = role c" "next_bidi_index c \<le> next_bidi_index c'" "next_uni_index c \<le> next_uni_index c'"
    and ok: "bmap_ok (send_streams c')" "bmap_ok (stream_send_flow c')"
    and conn: "sfc_data_sent (send_flow c') = sfc_data_sent (send_flow c)"
      "sfc_max_data (send_flow c) \<le> sfc_max_data (send_flow c')"
    and total: "bmap_sum ssf_data_sent (stream_send_flow c') = bmap_sum ssf_data_sent (stream_send_flow c)"
    and streams: "\<And>sid. charged (bmap_get sid (send_streams c)) (bmap_get sid (stream_send_flow c))
        \<Longrightarrow> charged (bmap_get sid (send_streams c')) (bmap_get sid (stream_send_flow c'))
          \<and> sent_of (bmap_get sid (stream_send_flow c')) = sent_of (bmap_get sid (stream_send_flow c))"
    and new: "\<And>sid. known c' sid \<Longrightarrow> \<not> known c sid \<Longrightarrow> own_index_ok c' sid"
  shows "limits_inv (c', ps)"
proof -
  have c: "streams_inv c" and ps: "list_all (frame_charged (stream_send_flow c)) ps"
    using inv by (simp_all add: limits_inv_def)
  have "own_index_ok c' sid" if "own_index_ok c sid" for sid
    using that frame by (auto simp add: own_index_ok_def peer_initiated_def next_index_def split: Direction.splits)
  then have own: "\<forall>sid. known c' sid \<longrightarrow> own_index_ok c' sid"
    using new c by (auto simp add: streams_inv_def)
  have all: "charged (bmap_get sid (send_streams c')) (bmap_get sid (stream_send_flow c'))
      \<and> sent_of (bmap_get sid (stream_send_flow c')) = sent_of (bmap_get sid (stream_send_flow c))" for sid
    using streams [of sid] c by (simp add: streams_inv_def)
  have "frame_charged (stream_send_flow c') f = frame_charged (stream_send_flow c) f" for f
    using all by (simp add: frame_charged_def split: SentFrame.split)
  then have "list_all (frame_charged (stream_send_flow c')) ps"
    using ps by (simp add: list_all_iff)
  moreover have "streams_inv c'"
    using c ok conn total all own by (simp add: streams_inv_def)
  ultimately show ?thesis by (simp add: limits_inv_def)
qed

lemma limits_inv_ok:
  "limits_inv (c, ps) \<Longrightarrow> bmap_ok (send_streams c)"
  "limits_inv (c, ps) \<Longrightarrow> bmap_ok (stream_send_flow c)"
  by (simp_all add: limits_inv_def streams_inv_def)

lemma limits_inv_charged:
  "limits_inv (c, ps) \<Longrightarrow> charged (bmap_get sid (send_streams c)) (bmap_get sid (stream_send_flow c))"
  by (simp add: limits_inv_def streams_inv_def)

lemma bmap_sum_or_insert_0: "bmap_ok m \<Longrightarrow> f v = 0 \<Longrightarrow> bmap_sum f (bmap_or_insert k v m) = bmap_sum f m"
  using bmap_sum_insert [of m f k v] by (cases "bmap_get k m") (simp_all add: bmap_or_insert_def)

lemma bmap_sum_update_same:
  assumes "bmap_ok m" and "\<And>v. f (g v) = f v"
  shows "bmap_sum f (bmap_update k g m) = bmap_sum f m"
proof (cases "bmap_get k m")
  case (Some v)
  then show ?thesis using bmap_sum_insert [OF assms(1), of f k "g v"] assms(2) by (simp add: bmap_update_def)
qed (simp add: bmap_update_def)

lemma sent_StreamSendFlow_new [simp]: "ssf_data_sent (StreamSendFlow_new n) = 0"
  by (simp add: StreamSendFlow_new_def)

lemma sent_on_max_stream_data [simp]: "ssf_data_sent (on_max_stream_data m f) = ssf_data_sent f"
  by (simp add: on_max_stream_data_def)

lemma max_on_max_stream_data: "ssf_max_stream_data f \<le> ssf_max_stream_data (on_max_stream_data m f)"
  by (simp add: on_max_stream_data_def)

lemma on_max_data_mono [simp]:
  "sfc_data_sent (on_max_data m f) = sfc_data_sent f"
  "sfc_max_data f \<le> sfc_max_data (on_max_data m f)"
  by (simp_all add: on_max_data_def)

text \<open>What can be done to one send half without charging its account.\<close>

definition send_half_op :: "(SendStream \<Rightarrow> SendStream) \<Rightarrow> bool" where
  "send_half_op g \<longleftrightarrow> (\<forall>s. ss_base (g s) = ss_base s \<and> set (ss_resend (g s)) \<subseteq> set (ss_resend s))"

lemma send_half_ops:
  "send_half_op (ss_write data fin)" "send_half_op (ss_reset code)"
  by (simp_all add: send_half_op_def ss_write_def ss_reset_def Let_def)

lemma charged_half: "send_half_op g \<Longrightarrow> charged so fo \<Longrightarrow> charged (map_option g so) fo"
  by (cases so) (auto simp add: charge_defs send_half_op_def list_all_iff)

lemma charged_new_stream [simp]: "charged None fo \<Longrightarrow> charged (Some SendStream_new) fo"
  by (simp add: charge_defs SendStream_new_def)

lemma charged_new_flow [simp]: "charged so None \<Longrightarrow> charged so (Some (StreamSendFlow_new n))"
  by (cases so) (auto simp add: charge_defs StreamSendFlow_new_def list_all_iff)

text \<open>What can be done to one credit account without charging it.\<close>

definition flow_op :: "(StreamSendFlow \<Rightarrow> StreamSendFlow) \<Rightarrow> bool" where
  "flow_op g \<longleftrightarrow>
     (\<forall>f. ssf_data_sent (g f) = ssf_data_sent f \<and> ssf_max_stream_data f \<le> ssf_max_stream_data (g f))"

lemma flow_ops: "flow_op (on_max_stream_data m)" "flow_op (\<lambda>f. snd (ssf_take_blocked f))"
  by (simp_all add: flow_op_def on_max_stream_data_def ssf_take_blocked_def)

lemma sent_of_flow_op [simp]: "flow_op g \<Longrightarrow> sent_of (map_option g fo) = sent_of fo"
  by (cases fo) (simp_all add: sent_of_def flow_op_def)

lemma charged_flow_op: "flow_op g \<Longrightarrow> charged so fo \<Longrightarrow> charged so (map_option g fo)"
proof (cases fo)
  case (Some f)
  assume "flow_op g" and "charged so fo"
  then have "ssf_data_sent (g f) \<le> ssf_max_stream_data (g f)"
    using Some le_trans [of "ssf_data_sent f" "ssf_max_stream_data f" "ssf_max_stream_data (g f)"]
    by (simp add: charged_def within_limit_def flow_op_def)
  with \<open>flow_op g\<close> \<open>charged so fo\<close> show ?thesis
    using Some by (simp add: charged_def within_limit_def flow_op_def sent_of_def)
qed simp

lemma send_half_step:
  assumes "limits_inv (c, ps)" and "send_half_op g"
    and "send_side c' = send_side (c\<lparr>send_streams := bmap_update sid g (send_streams c)\<rparr>)"
  shows "limits_inv (c', ps)"
  unfolding limits_inv_frame [OF assms(3)]
  using limits_inv_ok [OF assms(1)] charged_half [OF assms(2)]
  by (intro limits_inv_uncharged [OF assms(1)])
    (auto simp add: bmap_get_update known_def split: if_splits)

lemma flow_step:
  assumes inv: "limits_inv (c, ps)" and g: "flow_op g"
    and c': "send_side c' = send_side (c\<lparr>stream_send_flow := bmap_update sid g (stream_send_flow c)\<rparr>)"
  shows "limits_inv (c', ps)"
  unfolding limits_inv_frame [OF c']
proof (rule limits_inv_uncharged [OF inv])
  have "ssf_data_sent (g f) = ssf_data_sent f" for f using g by (simp add: flow_op_def)
  then show "bmap_sum ssf_data_sent (stream_send_flow (c\<lparr>stream_send_flow := bmap_update sid g (stream_send_flow c)\<rparr>))
      = bmap_sum ssf_data_sent (stream_send_flow c)"
    using limits_inv_ok [OF inv] by (simp add: bmap_sum_update_same)
qed (use limits_inv_ok [OF inv] charged_flow_op [OF g] g in
    \<open>auto simp add: bmap_get_update known_def split: if_splits\<close>)

lemma send_stream_inv: "limits_inv (c, ps) \<Longrightarrow> limits_inv (snd (send_stream sid data fin c), ps)"
  by (erule send_half_step [OF _ send_half_ops(1) [of data fin], where sid = sid])
    (simp add: send_stream_def send_side_def bmap_update_def split: option.split)

lemma reset_stream_inv: "limits_inv (c, ps) \<Longrightarrow> limits_inv (snd (reset_stream sid code c), ps)"
  by (erule send_half_step [OF _ send_half_ops(2) [of code], where sid = sid])
    (simp add: reset_stream_def send_side_def bmap_update_def split: option.split)

lemma recv_stop_sending_inv: "limits_inv (c, ps) \<Longrightarrow> limits_inv (recv_stop_sending sid code c, ps)"
proof (erule send_half_step)
  let ?g = "\<lambda>s. if ss_is_reset s then s
    else ss_reset (case ss_reset_code s of Some k \<Rightarrow> k | None \<Rightarrow> code) s"
  show "send_half_op ?g" by (simp add: send_half_op_def ss_reset_def)
  show "send_side (recv_stop_sending sid code c) =
      send_side (c\<lparr>send_streams := bmap_update sid ?g (send_streams c)\<rparr>)"
    by (simp add: recv_stop_sending_def send_side_def bmap_update_def Let_def split: option.split)
qed

text \<open>Entries created on demand.\<close>

lemma may_name_own_index: "may_name sid c \<Longrightarrow> limits_inv (c, ps) \<Longrightarrow> own_index_ok c sid"
  unfolding may_name_def limits_inv_def streams_inv_def known_def own_index_ok_def by fastforce

lemma ensure_send_inv:
  assumes inv: "limits_inv (c, ps)" and own: "own_index_ok c sid"
  shows "limits_inv (ensure_send sid c, ps)"
proof (rule limits_inv_uncharged [OF inv])
  show "own_index_ok (ensure_send sid c) sid'"
    if "known (ensure_send sid c) sid'" "\<not> known c sid'" for sid'
    using that own limits_inv_ok [OF inv]
    by (auto simp add: ensure_send_def known_def own_index_ok_def peer_initiated_def bmap_get_or_insert split: if_splits)
qed (use limits_inv_ok [OF inv] in \<open>auto simp add: ensure_send_def bmap_get_or_insert\<close>)

lemma ensure_flow_inv:
  assumes inv: "limits_inv (c, ps)" and own: "own_index_ok c sid"
  shows "limits_inv (ensure_flow sid c, ps)"
proof (rule limits_inv_uncharged [OF inv])
  show "own_index_ok (ensure_flow sid c) sid'"
    if "known (ensure_flow sid c) sid'" "\<not> known c sid'" for sid'
    using that own limits_inv_ok [OF inv]
    by (auto simp add: ensure_flow_def known_def own_index_ok_def peer_initiated_def bmap_get_or_insert split: if_splits)
qed (use limits_inv_ok [OF inv] in \<open>auto simp add: ensure_flow_def bmap_get_or_insert bmap_sum_or_insert_0 sent_of_def\<close>)

lemma ensure_frame [simp]:
  "own_index_ok (ensure_send sid c) = own_index_ok c"
  "own_index_ok (ensure_flow sid c) = own_index_ok c"
  by (simp_all add: own_index_ok_def ensure_send_def ensure_flow_def peer_initiated_def fun_eq_iff)

lemma queue_on_stream_inv:
  assumes "limits_inv (c, ps)" and "may_name sid c"
  shows "limits_inv (queue_on_stream sid data fin c, ps)"
  by (rule send_half_step [OF ensure_send_inv [OF assms(1) may_name_own_index [OF assms(2,1)]]
        send_half_ops(1) [of data fin], where sid = sid])
    (simp add: queue_on_stream_def Let_def send_side_def ensure_send_def)

lemma recv_max_stream_data_inv:
  assumes "limits_inv (c, ps)" and "may_name sid c"
  shows "limits_inv (recv_max_stream_data sid m c, ps)"
  by (rule flow_step [OF ensure_flow_inv [OF assms(1) may_name_own_index [OF assms(2,1)]] flow_ops(1) [of m], where sid = sid])
    (simp add: recv_max_stream_data_def Let_def send_side_def ensure_flow_def)

lemma recv_max_data_inv: "limits_inv (c, ps) \<Longrightarrow> limits_inv (recv_max_data m c, ps)"
  by (rule limits_inv_uncharged) (auto simp add: limits_inv_ok recv_max_data_def known_def)

lemma bmap_get_map: "bmap_get k (map (\<lambda>(k, v). (k, g v)) m) = map_option g (bmap_get k m)"
  by (simp add: bmap_get_def map_of_map)

lemma bmap_ok_map: "bmap_ok (map (\<lambda>(k, v). (k, g v)) m) = bmap_ok m"
  by (simp add: bmap_ok_def case_prod_unfold o_def)

lemma apply_peer_params_inv:
  assumes inv: "limits_inv (c, ps)"
  shows "limits_inv (streams_apply_peer_params p c, ps)"
proof -
  let ?c = "streams_apply_peer_params p c" and ?g = "on_max_stream_data (initial_max_stream_data_bidi_remote p)"
  have flows: "stream_send_flow ?c = map (\<lambda>(k, f). (k, ?g f)) (stream_send_flow c)"
    and frame: "role ?c = role c" "send_streams ?c = send_streams c" "next_bidi_index ?c = next_bidi_index c"
      "next_uni_index ?c = next_uni_index c" "send_flow ?c = on_max_data (initial_max_data p) (send_flow c)"
    by (simp_all add: streams_apply_peer_params_def)
  have get: "bmap_get sid (stream_send_flow ?c) = map_option ?g (bmap_get sid (stream_send_flow c))" for sid
    unfolding flows by (rule bmap_get_map)
  show ?thesis
  proof (rule limits_inv_uncharged [OF inv])
    show "bmap_ok (stream_send_flow ?c)" unfolding flows bmap_ok_map by (rule limits_inv_ok [OF inv])
    show "bmap_sum ssf_data_sent (stream_send_flow ?c) = bmap_sum ssf_data_sent (stream_send_flow c)"
      by (simp add: flows bmap_sum_def case_prod_unfold o_def)
    show "own_index_ok ?c sid" if "known ?c sid" "\<not> known c sid" for sid
      using that by (auto simp add: known_def frame get)
  qed (simp_all add: frame get limits_inv_ok [OF inv] flow_ops charged_flow_op)
qed

lemma ensure_stream_send_side:
  "send_side (ensure_stream sid c) =
     send_side (if stream_direction sid = Bidirectional then ensure_flow sid (ensure_send sid c) else c)"
  by (simp add: ensure_stream_def send_side_def ensure_flow_def ensure_send_def peer_initial_stream_limit_def Let_def)

lemma recv_stream_send_side: "send_side (snd (recv_stream sid off fin data c)) = send_side (ensure_stream sid c)"
  by (simp add: recv_stream_def send_side_def Let_def
      split: option.split prod.split sum.split bool.split StreamError.split)

lemma recv_stream_inv:
  assumes "limits_inv (c, ps)" and "may_name sid c"
  shows "limits_inv (snd (recv_stream sid off fin data c), ps)"
  unfolding limits_inv_frame [OF trans [OF recv_stream_send_side ensure_stream_send_side]]
  using assms may_name_own_index [OF assms(2,1)] by (simp add: ensure_flow_inv ensure_send_inv)

text \<open>A stream just opened has a fresh identifier.\<close>

lemma own_id_fresh:
  assumes inv: "limits_inv (c, ps)" and sid: "sid = StreamId_new (own_initiator c) dir i"
    and i: "i = next_index dir (next_bidi_index c) (next_uni_index c)" "i \<le> MAX_INDEX"
  shows "\<not> known c sid" and "\<not> peer_initiated sid c" and "stream_direction sid = dir" and "stream_index sid = i"
proof -
  show f: "\<not> peer_initiated sid c" "stream_direction sid = dir" "stream_index sid = i"
    unfolding sid peer_initiated_def own_initiator_def
    using StreamId_fields [OF i(2)] by (simp_all split: Role.split)
  then have "\<not> own_index_ok c sid" using i by (simp add: own_index_ok_def)
  then show "\<not> known c sid" using inv by (auto simp add: limits_inv_def streams_inv_def)
qed

lemma opened_inv:
  assumes inv: "limits_inv (c, ps)" and sid: "sid = StreamId_new (own_initiator c) dir i"
    and i: "i = next_index dir (next_bidi_index c) (next_uni_index c)" "i \<le> MAX_INDEX"
    and c': "role c' = role c" "send_flow c' = send_flow c"
      "send_streams c' = bmap_insert sid SendStream_new (send_streams c)"
      "stream_send_flow c' = bmap_insert sid (StreamSendFlow_new n) (stream_send_flow c)"
      "next_bidi_index c \<le> next_bidi_index c'" "next_uni_index c \<le> next_uni_index c'"
      "i < next_index dir (next_bidi_index c') (next_uni_index c')"
  shows "limits_inv (c', ps)"
proof (rule limits_inv_uncharged [OF inv])
  note fresh = own_id_fresh [OF inv sid i]
  have none: "bmap_get sid (send_streams c) = None" "bmap_get sid (stream_send_flow c) = None"
    using fresh(1) by (simp_all add: known_def)
  show "bmap_sum ssf_data_sent (stream_send_flow c') = bmap_sum ssf_data_sent (stream_send_flow c)"
    using bmap_sum_insert [of "stream_send_flow c" ssf_data_sent sid "StreamSendFlow_new n"] none
      limits_inv_ok [OF inv] by (simp add: c')
  show "own_index_ok c' sid'" if "known c' sid'" "\<not> known c sid'" for sid'
    using that fresh c' limits_inv_ok [OF inv]
    by (auto simp add: known_def bmap_get_insert own_index_ok_def split: if_splits)
  show "charged (bmap_get sid' (send_streams c')) (bmap_get sid' (stream_send_flow c'))
      \<and> sent_of (bmap_get sid' (stream_send_flow c')) = sent_of (bmap_get sid' (stream_send_flow c))"
    if "charged (bmap_get sid' (send_streams c)) (bmap_get sid' (stream_send_flow c))" for sid'
    using that none limits_inv_ok [OF inv] by (auto simp add: c' bmap_get_insert sent_of_def)
qed (simp_all add: c' limits_inv_ok [OF inv])

lemma open_bidi_inv:
  assumes "limits_inv (c, ps)" and "next_bidi_index c \<le> MAX_INDEX"
  shows "limits_inv (snd (open_bidi c), ps)"
proof (cases "peer_max_streams_bidi c > 0 \<and> next_bidi_index c \<ge> peer_max_streams_bidi c")
  case True
  then show ?thesis using limits_inv_frame [of "snd (open_bidi c)" c ps] assms(1)
    by (simp add: open_bidi_def send_side_def)
next
  case False
  then show ?thesis
    by (intro opened_inv [OF assms(1) refl, of "next_bidi_index c" Bidirectional _ "peer_initial_stream_limit c"])
      (use assms(2) in \<open>auto simp add: open_bidi_def Let_def next_index_def\<close>)
qed

lemma open_uni_inv:
  assumes "limits_inv (c, ps)" and "next_uni_index c \<le> MAX_INDEX"
  shows "limits_inv (snd (open_uni c), ps)"
proof (cases "peer_max_streams_uni c > 0 \<and> next_uni_index c \<ge> peer_max_streams_uni c")
  case True
  then show ?thesis using limits_inv_frame [of "snd (open_uni c)" c ps] assms(1)
    by (simp add: open_uni_def send_side_def)
next
  case False
  then show ?thesis
    by (intro opened_inv [OF assms(1) refl, of "next_uni_index c" Unidirectional _ "peer_initial_stream_limit c"])
      (use assms(2) in \<open>auto simp add: open_uni_def Let_def next_index_def\<close>)
qed

lemma lost_inv:
  assumes inv: "limits_inv (c, ps)" and f: "is_stream_frame f" "f \<in> set ps"
  shows "limits_inv (requeue_stream_frame f c, ps)"
proof -
  obtain sid off fin data where f': "f = SF_Stream sid off fin data"
    using f(1) by (auto simp add: is_stream_frame_def split: SentFrame.splits)
  then have len: "off + length data \<le> sent_of (bmap_get sid (stream_send_flow c))"
    using inv f(2) by (auto simp add: limits_inv_def list_all_iff frame_charged_def)
  have "charged (map_option (ss_requeue off data fin) so) fo" if "charged so fo" "off + length data \<le> sent_of fo" for so fo
    using that by (cases so) (simp_all add: charged_def base_of_def resend_within_def ss_requeue_def)
  then show ?thesis
    using len limits_inv_ok [OF inv]
    by (intro limits_inv_uncharged [OF inv])
      (auto simp add: f' requeue_stream_frame_def bmap_get_update known_def split: if_splits)
qed

section \<open>Sending\<close>

lemma ss_take_resend:
  assumes "ss_take n s = (Some (off, data, fin), s')" and "ss_resend s \<noteq> []"
    and "list_all (\<lambda>g. rg_offset g + length (rg_data g) \<le> b) (ss_resend s)"
  shows "ss_base s' = ss_base s" and "off + length data \<le> b"
    and "list_all (\<lambda>g. rg_offset g + length (rg_data g) \<le> b) (ss_resend s')"
  using assms by (auto simp add: ss_take_def neq_Nil_conv split: if_splits)

lemma ss_take_fresh:
  assumes "ss_take n s = (Some (off, data, fin), s')" and "ss_resend s = []"
  shows "off = ss_base s" and "length data \<le> n" and "ss_base s' = off + length data" and "ss_resend s' = []"
  using assms by (auto simp add: ss_take_def Let_def split: if_splits)

lemma ss_take_nothing: "ss_take n s = (None, s') \<Longrightarrow> s' = s"
  by (auto simp add: ss_take_def Let_def split: if_splits list.splits)

lemma bmap_insert_same: "bmap_ok m \<Longrightarrow> bmap_get k m = Some v \<Longrightarrow> bmap_insert k v m = m"
proof (induction m)
  case (Cons e m)
  then have "bmap_get k m = Some v \<Longrightarrow> fst e < k"
    by (cases e) (auto simp add: bmap_get_iff_mem)
  then show ?case using Cons by (cases e) (auto simp add: bmap_get_def split: if_splits)
qed (simp add: bmap_get_def)

lemma charge_old_chunk:
  assumes inv: "limits_inv (c, ps)" and s: "bmap_get sid (send_streams c) = Some s"
    and f: "bmap_get sid (stream_send_flow c) = Some f" and high: "high \<le> ss_base s"
    and s': "ss_base s' = ss_base s" "resend_within (ss_base s) (Some s')"
  shows "limits_inv (charge_chunk sid high s' c, ps)"
proof -
  have "charged (Some s) (Some f)"
    using limits_inv_charged [OF inv, of sid] s f by simp
  then have sent: "ssf_data_sent f = ss_base s" by (simp add: charged_def sent_of_def base_of_def)
  then have rec: "record_high_offset high f = (0, f)" using high by (simp add: record_high_offset_def)
  have flows: "bmap_update sid (\<lambda>f. snd (record_high_offset high f)) (stream_send_flow c) = stream_send_flow c"
    using bmap_insert_same [OF limits_inv_ok(2) [OF inv] f] by (simp add: bmap_update_def f rec)
  have "charged (Some s') (Some f)"
    using \<open>charged (Some s) (Some f)\<close> s' by (simp add: charged_def base_of_def)
  then show ?thesis
    unfolding charge_chunk_def Let_def flows using limits_inv_ok [OF inv] s f
    by (intro limits_inv_uncharged [OF inv])
      (auto simp add: bmap_get_insert sfc_on_data_sent_def rec known_def split: if_splits)
qed

lemma charge_new_chunk:
  assumes inv: "limits_inv (c, ps)" and s: "bmap_get sid (send_streams c) = Some s"
    and f: "bmap_get sid (stream_send_flow c) = Some f"
    and n: "n \<le> sfc_available (send_flow c)" "n \<le> ssf_available f"
    and s': "ss_base s' = ss_base s + n" "ss_resend s' = []"
  shows "limits_inv (charge_chunk sid (ss_base s + n) s' c, ps)"
proof -
  let ?f = "f\<lparr>ssf_data_sent := ss_base s + n\<rparr>" and ?c = "charge_chunk sid (ss_base s + n) s' c"
  note c = inv [unfolded limits_inv_def streams_inv_def, simplified]
  have ch: "charged (Some s) (Some f)" using limits_inv_charged [OF inv, of sid] s f by simp
  then have sent: "ssf_data_sent f = ss_base s" by (simp add: charged_def sent_of_def base_of_def)
  have rec: "record_high_offset (ss_base s + n) f = (n, ?f)" using sent by (simp add: record_high_offset_def)
  have parts: "send_streams ?c = bmap_insert sid s' (send_streams c)"
    "stream_send_flow ?c = bmap_insert sid ?f (stream_send_flow c)"
    "send_flow ?c = sfc_on_data_sent n (send_flow c)"
    "role ?c = role c" "next_bidi_index ?c = next_bidi_index c" "next_uni_index ?c = next_uni_index c"
    by (simp_all add: charge_chunk_def Let_def f rec bmap_update_def)
  have "bmap_sum ssf_data_sent (stream_send_flow ?c) = bmap_sum ssf_data_sent (stream_send_flow c) + n"
    using bmap_sum_insert [of "stream_send_flow c" ssf_data_sent sid ?f] c f sent by (simp add: parts)
  moreover have "charged (Some s') (Some ?f)"
    using ch n(2) s' by (auto simp add: charge_defs ssf_available_def)
  moreover have "known ?c sid' \<longrightarrow> own_index_ok ?c sid'" for sid'
    using c s f by (auto simp add: known_def own_index_ok_def peer_initiated_def parts bmap_get_insert split: if_splits)
  ultimately have "streams_inv ?c"
    using c n(1) by (auto simp add: streams_inv_def parts bmap_get_insert sfc_on_data_sent_def sfc_available_def)
  moreover have "frame_charged (stream_send_flow c) g \<Longrightarrow> frame_charged (stream_send_flow ?c) g" for g
    using c f sent by (auto simp add: frame_charged_def parts bmap_get_insert sent_of_def split: SentFrame.splits)
  ultimately show ?thesis using c by (simp add: limits_inv_def list_all_iff)
qed

lemma fill_stream_cases:
  assumes "fill_stream sid avail c = (r, c')" and ok: "bmap_ok (stream_send_flow c)"
  obtains (idle) "r = None" "c' = c"
  | (blocked) s where "bmap_get sid (send_streams c) = Some s" "r = None" "c' = ensure_flow sid c"
  | (dry) s n s' where "bmap_get sid (send_streams c) = Some s" "ss_take n s = (None, s')" "r = None"
      "c' = (ensure_flow sid c)\<lparr>send_streams := bmap_insert sid s' (send_streams c)\<rparr>"
  | (chunk) s n s' off data fin f where "bmap_get sid (send_streams c) = Some s"
      "ss_take n s = (Some (off, data, fin), s')" "r = Some (off, data, fin)"
      "bmap_get sid (stream_send_flow (ensure_flow sid c)) = Some f"
      "ss_resend s = [] \<Longrightarrow> n \<le> sfc_available (send_flow c) \<and> n \<le> ssf_available f"
      "c' = charge_chunk sid (off + length data) s' (ensure_flow sid c)"
proof (cases "bmap_get sid (send_streams c)")
  case None
  then show ?thesis using assms idle by (simp add: fill_stream_def)
next
  case (Some s)
  let ?n = "send_amount sid avail s (ensure_flow sid c)"
  obtain f where f: "bmap_get sid (stream_send_flow (ensure_flow sid c)) = Some f"
    using ok by (cases "bmap_get sid (stream_send_flow c)") (auto simp add: ensure_flow_def bmap_get_or_insert)
  have n: "?n \<le> sfc_available (send_flow c) \<and> ?n \<le> ssf_available f" if "ss_resend s = []"
    using that f by (simp add: send_amount_def ss_has_resend_def ensure_flow_def min.coboundedI1 min.coboundedI2)
  show ?thesis
  proof (cases "ss_is_reset s \<or> \<not> ss_has_pending s")
    case True
    then show ?thesis using assms(1) Some idle by (simp add: fill_stream_def)
  next
    case busy: False
    show ?thesis
    proof (cases "?n = 0")
      case True
      then show ?thesis using assms(1) Some busy blocked by (simp add: fill_stream_def Let_def)
    next
      case False
      obtain t s' where t: "ss_take ?n s = (t, s')" by fastforce
      have fill: "fill_stream sid avail c =
        (case t of None \<Rightarrow> (None, (ensure_flow sid c)\<lparr>send_streams := bmap_insert sid s' (send_streams c)\<rparr>)
         | Some (off, data, fin) \<Rightarrow> (Some (off, data, fin), charge_chunk sid (off + length data) s' (ensure_flow sid c)))"
        using Some busy False t by (simp add: fill_stream_def Let_def ensure_flow_def split: option.split)
      show ?thesis
      proof (cases t)
        case None
        then show ?thesis using assms(1) fill by (intro dry [OF Some t [unfolded None]]) simp_all
      next
        case t': (Some x)
        obtain off data fin where x: "x = (off, data, fin)" by (cases x)
        show ?thesis
          by (rule chunk [OF Some t [unfolded t' x] _ f n]) (use assms(1) fill t' x in simp_all)
      qed
    qed
  qed
qed

lemma charge_chunk_sent:
  assumes "bmap_ok (stream_send_flow c)" and "bmap_get sid (stream_send_flow c) = Some f"
  shows "high \<le> sent_of (bmap_get sid (stream_send_flow (charge_chunk sid high s c)))"
  using assms by (simp add: charge_chunk_def Let_def bmap_get_update sent_of_def record_high_offset_def)

text \<open>\<open>placed_frames\<close> is the record \<open>fill_stream\<close> leaves of a frame it placed.\<close>

definition placed_frames :: "StreamId \<Rightarrow> (u64 \<times> bytes \<times> bool) option \<Rightarrow> SentFrame list" where
  "placed_frames sid r = (case r of None \<Rightarrow> [] | Some (off, data, fin) \<Rightarrow> [SF_Stream sid off fin data])"

lemma stream_known_own_index:
  "limits_inv (c, ps) \<Longrightarrow> bmap_get sid (send_streams c) = Some s \<Longrightarrow> own_index_ok c sid"
  by (rule may_name_own_index) (simp_all add: may_name_def)

lemma fill_stream_inv:
  assumes inv: "limits_inv (c, ps)" and fill: "fill_stream sid avail c = (r, c')"
  shows "limits_inv (c', placed_frames sid r @ ps)"
  using fill limits_inv_ok(2) [OF inv]
proof (cases rule: fill_stream_cases)
  case idle
  then show ?thesis using inv by (simp add: placed_frames_def)
next
  case (blocked s)
  then show ?thesis
    using ensure_flow_inv [OF inv stream_known_own_index [OF inv]] by (simp add: placed_frames_def)
next
  case (dry s n s')
  have "bmap_insert sid s' (send_streams c) = send_streams c"
    using bmap_insert_same [OF limits_inv_ok(1) [OF inv] dry(1)] ss_take_nothing [OF dry(2)] by simp
  then have "c' = ensure_flow sid c" unfolding dry(4) by (simp add: ensure_flow_def)
  then show ?thesis
    using ensure_flow_inv [OF inv stream_known_own_index [OF inv dry(1)]] dry by (simp add: placed_frames_def)
next
  case (chunk s n s' off data fin f)
  let ?c = "ensure_flow sid c"
  have inv1: "limits_inv (?c, ps)" by (rule ensure_flow_inv [OF inv stream_known_own_index [OF inv chunk(1)]])
  have s: "bmap_get sid (send_streams ?c) = Some s" using chunk(1) by (simp add: ensure_flow_def)
  have ch: "charged (Some s) (Some f)" using limits_inv_charged [OF inv1, of sid] s chunk(4) by simp
  have "limits_inv (c', ps)"
  proof (cases "ss_resend s = []")
    case True
    note t = ss_take_fresh [OF chunk(2) True]
    have "length data \<le> sfc_available (send_flow ?c)" "length data \<le> ssf_available f"
      using t(2) chunk(5) [OF True] by (simp_all add: ensure_flow_def)
    then show ?thesis
      using charge_new_chunk [OF inv1 s chunk(4), of "length data" s'] t by (simp add: chunk(6))
  next
    case False
    have "list_all (\<lambda>g. rg_offset g + length (rg_data g) \<le> ss_base s) (ss_resend s)"
      using ch by (simp add: charged_def base_of_def resend_within_def)
    note t = ss_take_resend [OF chunk(2) False this]
    show ?thesis
      unfolding chunk(6) by (rule charge_old_chunk [OF inv1 s chunk(4) t(2) t(1)]) (simp add: resend_within_def t(3))
  qed
  moreover have "frame_charged (stream_send_flow c') (SF_Stream sid off fin data)"
    using charge_chunk_sent [OF limits_inv_ok(2) [OF inv1] chunk(4)] by (simp add: frame_charged_def chunk(6))
  ultimately show ?thesis by (simp add: limits_inv_def placed_frames_def chunk(3))
qed

lemma limits_inv_perm: "limits_inv (c, ps) \<Longrightarrow> set ps' = set ps \<Longrightarrow> limits_inv (c, ps')"
  by (simp add: limits_inv_def list_all_iff)

lemma fill_stream_loop_inv:
  assumes "limits_inv (c, ps)" and "fill_stream_loop budget sids payload c = (placed, payload', c')"
  shows "limits_inv (c', placed @ ps)"
  using assms
proof (induction budget sids payload c arbitrary: ps placed payload' c' rule: fill_stream_loop.induct)
  case (2 budget sid sids payload c)
  let ?avail = "budget - length payload - 24"
  obtain r c1 where r: "fill_stream sid ?avail c = (r, c1)" by fastforce
  note inv1 = fill_stream_inv [OF 2(3) r]
  show ?case
  proof (cases "?avail = 0")
    case False
    show ?thesis
    proof (cases r)
      case None
      then show ?thesis using 2(1) [OF refl False, of _ c1] r inv1 2(4) False by (simp add: placed_frames_def Let_def)
    next
      case (Some x)
      obtain off data fin where x: "x = (off, data, fin)" by (cases x)
      let ?payload = "payload @ encode (Stream sid off fin data)"
      obtain placed1 p1 c2 where l: "fill_stream_loop budget sids ?payload c1 = (placed1, p1, c2)"
        by (metis prod_cases3)
      have "limits_inv (c2, placed1 @ SF_Stream sid off fin data # ps)"
        by (rule 2(2) [OF refl False _ _ _ _ _ l]) (use r Some x inv1 in \<open>simp_all add: placed_frames_def\<close>)
      moreover have "placed = SF_Stream sid off fin data # placed1" "c' = c2"
        using 2(4) False r Some x l by (simp_all add: Let_def)
      ultimately show ?thesis by (auto intro: limits_inv_perm)
    qed
  qed (use 2 in simp)
qed simp

lemma note_blocked_conn_inv: "limits_inv (c, ps) \<Longrightarrow> limits_inv (note_blocked_conn c, ps)"
  using limits_inv_ok [of c ps] unfolding note_blocked_conn_def sfc_take_blocked_def
  by (auto elim!: limits_inv_uncharged simp add: known_def)

lemma note_blocked_stream_inv:
  assumes "limits_inv (c, ps)"
  shows "limits_inv (note_blocked_stream sid c, ps)"
proof (cases "case bmap_get sid (send_streams c) of Some s \<Rightarrow> ss_has_pending s | None \<Rightarrow> False")
  case True
  then show ?thesis
    by (intro flow_step [OF assms flow_ops(2), where sid = sid])
      (auto simp add: note_blocked_stream_def send_side_def bmap_update_def split: option.split prod.split)
qed (simp add: note_blocked_stream_def assms)

lemma note_blocked_streams_inv:
  assumes "limits_inv (c, ps)"
  shows "limits_inv (note_blocked_streams c, ps)"
proof -
  have "limits_inv (c, ps) \<Longrightarrow> limits_inv (fold note_blocked_stream sids c, ps)" for sids c
    by (induction sids arbitrary: c) (simp_all add: note_blocked_stream_inv)
  then show ?thesis using note_blocked_conn_inv [OF assms] by (simp add: note_blocked_streams_def Let_def)
qed

lemma fill_stream_frames_inv:
  assumes "limits_inv (c, ps)" and "fill_stream_frames payload budget c = (placed, payload', c')"
  shows "limits_inv (c', placed @ ps)"
  using assms(2) fill_stream_loop_inv [OF assms(1)] note_blocked_streams_inv
  by (auto simp add: fill_stream_frames_def Let_def split: prod.splits)

lemmas conn_step_invs =
  apply_peer_params_inv open_bidi_inv open_uni_inv send_stream_inv queue_on_stream_inv reset_stream_inv
  recv_stream_inv recv_stop_sending_inv recv_max_data_inv recv_max_stream_data_inv lost_inv

lemmas frame_invs =
  receive_side_ops [THEN limits_inv_frame] control_writers [THEN limits_inv_frame]
  advance_send_side [THEN limits_inv_frame] lost_control_send_side [THEN limits_inv_frame]

lemma conn_step_inv: "conn_step t t' \<Longrightarrow> limits_inv t \<Longrightarrow> limits_inv t'"
proof (induction rule: conn_step.induct)
  case (fill payload budget c placed payload' c' ps)
  then show ?case by (rule fill_stream_frames_inv [rotated])
qed (simp_all add: conn_step_invs frame_invs)

lemma streams_new_inv: "limits_inv (streams_new r p, [])"
  by (simp add: limits_inv_def streams_inv_def streams_new_def known_def bmap_get_def charge_defs bmap_sum_def
      SendFlowControl_new_def)

lemma conn_reach_inv: "conn_step\<^sup>*\<^sup>* (streams_new r p, []) t \<Longrightarrow> limits_inv t"
  by (induction rule: rtranclp_induct) (auto intro: streams_new_inv conn_step_inv)

section \<open>Highest offsets\<close>

fun highest_end :: "StreamId \<Rightarrow> SentFrame list \<Rightarrow> nat" where
  "highest_end sid [] = 0"
| "highest_end sid (SF_Stream sid' off fin data # ps) =
     (if sid' = sid then max (off + length data) (highest_end sid ps) else highest_end sid ps)"
| "highest_end sid (_ # ps) = highest_end sid ps"

lemma highest_end_charged:
  "list_all (frame_charged flows) ps \<Longrightarrow> highest_end sid ps \<le> sent_of (bmap_get sid flows)"
  by (induction sid ps rule: highest_end.induct) (auto simp add: frame_charged_def)

lemma sum_sent_le:
  assumes "bmap_ok m" and "finite S"
  shows "(\<Sum>sid\<in>S. sent_of (bmap_get sid m)) \<le> bmap_sum ssf_data_sent m"
  using assms
proof (induction m arbitrary: S)
  case (Cons e m)
  obtain k v where e: "e = (k, v)" by (cases e)
  have "(\<Sum>sid\<in>S. sent_of (bmap_get sid (e # m))) \<le> (\<Sum>sid\<in>insert k S. sent_of (bmap_get sid (e # m)))"
    using Cons.prems by (intro sum_mono2) auto
  also have "\<dots> = ssf_data_sent v + (\<Sum>sid\<in>S - {k}. sent_of (bmap_get sid (e # m)))"
    using Cons.prems by (simp add: sum.insert_remove e bmap_get_def sent_of_def)
  also have "(\<Sum>sid\<in>S - {k}. sent_of (bmap_get sid (e # m))) = (\<Sum>sid\<in>S - {k}. sent_of (bmap_get sid m))"
    by (rule sum.cong) (auto simp add: e bmap_get_def)
  also have "\<dots> \<le> bmap_sum ssf_data_sent m"
    using Cons.IH [of "S - {k}"] Cons.prems e by simp
  finally show ?case by (simp add: e bmap_sum_def)
qed (simp add: bmap_get_def sent_of_def)

section \<open>Sizes\<close>

lemmas frame_sizes = length_put_varint_tag length_put_varint_le

lemma control_frame_sizes:
  "length (encode (MaxData m)) \<le> 17" "length (encode (MaxStreamData sid m)) \<le> 17"
  "length (encode (DataBlocked m)) \<le> 17" "length (encode (StreamDataBlocked sid m)) \<le> 17"
  "length (encode (StopSending sid code)) \<le> 17" "length (encode (ResetStream sid code sz)) \<le> 25"
  using length_put_varint_le [of m] length_put_varint_le [of sid] length_put_varint_le [of code]
    length_put_varint_le [of sz]
  by (simp_all add: length_put_varint_tag)

lemma stream_frame_size:
  assumes "length data < 2 ^ 30"
  shows "length (encode (Stream sid off fin data)) \<le> length data + 21"
  using length_put_varint_le [of sid] length_put_varint_le [of off] length_put_varint_small [OF assms]
  by (simp add: length_put_varint_tag Let_def)

lemma fits_after:
  "has_room n budget payload \<Longrightarrow> length bs \<le> n + 1 \<Longrightarrow> length (payload @ bs) \<le> budget"
  by (simp add: has_room_def)

lemma emit_keyed_fits:
  assumes "\<And>k v. length (encode (frame k v)) \<le> n + 1" and "length payload \<le> budget"
  shows "length (fst (snd (emit_keyed (has_room n budget) frame m payload))) \<le> budget"
  using assms(2)
proof (induction m arbitrary: payload)
  case (Cons e m)
  obtain k v where e: "e = (k, v)" by (cases e)
  show ?case
    using Cons.IH [of "payload @ encode (frame k v)"] Cons.IH [of payload] Cons.prems
      fits_after [OF _ assms(1) [of k v], of budget payload]
    by (auto simp add: e case_prod_unfold Let_def)
qed simp

lemma emit_keyed_break_fits:
  assumes "\<And>k v. length (encode (frame k v)) \<le> n + 1" and "length payload \<le> budget"
  shows "length (fst (snd (emit_keyed_break (has_room n budget) frame m payload))) \<le> budget"
  using assms(2)
proof (induction m arbitrary: payload)
  case (Cons e m)
  obtain k v where e: "e = (k, v)" by (cases e)
  show ?case
    using Cons.IH [of "payload @ encode (frame k v)"] Cons.prems
      fits_after [OF _ assms(1) [of k v], of budget payload]
    by (auto simp add: e case_prod_unfold Let_def)
qed simp

lemma fill_reset_fits:
  "length payload \<le> budget \<Longrightarrow> length (fst (snd (fill_reset_stream_frames payload budget c))) \<le> budget"
  using emit_keyed_break_fits [of "\<lambda>sid (code, fsize). ResetStream sid code fsize" 24 payload budget
      "pending_reset_streams c"] control_frame_sizes(6)
  by (simp add: fill_reset_stream_frames_def case_prod_unfold Let_def)

lemma fill_stop_fits:
  "length payload \<le> budget \<Longrightarrow> length (fst (snd (fill_stop_sending_frames payload budget c))) \<le> budget"
  using emit_keyed_break_fits [of StopSending 16 payload budget "pending_stop_sending c"] control_frame_sizes(5)
  by (simp add: fill_stop_sending_frames_def case_prod_unfold Let_def)

lemma fill_max_data_fits:
  "length payload \<le> budget \<Longrightarrow> length (fst (snd (fill_max_data payload budget c))) \<le> budget"
  using fits_after [OF _ order_trans [OF control_frame_sizes(1)], of 16 budget payload]
  by (simp add: fill_max_data_def split: option.split)

lemma fill_data_blocked_fits:
  "length payload \<le> budget \<Longrightarrow> length (fst (snd (fill_data_blocked payload budget c))) \<le> budget"
  using fits_after [OF _ order_trans [OF control_frame_sizes(3)], of 16 budget payload]
  by (simp add: fill_data_blocked_def split: option.split)

lemma fill_flow_control_fits:
  assumes "length payload \<le> budget"
  shows "length (fst (snd (fill_flow_control_frames payload budget c))) \<le> budget"
proof -
  obtain p1 b1 c1 where 1: "fill_max_data payload budget c = (p1, b1, c1)" by (metis prod_cases3)
  obtain p2 b2 m2 where 2: "emit_keyed (has_room 16 budget) MaxStreamData (pending_max_stream_data c1) b1 = (p2, b2, m2)"
    by (metis prod_cases3)
  let ?c2 = "c1\<lparr>pending_max_stream_data := m2\<rparr>"
  obtain p3 b3 c3 where 3: "fill_data_blocked b2 budget ?c2 = (p3, b3, c3)" by (metis prod_cases3)
  have "length b1 \<le> budget" using fill_max_data_fits [OF assms, of c] 1 by simp
  then have "length b2 \<le> budget"
    using emit_keyed_fits [of MaxStreamData 16 b1 budget "pending_max_stream_data c1"] control_frame_sizes(2) 2 by simp
  then have "length b3 \<le> budget" using fill_data_blocked_fits [of b2 budget ?c2] 3 by simp
  then show ?thesis
    using emit_keyed_fits [of StreamDataBlocked 16 b3 budget "pending_stream_data_blocked c3"] control_frame_sizes(4)
    by (simp add: fill_flow_control_frames_def Let_def 1 2 3 case_prod_unfold)
qed

lemma fill_stream_length:
  assumes "fill_stream sid avail c = (Some (off, data, fin), c')"
  shows "length data \<le> avail"
proof -
  have take: "length d \<le> n" if "ss_take n s = (Some (o', d, f), s')" for n s o' d f s'
    using that by (auto simp add: ss_take_def Let_def split: if_splits list.splits)
  show ?thesis
    using assms take [of "send_amount sid avail _ (ensure_flow sid c)"]
    by (fastforce simp add: fill_stream_def Let_def send_amount_def split: option.splits prod.splits if_splits)
qed

lemma fill_stream_loop_fits:
  assumes "budget < 2 ^ 30" and "length payload \<le> budget"
  shows "length (fst (snd (fill_stream_loop budget sids payload c))) \<le> budget"
  using assms
proof (induction budget sids payload c rule: fill_stream_loop.induct)
  case (2 budget sid sids payload c)
  let ?avail = "budget - length payload - 24"
  obtain r c1 where r: "fill_stream sid ?avail c = (r, c1)" by fastforce
  show ?case
  proof (cases "?avail = 0")
    case False
    show ?thesis
    proof (cases r)
      case None
      then show ?thesis using 2(1) [OF refl False, of _ c1] r 2(3,4) False by (simp add: Let_def)
    next
      case (Some x)
      obtain off data fin where x: "x = (off, data, fin)" by (cases x)
      let ?payload = "payload @ encode (Stream sid off fin data)"
      have "length data \<le> ?avail" using fill_stream_length r Some x by blast
      then have len: "length ?payload \<le> budget"
        using stream_frame_size [of data sid off fin] 2(3) False unfolding length_append by linarith
      have "length (fst (snd (fill_stream_loop budget sids ?payload c1))) \<le> budget"
        by (rule 2(2) [OF refl False _ _ _ _ 2(3) len]) (use r Some x in simp_all)
      then show ?thesis using False r Some x by (simp add: Let_def case_prod_unfold)
    qed
  qed (use 2 in simp)
qed simp

section \<open>Properties\<close>

text \<open>What the peer lets this endpoint send on a stream.\<close>

definition stream_limit :: "StreamId \<Rightarrow> ConnStreams \<Rightarrow> nat" where
  "stream_limit sid c = (case bmap_get sid (stream_send_flow c) of Some f \<Rightarrow> ssf_max_stream_data f | None \<Rightarrow> 0)"


text \<open>A client allowed two bytes writes three: two are sent.\<close>

definition demo_peer :: TransportParams where
  "demo_peer = TransportParams_default\<lparr>initial_max_data := 2, initial_max_stream_data_bidi_remote := 2\<rparr>"

definition demo_open :: ConnStreams where
  "demo_open = snd (send_stream 0 [1, 2, 3] False
     (snd (open_bidi (streams_apply_peer_params demo_peer (streams_new ClientRole TransportParams_default)))))"

lemma demo_reach: "conn_step\<^sup>*\<^sup>* (streams_new ClientRole TransportParams_default, []) (demo_open, [])"
proof -
  let ?c0 = "streams_new ClientRole TransportParams_default"
  let ?c1 = "streams_apply_peer_params demo_peer ?c0"
  have "conn_step (?c0, []) (?c1, [])" by (rule conn_step.params)
  moreover have "conn_step (?c1, []) (snd (open_bidi ?c1), [])"
    by (rule conn_step.open_bidi) (simp add: streams_apply_peer_params_def streams_new_def)
  moreover have "conn_step (snd (open_bidi ?c1), []) (demo_open, [])"
    unfolding demo_open_def by (rule conn_step.send)
  ultimately show ?thesis by (meson converse_rtranclp_into_rtranclp rtranclp.rtrancl_refl)
qed

lemmas demo_defs = demo_open_def demo_peer_def streams_new_def streams_apply_peer_params_def open_bidi_def
  send_stream_def TransportParams_default_def own_initiator_def StreamId_new_def peer_initial_stream_limit_def
  SendFlowControl_new_def on_max_data_def StreamSendFlow_new_def bmap_get_def SendStream_new_def ss_write_def

lemma demo_fill: "fst (fill_stream_frames [] 1200 demo_open) = [SF_Stream 0 0 False [1, 2]]"
  by (simp add: demo_defs fill_stream_frames_def Let_def bmap_keys_def fill_stream_def ss_is_reset_def
      ss_has_pending_def ensure_flow_def bmap_or_insert_def send_amount_def ss_has_resend_def sfc_available_def
      ssf_available_def ss_take_def case_prod_unfold numeral_2_eq_2)




end
