(* ===== verification/Ack_Exchange.thy ===== *)
theory Ack_Exchange
  imports Packet_Space Sent_Packets
begin

text \<open>
  Acknowledgements from end to end: what a receiver records (\<^verbatim>\<open>space.rs\<close>), the ACK frame it builds and its
  bytes (\<^verbatim>\<open>frame.rs\<close>), and what the sender takes out of its store (\<^verbatim>\<open>sent_packet.rs\<close>), against a reference
  that compares sets of packet numbers.
\<close>

section \<open>Both ends\<close>

text \<open>The receiver: packets in the order of arrival, each with whether it elicits an acknowledgement.\<close>

definition receive_packets :: "(u64 \<times> bool) list \<Rightarrow> ('h, 'p) PacketSpace \<Rightarrow> ('h, 'p) PacketSpace" where
  "receive_packets pkts s = fold (\<lambda>(pn, eliciting). on_packet_received pn eliciting) pkts s"

text \<open>The sender: the fields of a decoded ACK, the ranges as \<open>process_ack\<close> hands them on.\<close>

definition take_ack :: "Frame \<Rightarrow> SentPackets \<Rightarrow> (AckOutcome \<times> SentPackets) option" where
  "take_ack f s =
     (case f of
        Ack largest _ first_range ranges \<Rightarrow>
          Some (on_ack largest first_range (map (\<lambda>r. (ar_gap r, ar_range r)) ranges) s)
      | _ \<Rightarrow> None)"

section \<open>Ranges on the wire\<close>

lemma ranges_ok_snoc2:
  "ranges_ok (rs @ [(l, h), (l', h')]) \<longleftrightarrow> ranges_ok (rs @ [(l, h)]) \<and> h + 2 \<le> l' \<and> l' \<le> h'"
  by (induction rs rule: ranges_ok.induct) auto

lemma ranges_ok_snoc: "ranges_ok (rs @ [(l, h)]) \<Longrightarrow> l \<le> h"
  by (induction rs rule: ranges_ok.induct) auto

lemma ack_walk_inverts:
  "ranges_ok (rev below @ [(low, high)])
    \<Longrightarrow> ack_ranges_loop low (map (\<lambda>r. (ar_gap r, ar_range r)) (ack_walk low below)) = below"
proof (induction low below arbitrary: high rule: ack_walk.induct)
  case (2 prev_low rlow rhigh rs)
  then have "ranges_ok (rev rs @ [(rlow, rhigh)])" and "rhigh + 2 \<le> prev_low"
    by (simp_all add: ranges_ok_snoc2)
  moreover from this have "prev_low - (prev_low - rhigh - 2 + 2) = rhigh" and "rlow \<le> rhigh"
    and "prev_low - rhigh - 2 + 2 \<le> prev_low"
    using ranges_ok_snoc by simp_all
  ultimately show ?case
    using 2(1) by (simp add: checked_sub_def Let_def del: add_2_eq_Suc' add_2_eq_Suc)
qed simp

lemma ack_ranges_inverts:
  assumes "ranges_ok (rev below @ [(low, high)])"
  shows "ack_ranges high (high - low) (map (\<lambda>r. (ar_gap r, ar_range r)) (ack_walk low below)) = (low, high) # below"
  using ack_walk_inverts [OF assms] ranges_ok_snoc [OF assms] by (simp add: ack_ranges_def)

lemma acked_set_rev: "acked_set (rev rs) = rp_set rs"
  by (simp add: acked_set_def rp_set_def)

lemma ranges_spread: "ranges_ok (rs @ [(l, h)]) \<Longrightarrow> 2 * length rs \<le> l"
proof (induction rs arbitrary: l h rule: rev_induct)
  case (snoc r rs)
  then show ?case using ranges_ok_snoc by (cases r) (fastforce simp add: ranges_ok_snoc2)
qed simp

lemma ack_walk_bounds:
  assumes "ranges_ok (rev below @ [(low, high)])"
  shows "list_all (\<lambda>r. ar_gap r \<le> low \<and> ar_range r \<le> low) (ack_walk low below)"
  using assms
proof (induction low below arbitrary: high rule: ack_walk.induct)
  case (2 prev_low rlow rhigh rs)
  then have ok: "ranges_ok (rev rs @ [(rlow, rhigh)])" and "rhigh + 2 \<le> prev_low"
    by (simp_all add: ranges_ok_snoc2)
  moreover have "rlow \<le> rhigh" using ranges_ok_snoc [OF ok] .
  ultimately show ?case
    using 2(1) [OF ok] by (auto elim!: list.pred_mono_strong)
qed simp

lemma length_ack_walk [simp]: "length (ack_walk low below) = length below"
  by (induction low below rule: ack_walk.induct) simp_all

lemma ack_frame_ok:
  assumes ok: "ranges_ok (rev below @ [(low, high)])" and "high \<le> VARINT_MAX" and "delay \<le> VARINT_MAX"
  shows "frame_ok (Ack high delay (high - low) (ack_walk low below))"
proof -
  have "low \<le> VARINT_MAX" using ranges_ok_snoc [OF ok] assms(2) by simp
  moreover have "length below \<le> low" using ranges_spread [OF ok] by simp
  ultimately show ?thesis
    using assms ack_walk_bounds [OF ok] by (auto elim!: list.pred_mono_strong)
qed

lemma receive_packets_simps:
  "sp_received (receive_packets pkts s) = fold rp_insert (map fst pkts) (sp_received s)"
  "sp_ack_pending (receive_packets pkts s) \<longleftrightarrow> sp_ack_pending s \<or> (\<exists>p \<in> set pkts. snd p)"
  by (induction pkts arbitrary: s) (auto simp add: receive_packets_def on_packet_received_def Let_def)

lemma on_ack_takes:
  assumes "store_ok (sent s)" and "on_ack la f rngs s = (out, s')"
  shows "sent s' = without (acked_set (ack_ranges la f rngs)) (sent s)
    \<and> mset (newly_acked out) = mset (picked (acked_set (ack_ranges la f rngs)) (sent s))
    \<and> largest_acked s' = max_opt (largest_acked s) la"
  using assms(2) on_ack_loop_spec [OF assms(1), of "ack_ranges la f rngs" AckOutcome_default]
  by (auto simp add: on_ack_def Let_def AckOutcome_default_def split: prod.splits)

section \<open>Properties\<close>

text \<open>
  C6: the ACK machinery is equivalent to set difference.  Whatever packets a receiver got, in any order and with
  duplicates, one of them ack-eliciting: the frame it builds is read back from its bytes, and processing it takes
  out of the sender's store exactly the packets whose numbers were received, reports exactly those, and notes the
  largest received number, as if the two ends had compared the sets themselves.
\<close>

theorem ack_exchange:
  assumes "\<exists>p \<in> set pkts. snd p" and "\<forall>p \<in> set pkts. fst p \<le> VARINT_MAX" and "delay \<le> VARINT_MAX"
    and "store_ok (sent s)"
  shows "\<exists>ack out s'. fst (build_ack delay (receive_packets pkts PacketSpace_new)) = Some ack
    \<and> reads decode_frame (encode ack) ack
    \<and> take_ack ack s = Some (out, s')
    \<and> sent s' = without (fst ` set pkts) (sent s)
    \<and> mset (newly_acked out) = mset (picked (fst ` set pkts) (sent s))
    \<and> largest_acked s' = max_opt (largest_acked s) (Max (fst ` set pkts))"
proof -
  let ?rs = "fold rp_insert (map fst pkts) []"
  have ok: "ranges_ok ?rs" and set: "rp_set ?rs = fst ` set pkts"
    using received.recorded [of "map fst pkts"] by simp_all
  have "?rs \<noteq> []" using set assms(1) by (metis empty_iff image_eqI rp_set_simps(1))
  then obtain low high below where rs: "rev ?rs = (low, high) # below"
    by (metis rev_is_Nil_conv neq_Nil_conv surj_pair)
  then have split: "?rs = rev below @ [(low, high)]" by (metis rev.simps(2) rev_rev_ident)
  let ?ack = "Ack high delay (high - low) (ack_walk low below)"
  have okr: "ranges_ok (rev below @ [(low, high)])" using ok by (simp add: split)
  have "rp_largest ?rs = Some high" by (simp add: rp_largest_def split)
  then have Max: "Max (fst ` set pkts) = high" using rp_largest_Max [OF ok \<open>?rs \<noteq> []\<close>] set by simp
  have "high \<in> rp_set ?rs" using ranges_ok_snoc [OF okr] by (simp add: split)
  then have "high \<le> VARINT_MAX" using assms(2) set by auto
  then have "frame_ok ?ack" using ack_frame_ok [OF okr] assms(3) by simp
  then have reads: "reads decode_frame (encode ?ack) ?ack" by (rule frame_reads)
  have build: "fst (build_ack delay (receive_packets pkts PacketSpace_new)) = Some ?ack"
    using assms(1) rs
    by (simp add: build_ack_def receive_packets_simps PacketSpace_new_def to_ack_frame_def)
  obtain out s' where take: "take_ack ?ack s = Some (out, s')" by (simp add: take_ack_def) (metis surj_pair)
  have "acked_set (ack_ranges high (high - low) (map (\<lambda>r. (ar_gap r, ar_range r)) (ack_walk low below))) = fst ` set pkts"
    using ack_ranges_inverts [OF okr] acked_set_rev [of ?rs] rs set by simp
  with on_ack_takes [OF assms(4)] take Max
  have "sent s' = without (fst ` set pkts) (sent s)
    \<and> mset (newly_acked out) = mset (picked (fst ` set pkts) (sent s))
    \<and> largest_acked s' = max_opt (largest_acked s) (Max (fst ` set pkts))"
    by (auto simp add: take_ack_def)
  with build reads take show ?thesis by blast
qed

theorem ack_exchange_witness:
  "\<exists>ack out s'. fst (build_ack 7 (receive_packets [(3, True), (1, False), (3, True)] PacketSpace_new)) = Some ack
    \<and> reads decode_frame (encode ack) ack
    \<and> take_ack ack example_store = Some (out, s') \<and> map fst (sent s') = [0, 2, 4]"
proof -
  have "\<exists>p \<in> set [(3 :: nat, True), (1, False), (3, True)]. snd p"
    and "\<forall>p \<in> set [(3 :: nat, True), (1, False), (3, True)]. fst p \<le> VARINT_MAX" and "7 \<le> VARINT_MAX"
    by (simp_all add: VARINT_MAX_def)
  from ack_exchange [OF this example_store_ok] show ?thesis
    by (auto simp add: without_def example_store_def)
qed

end
