(* ===== verification/Mtu.thy ===== *)
theory Mtu
  imports Prelude
begin

text \<open>
  Path-MTU discovery of a connection: the fields of \<^verbatim>\<open>Connection\<close> under \<^verbatim>\<open>DPLPMTUD\<close> and the
  functions of \<^verbatim>\<open>oxiquic-transport/src/connection/mod.rs\<close> that change them.  The sizes are
  \<^verbatim>\<open>u16\<close>; no operation leaves \<open>[1200, max_mtu]\<close>, so no addition wraps.

  \<open>probe_step\<close> is discovery as the connection runs it: the timer schedules a probe, a packet
  carries it, and the packet is acknowledged or declared lost.
\<close>

section \<open>State and operations\<close>

definition MIN_INITIAL_DATAGRAM :: nat where "MIN_INITIAL_DATAGRAM = 1200"

record MtuConfig =
  mc_max_mtu :: nat
  mc_discovery_enabled :: bool

definition MtuConfig_default :: MtuConfig where
  "MtuConfig_default = \<lparr>mc_max_mtu = 1452, mc_discovery_enabled = True\<rparr>"

record MtuState =
  current_mtu :: nat
  probe_mtu :: "nat option"
  probe_count :: nat
  max_mtu :: nat
  mtu_discovery_enabled :: bool
  pending_mtu_probe :: bool
  next_mtu_probe :: "instant option"

definition mtu_new :: "MtuConfig \<Rightarrow> MtuState" where
  "mtu_new c =
     \<lparr>current_mtu = MIN_INITIAL_DATAGRAM, probe_mtu = None, probe_count = 0,
      max_mtu = max (mc_max_mtu c) MIN_INITIAL_DATAGRAM,
      mtu_discovery_enabled = mc_discovery_enabled c, pending_mtu_probe = False, next_mtu_probe = None\<rparr>"

definition next_probe_size :: "MtuState \<Rightarrow> nat option" where
  "next_probe_size s =
     (let lo = current_mtu s; hi = max_mtu s in
      if lo \<ge> hi then None
      else let mid = lo + (hi - lo) div 2 in if mid \<le> lo then None else Some mid)"

definition schedule_mtu_probe :: "bool \<Rightarrow> MtuState \<Rightarrow> MtuState" where
  "schedule_mtu_probe established s =
     (if \<not> mtu_discovery_enabled s \<or> \<not> established \<or> probe_mtu s \<noteq> None
      then s\<lparr>next_mtu_probe := None\<rparr>
      else
        (case next_probe_size s of
           Some sz \<Rightarrow> s\<lparr>probe_mtu := Some sz, probe_count := 0, pending_mtu_probe := True\<rparr>
         | None \<Rightarrow> s)\<lparr>next_mtu_probe := None\<rparr>)"

definition ms :: "nat \<Rightarrow> duration" where
  "ms n = n * 1000000"

definition on_mtu_probe_acked :: "nat \<Rightarrow> instant \<Rightarrow> MtuState \<Rightarrow> MtuState" where
  "on_mtu_probe_acked sz now s =
     (let s = (if sz > current_mtu s then s\<lparr>current_mtu := sz\<rparr> else s);
          s = s\<lparr>probe_mtu := None, probe_count := 0, pending_mtu_probe := False\<rparr>
      in if next_probe_size s \<noteq> None then s\<lparr>next_mtu_probe := Some (now + ms 100)\<rparr> else s)"

definition MAX_PROBE_RETRIES :: nat where "MAX_PROBE_RETRIES = 2"

definition on_mtu_probe_lost :: "MtuState \<Rightarrow> MtuState" where
  "on_mtu_probe_lost s =
     (let s = s\<lparr>probe_count := min (probe_count s + 1) 255\<rparr> in
      if probe_count s < MAX_PROBE_RETRIES then s\<lparr>pending_mtu_probe := True\<rparr>
      else s\<lparr>probe_mtu := None, probe_count := 0, pending_mtu_probe := False, mtu_discovery_enabled := False\<rparr>)"

definition schedule_initial_mtu_probe :: "instant \<Rightarrow> MtuState \<Rightarrow> MtuState" where
  "schedule_initial_mtu_probe now s =
     (if mtu_discovery_enabled s \<and> max_mtu s > current_mtu s
      then s\<lparr>next_mtu_probe := Some (now + ms 200)\<rparr> else s)"

text \<open>
  \<open>fill_payload\<close> of \<^verbatim>\<open>send.rs\<close>: the probe that the packet carries, if any, and the size to
  which its plaintext is padded.  The overhead is first byte, connection ID, the longest packet
  number and the tag.
\<close>

definition SHORT_HDR_OVERHEAD :: nat where "SHORT_HDR_OVERHEAD = 1 + 8 + 4 + 16"

definition take_mtu_probe :: "MtuState \<Rightarrow> MtuState \<times> nat option" where
  "take_mtu_probe s =
     (if pending_mtu_probe s then (s\<lparr>pending_mtu_probe := False\<rparr>, probe_mtu s) else (s, None))"

definition probe_plaintext_len :: "nat \<Rightarrow> nat \<Rightarrow> nat" where
  "probe_plaintext_len probe_size filled = max filled (probe_size - SHORT_HDR_OVERHEAD)"

text \<open>\<open>write_space_packet\<close>: the budget of an Application packet.\<close>

definition app_budget :: "MtuState \<Rightarrow> nat" where
  "app_budget s =
     (if pending_mtu_probe s then (case probe_mtu s of Some p \<Rightarrow> p | None \<Rightarrow> current_mtu s)
      else current_mtu s)"

section \<open>Runs\<close>

text \<open>A run keeps the size of the probe in flight and the number of probes sent.\<close>

inductive probe_step :: "MtuState \<times> nat option \<times> nat \<Rightarrow> MtuState \<times> nat option \<times> nat \<Rightarrow> bool" where
  handshake_done: "probe_step (s, f, n) (schedule_initial_mtu_probe now s, f, n)"
| timer: "probe_step (s, f, n) (schedule_mtu_probe established s, f, n)"
| send: "take_mtu_probe s = (s', Some p) \<Longrightarrow> probe_step (s, f, n) (s', Some p, n + 1)"
| acked: "probe_step (s, Some p, n) (on_mtu_probe_acked p now s, None, n)"
| lost: "probe_step (s, Some p, n) (on_mtu_probe_lost s, None, n)"

inductive probe_run :: "MtuConfig \<Rightarrow> MtuState \<times> nat option \<times> nat \<Rightarrow> bool" for c where
  start: "probe_run c (mtu_new c, None, 0)"
| step: "probe_run c x \<Longrightarrow> probe_step x y \<Longrightarrow> probe_run c y"

text \<open>The number of halvings of a gap: the sizes discovery can try before it stops.\<close>

fun halvings :: "nat \<Rightarrow> nat" where
  "halvings d = (if d \<le> 1 then 0 else 1 + halvings (d - d div 2))"

declare halvings.simps [simp del]

section \<open>Invariant\<close>

text \<open>
  \<open>tries s\<close>: how many probes of the present size may still be sent.  A size is tried at most
  twice, so with \<open>halvings\<close> sizes left the probes still to come are bounded by \<open>credit\<close>.
\<close>

definition credit :: "MtuState \<Rightarrow> nat option \<Rightarrow> nat" where
  "credit s f =
     (if \<not> mtu_discovery_enabled s then 0
      else 2 * halvings (max_mtu s - current_mtu s)
           - (probe_count s + (if f = None then 0 else 1)))"

definition mtu_inv :: "MtuState \<times> nat option \<times> nat \<Rightarrow> bool" where
  "mtu_inv = (\<lambda>(s, f, n).
     MIN_INITIAL_DATAGRAM \<le> current_mtu s \<and> current_mtu s \<le> max_mtu s
     \<and> (current_mtu s = max_mtu s \<longrightarrow> max_mtu s = MIN_INITIAL_DATAGRAM)
     \<and> probe_count s < MAX_PROBE_RETRIES
     \<and> (case probe_mtu s of
          None \<Rightarrow> f = None \<and> probe_count s = 0 \<and> \<not> pending_mtu_probe s
        | Some p \<Rightarrow> mtu_discovery_enabled s \<and> next_probe_size s = Some p
            \<and> (f = None \<or> f = Some p) \<and> (pending_mtu_probe s \<longrightarrow> f = None)))"

lemma next_probe_size_Some:
  "next_probe_size s = Some p \<longleftrightarrow>
     current_mtu s + 2 \<le> max_mtu s \<and> p = current_mtu s + (max_mtu s - current_mtu s) div 2"
  by (auto simp add: next_probe_size_def Let_def)

lemma next_probe_size_fields [simp]:
  "next_probe_size (s\<lparr>probe_mtu := a\<rparr>) = next_probe_size s"
  "next_probe_size (s\<lparr>probe_count := b\<rparr>) = next_probe_size s"
  "next_probe_size (s\<lparr>pending_mtu_probe := c\<rparr>) = next_probe_size s"
  "next_probe_size (s\<lparr>next_mtu_probe := d\<rparr>) = next_probe_size s"
  "next_probe_size (s\<lparr>mtu_discovery_enabled := e\<rparr>) = next_probe_size s"
  by (simp_all add: next_probe_size_def)

lemma halvings_step: "2 \<le> d \<Longrightarrow> halvings d = 1 + halvings (d - d div 2)"
  by (subst halvings.simps) simp

lemma halvings_gap:
  assumes "next_probe_size s = Some p"
  shows "halvings (max_mtu s - current_mtu s) = 1 + halvings (max_mtu s - p)"
    and "current_mtu s < p" and "p < max_mtu s"
proof -
  have p: "current_mtu s + 2 \<le> max_mtu s" "p = current_mtu s + (max_mtu s - current_mtu s) div 2"
    using assms by (simp_all add: next_probe_size_Some)
  then have "max_mtu s - p = max_mtu s - current_mtu s - (max_mtu s - current_mtu s) div 2" by simp
  then show "halvings (max_mtu s - current_mtu s) = 1 + halvings (max_mtu s - p)"
    using p(1) halvings_step [of "max_mtu s - current_mtu s"] by simp
  show "current_mtu s < p" "p < max_mtu s" using p by simp_all
qed

lemma mtu_inv_start: "mtu_inv (mtu_new c, None, 0)"
  by (simp add: mtu_inv_def mtu_new_def MIN_INITIAL_DATAGRAM_def MAX_PROBE_RETRIES_def)

lemma mtu_inv_timer:
  assumes "mtu_inv (s, f, n)"
  shows "mtu_inv (schedule_mtu_probe est s, f, n)"
    and "credit (schedule_mtu_probe est s) f = credit s f"
  using assms
  by (auto simp add: mtu_inv_def schedule_mtu_probe_def credit_def MAX_PROBE_RETRIES_def
      split: option.splits)

lemma mtu_inv_acked:
  assumes "mtu_inv (s, Some p, n)"
  shows "mtu_inv (on_mtu_probe_acked p now s, None, n)"
    and "credit (on_mtu_probe_acked p now s) None \<le> credit s (Some p)"
proof -
  have s: "probe_mtu s = Some p" "next_probe_size s = Some p" "mtu_discovery_enabled s"
    "MIN_INITIAL_DATAGRAM \<le> current_mtu s" "probe_count s \<le> 1"
    using assms by (auto simp add: mtu_inv_def MAX_PROBE_RETRIES_def split: option.splits)
  note gap = halvings_gap [OF s(2)]
  show "mtu_inv (on_mtu_probe_acked p now s, None, n)"
    using s gap by (simp add: mtu_inv_def on_mtu_probe_acked_def Let_def MAX_PROBE_RETRIES_def)
  show "credit (on_mtu_probe_acked p now s) None \<le> credit s (Some p)"
    using s gap by (auto simp add: credit_def on_mtu_probe_acked_def Let_def)
qed

lemma mtu_inv_lost:
  assumes "mtu_inv (s, Some p, n)"
  shows "mtu_inv (on_mtu_probe_lost s, None, n)" and "credit (on_mtu_probe_lost s) None \<le> credit s (Some p)"
  using assms
  by (auto simp add: mtu_inv_def on_mtu_probe_lost_def Let_def MAX_PROBE_RETRIES_def credit_def
      split: option.splits)

lemma mtu_inv_send:
  assumes "mtu_inv (s, f, n)" and "take_mtu_probe s = (s', Some p)"
  shows "mtu_inv (s', Some p, n + 1)" and "credit s f = Suc (credit s' (Some p))"
proof -
  have s: "probe_mtu s = Some p" "pending_mtu_probe s" "s' = s\<lparr>pending_mtu_probe := False\<rparr>"
    using assms(2) by (auto simp add: take_mtu_probe_def split: if_splits)
  then have f: "f = None" "next_probe_size s = Some p" "mtu_discovery_enabled s" "probe_count s \<le> 1"
    using assms(1) by (auto simp add: mtu_inv_def MAX_PROBE_RETRIES_def)
  then show "mtu_inv (s', Some p, n + 1)" using assms(1) s by (simp add: mtu_inv_def)
  show "credit s f = Suc (credit s' (Some p))"
    using s f halvings_gap(1) [OF f(2)] by (simp add: credit_def)
qed

lemma mtu_inv_step:
  assumes "probe_step x y" and "mtu_inv x"
  shows "mtu_inv y \<and> snd (snd y) + credit (fst y) (fst (snd y)) \<le> snd (snd x) + credit (fst x) (fst (snd x))"
  using assms
proof cases
  case (handshake_done s f n now)
  then show ?thesis
    using assms(2) by (auto simp add: mtu_inv_def schedule_initial_mtu_probe_def credit_def split: option.splits)
next
  case (timer s f n est)
  then show ?thesis using mtu_inv_timer [of s f n est] assms(2) by simp
next
  case (send s s' p f n)
  then show ?thesis using mtu_inv_send [of s f n s' p] assms(2) by simp
next
  case (acked s p n now)
  then show ?thesis using mtu_inv_acked [of s p n now] assms(2) by simp
next
  case (lost s p n)
  then show ?thesis using mtu_inv_lost [of s p n] assms(2) by simp
qed

lemma max_mtu_const: "probe_step x y \<Longrightarrow> max_mtu (fst y) = max_mtu (fst x)"
  by (cases rule: probe_step.cases, assumption)
    (auto simp add: schedule_initial_mtu_probe_def schedule_mtu_probe_def take_mtu_probe_def
      on_mtu_probe_acked_def on_mtu_probe_lost_def Let_def split: option.splits if_splits)

lemma probe_run_inv:
  assumes "probe_run c x"
  shows "mtu_inv x \<and> snd (snd x) + credit (fst x) (fst (snd x)) \<le> credit (mtu_new c) None
    \<and> max_mtu (fst x) = max (mc_max_mtu c) MIN_INITIAL_DATAGRAM"
  using assms
proof (induction rule: probe_run.induct)
  case start
  then show ?case using mtu_inv_start by (simp add: mtu_new_def)
next
  case (step x y)
  then show ?case using mtu_inv_step [of x y] max_mtu_const [of x y] by auto
qed

lemma probe_step_mono: "probe_step x y \<Longrightarrow> current_mtu (fst x) \<le> current_mtu (fst y)"
  by (cases rule: probe_step.cases, assumption)
    (auto simp add: schedule_initial_mtu_probe_def schedule_mtu_probe_def take_mtu_probe_def
      on_mtu_probe_acked_def on_mtu_probe_lost_def Let_def split: option.splits if_splits)

section \<open>Property\<close>

text \<open>
  C26.  Path-MTU discovery stops: whatever is acknowledged or lost, and however often the timer
  fires, a connection sends at most two probes for each halving of the gap between 1200 bytes and
  the configured maximum.  All along, the MTU in use stays between 1200 and that maximum, which it
  never reaches unless the maximum is 1200, no step lowers it, and a probe in flight is larger than it.
\<close>

theorem mtu_discovery_bounded:
  assumes "probe_run c (s, f, n)"
  shows "n \<le> 2 * halvings (max (mc_max_mtu c) 1200 - 1200)
    \<and> 1200 \<le> current_mtu s \<and> current_mtu s \<le> max (mc_max_mtu c) 1200
    \<and> (mc_max_mtu c > 1200 \<longrightarrow> current_mtu s < mc_max_mtu c)
    \<and> (\<forall>p. f = Some p \<longrightarrow> current_mtu s < p \<and> p < mc_max_mtu c)
    \<and> (\<forall>y. probe_step (s, f, n) y \<longrightarrow> current_mtu s \<le> current_mtu (fst y))"
proof -
  have inv: "mtu_inv (s, f, n)" and n: "n + credit s f \<le> credit (mtu_new c) None"
    and maxm: "max_mtu s = max (mc_max_mtu c) 1200"
    using probe_run_inv [OF assms] by (simp_all add: MIN_INITIAL_DATAGRAM_def)
  have "credit (mtu_new c) None \<le> 2 * halvings (max (mc_max_mtu c) 1200 - 1200)"
    by (simp add: credit_def mtu_new_def MIN_INITIAL_DATAGRAM_def)
  moreover have "current_mtu s < p \<and> p < mc_max_mtu c" if "f = Some p" for p
  proof -
    have "next_probe_size s = Some p"
      using inv that by (auto simp add: mtu_inv_def split: option.splits)
    then show ?thesis using halvings_gap(2,3) [of s p] maxm inv
      by (auto simp add: mtu_inv_def MIN_INITIAL_DATAGRAM_def max_def split: if_splits)
  qed
  ultimately show ?thesis
    using n inv maxm probe_step_mono [of "(s, f, n)"]
    by (auto simp add: mtu_inv_def MIN_INITIAL_DATAGRAM_def max_def split: if_splits)
qed

text \<open>The default configuration sends at most sixteen probes; its first one is for 1326 bytes.\<close>

theorem mtu_discovery_bounded_witness:
  "probe_run MtuConfig_default
     ((mtu_new MtuConfig_default)\<lparr>probe_mtu := Some 1326\<rparr>, Some 1326, 1)
   \<and> (1 :: nat) \<le> 2 * halvings (1452 - 1200) \<and> halvings (1452 - 1200) = 8"
proof -
  define s0 where "s0 = mtu_new MtuConfig_default"
  have s1: "schedule_mtu_probe True s0 = s0\<lparr>probe_mtu := Some 1326, pending_mtu_probe := True\<rparr>"
    by (simp add: s0_def mtu_new_def MtuConfig_default_def schedule_mtu_probe_def next_probe_size_def
        MIN_INITIAL_DATAGRAM_def)
  have "take_mtu_probe (s0\<lparr>probe_mtu := Some 1326, pending_mtu_probe := True\<rparr>)
      = (s0\<lparr>probe_mtu := Some 1326\<rparr>, Some 1326)"
    by (simp add: take_mtu_probe_def s0_def mtu_new_def)
  note send = probe_step.send [OF this, of None 0]
  note timer = probe_step.timer [of s0 None 0 True, unfolded s1]
  have run: "probe_run MtuConfig_default (s0\<lparr>probe_mtu := Some 1326\<rparr>, Some 1326, 1)"
    using probe_run.step [OF probe_run.step [OF probe_run.start [of MtuConfig_default, folded s0_def] timer] send]
    by simp
  have "halvings (1452 - 1200) = 8" by (simp add: halvings.simps)
  then show ?thesis
    using mtu_discovery_bounded [OF run] run by (simp add: s0_def MtuConfig_default_def)
qed

end
