(* ===== verification/Multipath.thy ===== *)
theory Multipath
  imports Core_Types
begin

text \<open>
  \<^verbatim>\<open>oxiquic-transport/src/connection/multipath.rs\<close>: the known paths of a connection and the one
  in use.  An address is an opaque value compared for equality; \<^verbatim>\<open>Instant::now()\<close> is the argument
  \<open>now\<close>.  Error texts are left out.  A socket address is an IP address of four or sixteen octets and a port, and
  for IPv6 the flow and scope numbers.
\<close>

section \<open>Paths\<close>

datatype SocketAddr =
    SocketV4 (octets: bytes) (port: nat)
  | SocketV6 (octets: bytes) (port: nat) nat nat

datatype PathValidation = PathUnknown | PathPending | PathValidated | PathFailed

record PathState =
  local_addr :: "SocketAddr option"
  remote_addr :: SocketAddr
  path_cid :: "ConnectionId option"
  validation :: PathValidation
  path_smoothed_rtt :: "duration option"
  path_min_rtt :: "duration option"
  bandwidth_estimate :: "u64 option"
  path_packets_sent :: u64
  path_packets_received :: u64
  first_seen :: instant
  last_sent :: "instant option"

definition PathState_new :: "instant \<Rightarrow> SocketAddr \<Rightarrow> PathState" where
  "PathState_new now addr =
     \<lparr>local_addr = None, remote_addr = addr, path_cid = None, validation = PathUnknown,
      path_smoothed_rtt = None, path_min_rtt = None, bandwidth_estimate = None, path_packets_sent = 0,
      path_packets_received = 0, first_seen = now, last_sent = None\<rparr>"

definition is_usable :: "PathState \<Rightarrow> bool" where
  "is_usable p \<longleftrightarrow> validation p = PathValidated"

text \<open>Durations are in nanoseconds; the average is taken in microseconds.\<close>

definition path_update_rtt :: "duration \<Rightarrow> PathState \<Rightarrow> PathState" where
  "path_update_rtt sample p =
     p\<lparr>path_smoothed_rtt := Some (case path_smoothed_rtt p of
           None \<Rightarrow> sample
         | Some prev \<Rightarrow> (prev div 1000 * 7 + sample div 1000) div 8 * 1000),
       path_min_rtt := Some (case path_min_rtt p of None \<Rightarrow> sample | Some m \<Rightarrow> min m sample)\<rparr>"

definition record_sent :: "instant \<Rightarrow> PathState \<Rightarrow> PathState" where
  "record_sent now p = p\<lparr>path_packets_sent := path_packets_sent p + 1, last_sent := Some now\<rparr>"

definition record_received :: "PathState \<Rightarrow> PathState" where
  "record_received p = p\<lparr>path_packets_received := path_packets_received p + 1\<rparr>"

section \<open>The collection\<close>

record MultipathState =
  paths :: "PathState list"
  active_index :: nat

definition MAX_PATHS :: nat where "MAX_PATHS = 8"

definition MultipathState_new :: "instant \<Rightarrow> SocketAddr \<Rightarrow> MultipathState" where
  "MultipathState_new now addr =
     \<lparr>paths = [(PathState_new now addr)\<lparr>validation := PathValidated\<rparr>], active_index = 0\<rparr>"

definition path_count :: "MultipathState \<Rightarrow> nat" where
  "path_count m = length (paths m)"

definition active_path :: "MultipathState \<Rightarrow> PathState" where
  "active_path m = paths m ! active_index m"

definition update_active_path :: "(PathState \<Rightarrow> PathState) \<Rightarrow> MultipathState \<Rightarrow> MultipathState" where
  "update_active_path f m = m\<lparr>paths := (paths m)[active_index m := f (active_path m)]\<rparr>"

datatype PathError = AlreadyRegistered | CapacityExceeded | IndexOutOfRange | ActivePath | NotUsable

definition add_path ::
    "instant \<Rightarrow> SocketAddr \<Rightarrow> ConnectionId option \<Rightarrow> MultipathState \<Rightarrow> PathError + (nat \<times> MultipathState)" where
  "add_path now addr cid m =
     (if list_ex (\<lambda>p. remote_addr p = addr) (paths m) then Inl AlreadyRegistered
      else if length (paths m) \<ge> MAX_PATHS then Inl CapacityExceeded
      else Inr (length (paths m), m\<lparr>paths := paths m @ [(PathState_new now addr)\<lparr>path_cid := cid\<rparr>]\<rparr>))"

definition remove_path :: "nat \<Rightarrow> MultipathState \<Rightarrow> PathError + MultipathState" where
  "remove_path index m =
     (if index \<ge> length (paths m) then Inl IndexOutOfRange
      else if index = active_index m then Inl ActivePath
      else Inr (m\<lparr>paths := take index (paths m) @ drop (index + 1) (paths m),
                  active_index := (if active_index m > index then active_index m - 1 else active_index m)\<rparr>))"

definition set_preferred_path :: "nat \<Rightarrow> MultipathState \<Rightarrow> PathError + MultipathState" where
  "set_preferred_path index m =
     (if index \<ge> length (paths m) then Inl IndexOutOfRange
      else if \<not> is_usable (paths m ! index) then Inl NotUsable
      else Inr (m\<lparr>active_index := index\<rparr>))"

fun find_path :: "SocketAddr \<Rightarrow> nat \<Rightarrow> PathState list \<Rightarrow> (nat \<times> PathState) option" where
  "find_path addr i [] = None"
| "find_path addr i (p # ps) = (if remote_addr p = addr then Some (i, p) else find_path addr (i + 1) ps)"

definition path_by_addr :: "SocketAddr \<Rightarrow> MultipathState \<Rightarrow> (nat \<times> PathState) option" where
  "path_by_addr addr m = find_path addr 0 (paths m)"

text \<open>\<open>mark_validated\<close>, \<open>mark_pending\<close> and \<open>mark_failed\<close>.\<close>

definition mark :: "PathValidation \<Rightarrow> nat \<Rightarrow> MultipathState \<Rightarrow> MultipathState" where
  "mark v index m =
     (if index < length (paths m) then m\<lparr>paths := (paths m)[index := (paths m ! index)\<lparr>validation := v\<rparr>]\<rparr> else m)"

definition mark_validated :: "nat \<Rightarrow> MultipathState \<Rightarrow> MultipathState" where
  "mark_validated = mark PathValidated"

definition mark_pending :: "nat \<Rightarrow> MultipathState \<Rightarrow> MultipathState" where
  "mark_pending = mark PathPending"

definition mark_failed :: "nat \<Rightarrow> MultipathState \<Rightarrow> MultipathState" where
  "mark_failed = mark PathFailed"

text \<open>\<^verbatim>\<open>Connection::set_preferred_path\<close> also moves the peer address of the connection, and
  \<^verbatim>\<open>Connection::active_path_rtt\<close> falls back to the estimate of the connection.\<close>

definition conn_set_preferred_path ::
    "nat \<Rightarrow> SocketAddr \<times> MultipathState \<Rightarrow> PathError + (SocketAddr \<times> MultipathState)" where
  "conn_set_preferred_path index c =
     (case set_preferred_path index (snd c) of
        Inl e \<Rightarrow> Inl e
      | Inr m \<Rightarrow> Inr (remote_addr (active_path m), m))"

definition active_path_rtt :: "duration \<Rightarrow> MultipathState \<Rightarrow> duration" where
  "active_path_rtt conn_rtt m = (case path_smoothed_rtt (active_path m) of Some r \<Rightarrow> r | None \<Rightarrow> conn_rtt)"

section \<open>Invariant\<close>

datatype PathOp =
  AddPath instant SocketAddr "ConnectionId option" | RemovePath nat | SetPreferred nat
| MarkValidated nat | MarkPending nat | MarkFailed nat | UpdateRtt duration | RecordSent instant | RecordReceived

text \<open>One operation on the collection; a failing one leaves it alone.\<close>

fun path_op :: "PathOp \<Rightarrow> MultipathState \<Rightarrow> MultipathState" where
  "path_op (AddPath now addr cid) m = (case add_path now addr cid m of Inl _ \<Rightarrow> m | Inr (_, m') \<Rightarrow> m')"
| "path_op (RemovePath i) m = (case remove_path i m of Inl _ \<Rightarrow> m | Inr m' \<Rightarrow> m')"
| "path_op (SetPreferred i) m = (case set_preferred_path i m of Inl _ \<Rightarrow> m | Inr m' \<Rightarrow> m')"
| "path_op (MarkValidated i) m = mark_validated i m"
| "path_op (MarkPending i) m = mark_pending i m"
| "path_op (MarkFailed i) m = mark_failed i m"
| "path_op (UpdateRtt d) m = update_active_path (path_update_rtt d) m"
| "path_op (RecordSent now) m = update_active_path (record_sent now) m"
| "path_op RecordReceived m = update_active_path record_received m"

definition path_inv :: "MultipathState \<Rightarrow> bool" where
  "path_inv m \<longleftrightarrow> active_index m < length (paths m) \<and> length (paths m) \<le> MAX_PATHS
     \<and> distinct (map remote_addr (paths m))"

lemma map_addr_update [simp]:
  "i < length ps \<Longrightarrow> remote_addr q = remote_addr (ps ! i) \<Longrightarrow> map remote_addr (ps[i := q]) = map remote_addr ps"
  by (metis list_update_id map_update nth_map)

lemma update_active_inv:
  assumes "path_inv m" and "remote_addr (f (active_path m)) = remote_addr (active_path m)"
  shows "path_inv (update_active_path f m) \<and> remote_addr (active_path (update_active_path f m)) = remote_addr (active_path m)"
  using assms by (simp add: path_inv_def update_active_path_def active_path_def)

lemma mark_inv:
  assumes "path_inv m"
  shows "path_inv (mark v i m) \<and> remote_addr (active_path (mark v i m)) = remote_addr (active_path m)"
  using assms by (auto simp add: path_inv_def mark_def active_path_def nth_list_update)

lemma remove_inv:
  assumes inv: "path_inv m" and run: "remove_path i m = Inr m'"
  shows "path_inv m' \<and> active_path m' = active_path m"
proof -
  have i: "i < length (paths m)" "i \<noteq> active_index m"
    and m': "paths m' = take i (paths m) @ drop (i + 1) (paths m)"
      "active_index m' = (if active_index m > i then active_index m - 1 else active_index m)"
    using run by (auto simp add: remove_path_def split: if_splits)
  have "distinct (map remote_addr (take i (paths m) @ drop (i + 1) (paths m)))"
    using inv unfolding path_inv_def map_append take_map [symmetric] drop_map [symmetric]
    by (auto simp add: set_take_disj_set_drop_if_distinct)
  then show ?thesis
    using inv i m' by (auto simp add: path_inv_def active_path_def nth_append min_def)
qed

lemma add_inv:
  assumes "path_inv m" and "add_path now addr cid m = Inr (i, m')"
  shows "path_inv m' \<and> active_path m' = active_path m"
  using assms
  by (auto simp add: add_path_def path_inv_def active_path_def nth_append list_ex_iff PathState_new_def
      split: if_splits)

lemma prefer_inv:
  assumes "path_inv m" and "set_preferred_path i m = Inr m'"
  shows "path_inv m' \<and> is_usable (active_path m')"
  using assms by (auto simp add: set_preferred_path_def path_inv_def active_path_def split: if_splits)

lemma find_path_Some:
  "find_path addr i ps = Some (j, p) \<Longrightarrow> i \<le> j \<and> j - i < length ps \<and> ps ! (j - i) = p \<and> remote_addr p = addr"
proof (induction ps arbitrary: i)
  case (Cons q ps)
  show ?case
  proof (cases "remote_addr q = addr")
    case False
    then have "find_path addr (i + 1) ps = Some (j, p)" using Cons.prems by simp
    from Cons.IH [OF this] show ?thesis by (auto simp add: nth_Cons')
  qed (use Cons.prems in auto)
qed simp

lemma path_op_inv:
  assumes "path_inv m"
  shows "path_inv (path_op q m)
    \<and> ((\<forall>i. q \<noteq> SetPreferred i) \<longrightarrow> remote_addr (active_path (path_op q m)) = remote_addr (active_path m))"
proof (cases q)
  case (AddPath now addr cid)
  then show ?thesis using assms add_inv by (cases "add_path now addr cid m") auto
next
  case (RemovePath i)
  then show ?thesis using assms remove_inv by (cases "remove_path i m") auto
next
  case (SetPreferred i)
  then show ?thesis using assms prefer_inv by (cases "set_preferred_path i m") auto
qed (use assms mark_inv update_active_inv in
      \<open>simp_all add: mark_validated_def mark_pending_def mark_failed_def path_update_rtt_def record_sent_def
        record_received_def\<close>)

definition demo_addr :: "u8 \<Rightarrow> SocketAddr" where
  "demo_addr n = SocketV4 [10, 0, 0, n] 443"

definition demo_ops :: "PathOp list" where
  "demo_ops = [AddPath 5 (demo_addr 7) None, RemovePath 1, AddPath 6 (demo_addr 8) None]"

section \<open>Property\<close>

text \<open>
  C32.  Whatever is done to the paths of a connection, it knows one to eight paths to different
  addresses and the path in use is one of them.  Only \<open>set_preferred_path\<close> changes the address in
  use, and only to a validated path; the connection then sends to that path's address.
\<close>

theorem paths_well_formed:
  "path_inv (fold path_op ops (MultipathState_new now addr))
   \<and> ((\<forall>q \<in> set ops. \<forall>i. q \<noteq> SetPreferred i) \<longrightarrow>
        remote_addr (active_path (fold path_op ops (MultipathState_new now addr))) = addr)
   \<and> (\<forall>i a m. conn_set_preferred_path i (b, fold path_op ops (MultipathState_new now addr)) = Inr (a, m) \<longrightarrow>
        path_inv m \<and> is_usable (active_path m) \<and> a = remote_addr (active_path m))"
proof -
  have new: "path_inv (MultipathState_new now addr)" "remote_addr (active_path (MultipathState_new now addr)) = addr"
    by (simp_all add: path_inv_def MultipathState_new_def MAX_PATHS_def active_path_def PathState_new_def)
  have run: "path_inv (fold path_op ops m)
      \<and> ((\<forall>q \<in> set ops. \<forall>i. q \<noteq> SetPreferred i) \<longrightarrow>
           remote_addr (active_path (fold path_op ops m)) = remote_addr (active_path m))"
    if "path_inv m" for m
    using that
  proof (induction ops arbitrary: m)
    case (Cons q ops)
    then show ?case using path_op_inv [OF Cons.prems, of q] Cons.IH [of "path_op q m"] by simp
  qed simp
  then show ?thesis
    using new prefer_inv by (auto simp add: conn_set_preferred_path_def split: sum.splits)
qed

theorem paths_well_formed_witness:
  "path_inv (fold path_op demo_ops (MultipathState_new 0 (demo_addr 3)))
   \<and> remote_addr (active_path (fold path_op demo_ops (MultipathState_new 0 (demo_addr 3)))) = demo_addr 3
   \<and> path_count (fold path_op demo_ops (MultipathState_new 0 (demo_addr 3))) = 2"
proof -
  have "path_count (fold path_op demo_ops (MultipathState_new 0 (demo_addr 3))) = 2"
    by (simp add: path_count_def add_path_def remove_path_def MultipathState_new_def PathState_new_def MAX_PATHS_def
        demo_ops_def demo_addr_def)
  moreover have "\<forall>q \<in> set demo_ops. \<forall>i. q \<noteq> SetPreferred i" by (simp add: demo_ops_def)
  ultimately show ?thesis
    using paths_well_formed [of demo_ops 0 "demo_addr 3" "demo_addr 3"] by simp
qed

end
