(* ===== verification/Quic_Crypto.thy ===== *)
theory Quic_Crypto
  imports Coding
begin

text \<open>
  \<^verbatim>\<open>oxiquic-crypto/src/quic.rs\<close>: packet and header protection for the three cipher suites.

  The primitives of other crates are the fields of \<open>primitives\<close>, an argument of the
  definitions: block ciphers and keystream of \<^verbatim>\<open>oxicrypto\<close>, the AEADs of \<^verbatim>\<open>aes_gcm\<close> and
  \<^verbatim>\<open>chacha20poly1305\<close>, and the nonce construction of \<^verbatim>\<open>rustls\<close>.  The \<^verbatim>\<open>rustls\<close> traits
  \<^verbatim>\<open>PacketKey\<close> and \<^verbatim>\<open>HeaderProtectionKey\<close> are the records \<open>PacketKey\<close> and
  \<open>HeaderProtectionKey\<close>, which \<^verbatim>\<open>packet.rs\<close> uses.
\<close>

section \<open>Interfaces\<close>

text \<open>
  \<open>pk_encrypt pn header payload\<close> is the sealed payload and its tag; \<open>pk_decrypt pn header
  payload\<close> takes the ciphertext followed by the tag.  \<open>hk_encrypt\<close> and \<open>hk_decrypt\<close> map the
  first byte and the packet-number field.
\<close>

record PacketKey =
  pk_encrypt :: "u64 \<Rightarrow> bytes \<Rightarrow> bytes \<Rightarrow> (bytes \<times> bytes) option"
  pk_decrypt :: "u64 \<Rightarrow> bytes \<Rightarrow> bytes \<Rightarrow> bytes option"
  pk_tag_len :: nat
  pk_confidentiality_limit :: nat
  pk_integrity_limit :: nat

record HeaderProtectionKey =
  hk_encrypt :: "bytes \<Rightarrow> u8 \<Rightarrow> bytes \<Rightarrow> (u8 \<times> bytes) option"
  hk_decrypt :: "bytes \<Rightarrow> u8 \<Rightarrow> bytes \<Rightarrow> (u8 \<times> bytes) option"
  hk_sample_len :: nat

datatype HpKind = HpAes128 | HpAes256 | HpChaCha20

datatype AeadKind = Aes128Gcm | Aes256Gcm | ChaCha20Poly1305

record primitives =
  aes128_encrypt_block :: "bytes \<Rightarrow> bytes \<Rightarrow> bytes option"
  aes256_encrypt_block :: "bytes \<Rightarrow> bytes \<Rightarrow> bytes option"
  chacha20_keystream_block :: "bytes \<Rightarrow> nat \<Rightarrow> bytes \<Rightarrow> nat \<Rightarrow> bytes option"
  key_valid :: "AeadKind \<Rightarrow> bytes \<Rightarrow> bool"
  encrypt_detached :: "AeadKind \<Rightarrow> bytes \<Rightarrow> bytes \<Rightarrow> bytes \<Rightarrow> bytes \<Rightarrow> (bytes \<times> bytes) option"
  decrypt_detached :: "AeadKind \<Rightarrow> bytes \<Rightarrow> bytes \<Rightarrow> bytes \<Rightarrow> bytes \<Rightarrow> bytes \<Rightarrow> bytes option"
  nonce_new :: "bytes \<Rightarrow> u64 \<Rightarrow> bytes"

definition SAMPLE_LEN :: nat where "SAMPLE_LEN = 16"
definition MASK_LEN :: nat where "MASK_LEN = 5"
definition TAG_LEN :: nat where "TAG_LEN = 16"

section \<open>Header protection\<close>

record HpKey =
  hp_key :: bytes
  hp_kind :: HpKind

definition le_u32 :: "bytes \<Rightarrow> nat" where
  "le_u32 bs = unat (bs ! 0) + 256 * (unat (bs ! 1) + 256 * (unat (bs ! 2) + 256 * unat (bs ! 3)))"

definition hp_mask :: "primitives \<Rightarrow> HpKey \<Rightarrow> bytes \<Rightarrow> bytes option" where
  "hp_mask prims k sample =
     (if length sample < SAMPLE_LEN then None
      else case hp_kind k of
        HpAes128 \<Rightarrow>
          map_option (take MASK_LEN) (aes128_encrypt_block prims (hp_key k) (take SAMPLE_LEN sample))
      | HpAes256 \<Rightarrow>
          map_option (take MASK_LEN) (aes256_encrypt_block prims (hp_key k) (take SAMPLE_LEN sample))
      | HpChaCha20 \<Rightarrow>
          chacha20_keystream_block prims (hp_key k) (le_u32 sample)
            (take (SAMPLE_LEN - 4) (drop 4 sample)) MASK_LEN)"

text \<open>\<^verbatim>\<open>packet_number.iter_mut().zip(pn_mask).take(pn_len)\<close>: xor the first \<open>n\<close> bytes.\<close>

fun xor_prefix :: "nat \<Rightarrow> bytes \<Rightarrow> bytes \<Rightarrow> bytes" where
  "xor_prefix (Suc n) (d # ds) (m # ms) = (d XOR m) # xor_prefix n ds ms"
| "xor_prefix _ ds _ = ds"

definition xor_in_place ::
    "primitives \<Rightarrow> HpKey \<Rightarrow> bytes \<Rightarrow> u8 \<Rightarrow> bytes \<Rightarrow> bool \<Rightarrow> (u8 \<times> bytes) option" where
  "xor_in_place prims k sample first pn masked =
     (case hp_mask prims k sample of
        Some (first_mask # pn_mask) \<Rightarrow>
          if length pn > length pn_mask then None
          else
            let bits = (if first AND 0x80 = 0x80 then 0x0f else 0x1f);
                first_plain = (if masked then first XOR (first_mask AND bits) else first);
                pn_len = unat (first_plain AND 0x03) + 1
            in Some (first XOR (first_mask AND bits), xor_prefix pn_len pn pn_mask)
      | _ \<Rightarrow> None)"

definition header_protection_key :: "primitives \<Rightarrow> HpKey \<Rightarrow> HeaderProtectionKey" where
  "header_protection_key prims k =
     \<lparr>hk_encrypt = (\<lambda>sample first pn. xor_in_place prims k sample first pn False),
      hk_decrypt = (\<lambda>sample first pn. xor_in_place prims k sample first pn True),
      hk_sample_len = SAMPLE_LEN\<rparr>"

section \<open>Packet protection\<close>

datatype PacketAead = ValidAead AeadKind bytes | InvalidAead

record QuicPacketKey =
  qp_aead :: PacketAead
  qp_iv :: bytes

definition QuicPacketKey_new :: "primitives \<Rightarrow> AeadKind \<Rightarrow> bytes \<Rightarrow> bytes \<Rightarrow> QuicPacketKey" where
  "QuicPacketKey_new prims kind key iv =
     \<lparr>qp_aead = (if key_valid prims kind key then ValidAead kind key else InvalidAead), qp_iv = iv\<rparr>"

definition seal :: "primitives \<Rightarrow> QuicPacketKey \<Rightarrow> u64 \<Rightarrow> bytes \<Rightarrow> bytes \<Rightarrow> (bytes \<times> bytes) option" where
  "seal prims k pn header payload =
     (case qp_aead k of
        ValidAead kind key \<Rightarrow> encrypt_detached prims kind key (nonce_new prims (qp_iv k) pn) header payload
      | InvalidAead \<Rightarrow> None)"

definition open_packet :: "primitives \<Rightarrow> QuicPacketKey \<Rightarrow> u64 \<Rightarrow> bytes \<Rightarrow> bytes \<Rightarrow> bytes option" where
  "open_packet prims k pn header payload =
     (if length payload < TAG_LEN then None
      else
        let split = length payload - TAG_LEN;
            ct = take split payload;
            tag = drop split payload
        in case qp_aead k of
             ValidAead kind key \<Rightarrow>
               decrypt_detached prims kind key (nonce_new prims (qp_iv k) pn) header ct tag
           | InvalidAead \<Rightarrow> None)"

definition confidentiality_limit :: "QuicPacketKey \<Rightarrow> nat" where
  "confidentiality_limit k =
     (case qp_aead k of
        ValidAead ChaCha20Poly1305 _ \<Rightarrow> U64_MAX
      | ValidAead _ _ \<Rightarrow> 2 ^ 23
      | InvalidAead \<Rightarrow> 0)"

definition integrity_limit :: "QuicPacketKey \<Rightarrow> nat" where
  "integrity_limit k =
     (case qp_aead k of
        ValidAead ChaCha20Poly1305 _ \<Rightarrow> 2 ^ 36
      | ValidAead _ _ \<Rightarrow> 2 ^ 52
      | InvalidAead \<Rightarrow> 0)"

definition packet_key_of :: "primitives \<Rightarrow> QuicPacketKey \<Rightarrow> PacketKey" where
  "packet_key_of prims k =
     \<lparr>pk_encrypt = seal prims k, pk_decrypt = open_packet prims k, pk_tag_len = TAG_LEN,
      pk_confidentiality_limit = confidentiality_limit k, pk_integrity_limit = integrity_limit k\<rparr>"

record QuicAlgorithm =
  qa_aead :: AeadKind
  qa_hp :: HpKind
  qa_key_len :: nat

definition AES128_GCM :: QuicAlgorithm where
  "AES128_GCM = \<lparr>qa_aead = Aes128Gcm, qa_hp = HpAes128, qa_key_len = 16\<rparr>"

definition AES256_GCM :: QuicAlgorithm where
  "AES256_GCM = \<lparr>qa_aead = Aes256Gcm, qa_hp = HpAes256, qa_key_len = 32\<rparr>"

definition CHACHA20_POLY1305 :: QuicAlgorithm where
  "CHACHA20_POLY1305 = \<lparr>qa_aead = ChaCha20Poly1305, qa_hp = HpChaCha20, qa_key_len = 32\<rparr>"

definition algorithm_packet_key :: "primitives \<Rightarrow> QuicAlgorithm \<Rightarrow> bytes \<Rightarrow> bytes \<Rightarrow> PacketKey" where
  "algorithm_packet_key prims a key iv = packet_key_of prims (QuicPacketKey_new prims (qa_aead a) key iv)"

definition algorithm_header_key :: "primitives \<Rightarrow> QuicAlgorithm \<Rightarrow> bytes \<Rightarrow> HeaderProtectionKey" where
  "algorithm_header_key prims a key = header_protection_key prims \<lparr>hp_key = key, hp_kind = qa_hp a\<rparr>"

section \<open>Laws\<close>

text \<open>
  What the primitives document: masks are as long as asked for, an AEAD keeps the length,
  its tag has 16 bytes, and opening undoes sealing.
\<close>

definition primitives_ok :: "primitives \<Rightarrow> bool" where
  "primitives_ok prims \<longleftrightarrow>
     (\<forall>k s b. aes128_encrypt_block prims k s = Some b \<longrightarrow> length b = SAMPLE_LEN)
     \<and> (\<forall>k s b. aes256_encrypt_block prims k s = Some b \<longrightarrow> length b = SAMPLE_LEN)
     \<and> (\<forall>k c s n b. chacha20_keystream_block prims k c s n = Some b \<longrightarrow> length b = n)
     \<and> (\<forall>kind k n h p ct tag. encrypt_detached prims kind k n h p = Some (ct, tag) \<longrightarrow>
          length ct = length p \<and> length tag = TAG_LEN \<and> decrypt_detached prims kind k n h ct tag = Some p)"

text \<open>
  What \<^verbatim>\<open>packet.rs\<close> relies on: opening a sealed payload gives it back, and unmasking a
  masked header gives the header back even when the field passed to it also holds the
  bytes after the packet number, as it does on receipt.
\<close>

definition packet_key_ok :: "PacketKey \<Rightarrow> bool" where
  "packet_key_ok pk \<longleftrightarrow> pk_tag_len pk = 16
     \<and> (\<forall>pn h p ct tag. pk_encrypt pk pn h p = Some (ct, tag) \<longrightarrow>
          length ct = length p \<and> length tag = 16 \<and> pk_decrypt pk pn h (ct @ tag) = Some p)"

definition header_key_ok :: "HeaderProtectionKey \<Rightarrow> bool" where
  "header_key_ok hk \<longleftrightarrow>
     (\<forall>sample first pn first' pn'. hk_encrypt hk sample first pn = Some (first', pn')
        \<longrightarrow> length pn = unat (first AND 0x03) + 1 \<longrightarrow>
        length pn' = length pn \<and> first' AND 0x80 = first AND 0x80 \<and> first' AND 0x40 = first AND 0x40
        \<and> (first AND 0x80 = 0x80 \<longrightarrow> first' AND 0xf0 = first AND 0xf0)
        \<and> (\<forall>extra. length pn + length extra \<le> 4 \<longrightarrow>
             hk_decrypt hk sample first' (pn' @ extra) = Some (first, pn @ extra)))"

lemma length_xor_prefix [simp]: "length (xor_prefix n ds ms) = length ds"
  by (induction n ds ms rule: xor_prefix.induct) simp_all

lemma xor_prefix_twice:
  assumes "length ds \<le> length ms"
  shows "xor_prefix (length ds) (xor_prefix (length ds) ds ms @ extra) ms = ds @ extra"
  using assms
proof (induction ds arbitrary: ms)
  case (Cons d ds)
  then obtain m ms' where "ms = m # ms'" by (cases ms) auto
  then show ?case using Cons by (simp add: xor.assoc)
next
  case Nil
  then show ?case by (cases extra; cases ms) simp_all
qed

lemma mask_keeps_form [simp]:
  "(f XOR (m AND 0x0f)) AND 0x80 = (f :: u8) AND 0x80"
  "(f XOR (m AND 0x1f)) AND 0x80 = (f :: u8) AND 0x80"
  "(f XOR (m AND 0x0f)) AND 0x40 = (f :: u8) AND 0x40"
  "(f XOR (m AND 0x1f)) AND 0x40 = (f :: u8) AND 0x40"
  "(f XOR (m AND 0x0f)) AND 0xf0 = (f :: u8) AND 0xf0"
  by (simp_all add: bit.conj_xor_distrib2 and.assoc)

lemma hp_mask_length:
  "primitives_ok prims \<Longrightarrow> hp_mask prims k sample = Some m \<Longrightarrow> length m = MASK_LEN"
  by (auto simp add: hp_mask_def primitives_ok_def MASK_LEN_def SAMPLE_LEN_def split: if_splits HpKind.splits)

lemma hp_mask_cases:
  assumes "primitives_ok prims" "xor_in_place prims k sample first pn masked = Some r"
  obtains m ms where "hp_mask prims k sample = Some (m # ms)" "length ms = 4" "length pn \<le> 4"
  using assms(2) hp_mask_length [OF assms(1)]
  by (fastforce simp add: xor_in_place_def MASK_LEN_def split: option.splits list.splits if_splits)

theorem header_key_from_primitives:
  assumes ok: "primitives_ok prims"
  shows "header_key_ok (algorithm_header_key prims a key)"
proof -
  define k where "k = \<lparr>hp_key = key, hp_kind = qa_hp a\<rparr>"
  have "length pn' = length pn \<and> first' AND 0x80 = first AND 0x80 \<and> first' AND 0x40 = first AND 0x40
     \<and> (first AND 0x80 = 0x80 \<longrightarrow> first' AND 0xf0 = first AND 0xf0)
     \<and> (\<forall>extra. length pn + length extra \<le> 4 \<longrightarrow>
          xor_in_place prims k sample first' (pn' @ extra) True = Some (first, pn @ extra))"
    if enc: "xor_in_place prims k sample first pn False = Some (first', pn')"
      and len: "length pn = unat (first AND 0x03) + 1" for sample first pn first' pn'
  proof -
    obtain m ms where mask: "hp_mask prims k sample = Some (m # ms)" "length ms = 4" "length pn \<le> 4"
      using hp_mask_cases [OF ok enc] .
    define bits :: u8 where "bits = (if first AND 0x80 = 0x80 then 0x0f else 0x1f)"
    have first': "first' = first XOR (m AND bits)" and pn': "pn' = xor_prefix (length pn) pn ms"
      using enc mask len by (simp_all add: xor_in_place_def Let_def bits_def)
    have form: "first' AND 0x80 = first AND 0x80" "first' AND 0x40 = first AND 0x40"
      by (simp_all add: first' bits_def)
    have undo: "first' XOR (m AND bits) = first"
      by (simp add: first' xor.assoc)
    have "xor_in_place prims k sample first' (pn' @ extra) True = Some (first, pn @ extra)"
      if "length pn + length extra \<le> 4" for extra
      using that mask undo len pn' xor_prefix_twice [of pn ms extra]
      by (simp add: xor_in_place_def Let_def form bits_def [symmetric])
    moreover have "first AND 0x80 = 0x80 \<longrightarrow> first' AND 0xf0 = first AND 0xf0"
      by (simp add: first' bits_def)
    ultimately show ?thesis using form pn' by simp
  qed
  then show ?thesis
    unfolding header_key_ok_def algorithm_header_key_def header_protection_key_def k_def by simp
qed

theorem packet_key_from_primitives:
  assumes ok: "primitives_ok prims"
  shows "packet_key_ok (algorithm_packet_key prims a key iv)"
proof -
  define k where "k = QuicPacketKey_new prims (qa_aead a) key iv"
  have "length ct = length p \<and> length tag = 16 \<and> open_packet prims k pn h (ct @ tag) = Some p"
    if "seal prims k pn h p = Some (ct, tag)" for pn h p ct tag
    using that ok unfolding primitives_ok_def seal_def open_packet_def
    by (fastforce simp add: Let_def TAG_LEN_def split: PacketAead.splits)
  then show ?thesis
    by (simp add: packet_key_ok_def algorithm_packet_key_def packet_key_of_def k_def TAG_LEN_def)
qed

lemma key_laws_from_primitives:
  assumes "primitives_ok prims"
  shows "packet_key_ok (algorithm_packet_key prims a key iv)"
    and "header_key_ok (algorithm_header_key prims a hp)"
    and "hk_sample_len (algorithm_header_key prims a hp) = 16"
  using packet_key_from_primitives [OF assms] header_key_from_primitives [OF assms]
  by (simp_all add: algorithm_header_key_def header_protection_key_def SAMPLE_LEN_def)

end
