(* ===== verification/Packets.thy ===== *)
theory Packets
  imports Quic_Crypto Core_Types
begin

text \<open>
  \<^verbatim>\<open>oxiquic-transport/src/packet.rs\<close>: protected long and short packets, Version
  Negotiation and Retry.

  A builder takes the datagram built so far and returns the extended datagram with the
  result, as the code leaves header bytes behind in the datagram when sealing fails.  A
  parser reads one packet at an offset of the datagram; the bytes of a packet are not read
  again once it is parsed, so only \<open>strip_short_header_protection\<close>, whose caller goes on with
  the modified datagram, returns it.
\<close>

section \<open>Slices\<close>

definition slice :: "nat \<Rightarrow> nat \<Rightarrow> bytes \<Rightarrow> bytes" where
  "slice a b d = take (b - a) (drop a d)"

definition get_slice :: "nat \<Rightarrow> nat \<Rightarrow> bytes \<Rightarrow> bytes option" where
  "get_slice a b d = (if a \<le> b \<and> b \<le> length d then Some (slice a b d) else None)"

definition overwrite :: "nat \<Rightarrow> bytes \<Rightarrow> bytes \<Rightarrow> bytes" where
  "overwrite a bs d = take a d @ bs @ drop (a + length bs) d"

definition to_be_bytes32 :: "nat \<Rightarrow> bytes" where
  "to_be_bytes32 v =
     [word_of_nat (drop_bit 24 v), word_of_nat (drop_bit 16 v), word_of_nat (drop_bit 8 v), word_of_nat v]"

section \<open>Building\<close>

datatype PacketError = Truncated | MalformedPacket string | CryptoFailed | WrongVersion nat

definition packet_error_from :: "codec_error \<Rightarrow> PacketError" where
  "packet_error_from e = Truncated"

definition HP_SAMPLE_OFFSET :: nat where "HP_SAMPLE_OFFSET = 4"

datatype LongType = LongInitial | LongZeroRtt | LongHandshake

fun type_bits :: "LongType \<Rightarrow> u8" where
  "type_bits LongInitial = 0"
| "type_bits LongZeroRtt = 1"
| "type_bits LongHandshake = 2"

record BuildLong =
  bl_long_type :: LongType
  bl_version :: nat
  bl_dcid :: bytes
  bl_scid :: bytes
  bl_token :: bytes
  bl_packet_number :: u64
  bl_largest_acked :: "u64 option"

record BuildShort =
  bs_dcid :: bytes
  bs_packet_number :: u64
  bs_largest_acked :: "u64 option"
  bs_key_phase :: bool

record PnLayout =
  pl_start :: nat
  pl_pn_offset :: nat
  pl_pn_len :: nat
  pl_packet_number :: u64

definition min_plaintext :: "HeaderProtectionKey \<Rightarrow> nat \<Rightarrow> nat" where
  "min_plaintext hk pn_len = (HP_SAMPLE_OFFSET + hk_sample_len hk) - (pn_len + 16)"

definition effective_payload :: "HeaderProtectionKey \<Rightarrow> nat \<Rightarrow> bytes \<Rightarrow> bytes" where
  "effective_payload hk pn_len payload =
     (let m = min_plaintext hk pn_len
      in if length payload < m then payload @ replicate (m - length payload) 0 else payload)"

definition protect_header ::
    "bytes \<Rightarrow> PnLayout \<Rightarrow> HeaderProtectionKey \<Rightarrow> bytes \<times> (PacketError + unit)" where
  "protect_header d layout hk =
     (let start = pl_start layout;
          pn_offset = pl_pn_offset layout;
          sample_start = pn_offset + HP_SAMPLE_OFFSET
      in case get_slice sample_start (sample_start + hk_sample_len hk) d of
           None \<Rightarrow> (d, Inl CryptoFailed)
         | Some sample \<Rightarrow>
             (case hk_encrypt hk sample (d ! start) (slice pn_offset (pn_offset + pl_pn_len layout) d) of
                None \<Rightarrow> (d, Inl CryptoFailed)
              | Some (first, pn) \<Rightarrow> (overwrite pn_offset pn (d[start := first]), Inr ())))"

definition finish_packet ::
    "bytes \<Rightarrow> PnLayout \<Rightarrow> bytes \<Rightarrow> PacketKey \<Rightarrow> HeaderProtectionKey \<Rightarrow> bytes \<times> (PacketError + unit)" where
  "finish_packet datagram layout payload pk hk =
     (let header = drop (pl_start layout) datagram
      in case pk_encrypt pk (pl_packet_number layout) header
                (effective_payload hk (pl_pn_len layout) payload) of
           None \<Rightarrow> (datagram, Inl CryptoFailed)
         | Some (sealed, tag) \<Rightarrow> protect_header (datagram @ sealed @ tag) layout hk)"

definition long_first :: "BuildLong \<Rightarrow> nat \<Rightarrow> u8" where
  "long_first p pn_len =
     0x80 OR 0x40 OR push_bit 4 (type_bits (bl_long_type p)) OR (word_of_nat pn_len - 1)"

text \<open>The clear header of a long packet between its first byte and its packet number, with the
  Length field \<open>len\<close>.\<close>

definition long_mid :: "BuildLong \<Rightarrow> nat \<Rightarrow> bytes" where
  "long_mid p len =
     to_be_bytes32 (bl_version p)
     @ [word_of_nat (length (bl_dcid p))] @ bl_dcid p
     @ [word_of_nat (length (bl_scid p))] @ bl_scid p
     @ (if bl_long_type p = LongInitial then put_varint (length (bl_token p)) @ bl_token p else [])
     @ put_varint len"

definition build_long_packet ::
    "bytes \<Rightarrow> BuildLong \<Rightarrow> bytes \<Rightarrow> PacketKey \<Rightarrow> HeaderProtectionKey \<Rightarrow> bytes \<times> (PacketError + nat)" where
  "build_long_packet datagram p payload pk hk =
     (let start = length datagram;
          pn_len = packet_number_len (bl_packet_number p) (bl_largest_acked p);
          d = datagram @ [long_first p pn_len] @ long_mid p (pn_len + length payload + pk_tag_len pk);
          layout = \<lparr>pl_start = start, pl_pn_offset = length d, pl_pn_len = pn_len,
                    pl_packet_number = bl_packet_number p\<rparr>;
          (out, r) = finish_packet (d @ encode_packet_number (bl_packet_number p) pn_len)
                       layout payload pk hk
      in (out, bind_result r (\<lambda>_. Inr (length out - start))))"

definition short_first :: "BuildShort \<Rightarrow> nat \<Rightarrow> u8" where
  "short_first p pn_len =
     0x40 OR (if bs_key_phase p then 0x04 else 0x00) OR (word_of_nat pn_len - 1)"

definition build_short_packet ::
    "bytes \<Rightarrow> BuildShort \<Rightarrow> bytes \<Rightarrow> PacketKey \<Rightarrow> HeaderProtectionKey \<Rightarrow> bytes \<times> (PacketError + nat)" where
  "build_short_packet datagram p payload pk hk =
     (let start = length datagram;
          pn_len = packet_number_len (bs_packet_number p) (bs_largest_acked p);
          d = datagram @ [short_first p pn_len] @ bs_dcid p;
          layout = \<lparr>pl_start = start, pl_pn_offset = length d, pl_pn_len = pn_len,
                    pl_packet_number = bs_packet_number p\<rparr>;
          (out, r) = finish_packet (d @ encode_packet_number (bs_packet_number p) pn_len)
                       layout payload pk hk
      in (out, bind_result r (\<lambda>_. Inr (length out - start))))"

section \<open>Parsing\<close>

record ParsedPacket =
  pp_packet_type :: PacketType
  pp_scid :: bytes
  pp_dcid :: bytes
  pp_packet_number :: u64
  pp_payload :: bytes
  pp_consumed :: nat
  pp_key_phase :: bool

record LongHeaderLayout =
  lh_packet_type :: PacketType
  lh_version :: nat
  lh_scid :: bytes
  lh_dcid :: bytes
  lh_pn_offset :: nat
  lh_packet_end :: nat

text \<open>\<open>p\<close> with the \<^verbatim>\<open>From<CodecError>\<close> conversion of the \<^verbatim>\<open>?\<close> operator.\<close>

abbreviation pe :: "(codec_error, 'a) decoder \<Rightarrow> (PacketError, 'a) decoder" where
  "pe p \<equiv> map_err_d packet_error_from p"

definition long_header_fields ::
    "u8 \<Rightarrow> (PacketError, PacketType \<times> nat \<times> bytes \<times> bytes \<times> nat) decoder" where
  "long_header_fields first =
     bind_d (pe get_u8) (\<lambda>_.
     bind_d (pe get_u32) (\<lambda>version.
     bind_d (pe get_u8) (\<lambda>dcid_len.
       if unat dcid_len > 20 then fail_d (MalformedPacket ''dcid too long'') else
     bind_d (pe (get_bytes (unat dcid_len))) (\<lambda>dcid.
     bind_d (pe get_u8) (\<lambda>scid_len.
       if unat scid_len > 20 then fail_d (MalformedPacket ''scid too long'') else
     bind_d (pe (get_bytes (unat scid_len))) (\<lambda>scid.
       let packet_type = from_first_byte_and_version first version in
     bind_d (if packet_type = PT_Initial
             then bind_d (pe get_varint) (\<lambda>token_len. bind_d (pe (get_bytes token_len)) (\<lambda>_. return_d ()))
             else return_d ()) (\<lambda>_.
     bind_d (pe get_varint) (\<lambda>len.
       return_d (packet_type, version, dcid, scid, len)))))))))"

definition parse_long_header :: "bytes \<Rightarrow> nat \<Rightarrow> u8 \<Rightarrow> PacketError + LongHeaderLayout" where
  "parse_long_header datagram offset first =
     bind_result (long_header_fields first (Buf_new (drop offset datagram)))
       (\<lambda>((packet_type, version, dcid, scid, len), buf).
          let pn_offset = offset + buf_pos buf in
          bind_result (ok_or Truncated (checked_add pn_offset len)) (\<lambda>packet_end.
            if packet_end > length datagram then Inl Truncated
            else Inr \<lparr>lh_packet_type = packet_type, lh_version = version, lh_scid = scid,
                      lh_dcid = dcid, lh_pn_offset = pn_offset, lh_packet_end = packet_end\<rparr>))"

text \<open>The common part of \<open>unprotect_and_decrypt\<close> and \<open>strip_short_header_protection\<close>: the
  datagram with the header protection of the packet removed.\<close>

definition remove_protection ::
    "bytes \<Rightarrow> nat \<Rightarrow> nat \<Rightarrow> nat \<Rightarrow> HeaderProtectionKey \<Rightarrow> PacketError + bytes" where
  "remove_protection datagram packet_start pn_offset packet_end hk =
     (let sample_start = pn_offset + HP_SAMPLE_OFFSET in
      if sample_start + hk_sample_len hk > packet_end then Inl Truncated
      else
        let sample = slice sample_start (sample_start + hk_sample_len hk) datagram in
        if packet_start \<ge> pn_offset then Inl (MalformedPacket ''missing first byte'')
        else
          case hk_decrypt hk sample (datagram ! packet_start) (take 4 (drop pn_offset datagram)) of
            None \<Rightarrow> Inl CryptoFailed
          | Some (first, pn) \<Rightarrow> Inr (overwrite pn_offset pn (datagram[packet_start := first])))"

text \<open>Packet number and payload of an unprotected packet.\<close>

definition open_payload ::
    "bytes \<Rightarrow> nat \<Rightarrow> nat \<Rightarrow> nat \<Rightarrow> u64 option \<Rightarrow> PacketKey \<Rightarrow> PacketError + (u64 \<times> bytes)" where
  "open_payload d packet_start pn_offset packet_end largest_pn pk =
     (let pn_len = unat ((d ! packet_start) AND 0x03) + 1;
          payload_start = pn_offset + pn_len;
          packet_number = decode_packet_number largest_pn (be_value (slice pn_offset payload_start d)) pn_len;
          header = slice packet_start payload_start d
      in bind_result (ok_or Truncated (get_slice payload_start packet_end d)) (\<lambda>payload.
         bind_result (ok_or CryptoFailed (pk_decrypt pk packet_number header payload)) (\<lambda>plaintext.
           Inr (packet_number, plaintext))))"

definition unprotect_and_decrypt ::
    "bytes \<Rightarrow> nat \<Rightarrow> nat \<Rightarrow> nat \<Rightarrow> u64 option \<Rightarrow> PacketKey \<Rightarrow> HeaderProtectionKey
      \<Rightarrow> PacketError + (u64 \<times> bytes \<times> u8)" where
  "unprotect_and_decrypt datagram packet_start pn_offset packet_end largest_pn pk hk =
     bind_result (remove_protection datagram packet_start pn_offset packet_end hk) (\<lambda>d.
     bind_result (open_payload d packet_start pn_offset packet_end largest_pn pk) (\<lambda>(pn, plaintext).
       Inr (pn, plaintext, d ! packet_start)))"

definition parse_long_packet ::
    "bytes \<Rightarrow> nat \<Rightarrow> nat \<Rightarrow> u64 option \<Rightarrow> PacketKey \<Rightarrow> HeaderProtectionKey \<Rightarrow> PacketError + ParsedPacket" where
  "parse_long_packet datagram offset expected_version largest_pn pk hk =
     (if offset \<ge> length datagram then Inl Truncated
      else
        bind_result (parse_long_header datagram offset (datagram ! offset)) (\<lambda>layout.
          if lh_version layout \<noteq> expected_version then Inl (WrongVersion (lh_version layout))
          else
            bind_result (unprotect_and_decrypt datagram offset (lh_pn_offset layout)
                           (lh_packet_end layout) largest_pn pk hk) (\<lambda>(pn, payload, _).
              Inr \<lparr>pp_packet_type = lh_packet_type layout, pp_scid = lh_scid layout,
                   pp_dcid = lh_dcid layout, pp_packet_number = pn, pp_payload = payload,
                   pp_consumed = lh_packet_end layout, pp_key_phase = False\<rparr>)))"

definition parse_short_packet ::
    "bytes \<Rightarrow> nat \<Rightarrow> nat \<Rightarrow> u64 option \<Rightarrow> PacketKey \<Rightarrow> HeaderProtectionKey \<Rightarrow> PacketError + ParsedPacket" where
  "parse_short_packet datagram offset dcid_len largest_pn pk hk =
     (if offset \<ge> length datagram then Inl Truncated
      else
        bind_result (ok_or Truncated (get_slice (offset + 1) (offset + 1 + dcid_len) datagram)) (\<lambda>dcid.
        bind_result (unprotect_and_decrypt datagram offset (offset + 1 + dcid_len)
                       (length datagram) largest_pn pk hk) (\<lambda>(pn, payload, first).
          Inr \<lparr>pp_packet_type = PT_Short, pp_scid = [], pp_dcid = dcid, pp_packet_number = pn,
               pp_payload = payload, pp_consumed = length datagram,
               pp_key_phase = (first AND 0x04 \<noteq> 0)\<rparr>)))"

definition strip_short_header_protection ::
    "bytes \<Rightarrow> nat \<Rightarrow> nat \<Rightarrow> HeaderProtectionKey \<Rightarrow> PacketError + (bytes \<times> bool \<times> u8)" where
  "strip_short_header_protection datagram offset dcid_len hk =
     (if offset \<ge> length datagram then Inl Truncated
      else
        bind_result (remove_protection datagram offset (offset + 1 + dcid_len) (length datagram) hk) (\<lambda>d.
          Inr (d, (d ! offset) AND 0x04 \<noteq> 0, d ! offset)))"

definition decrypt_short_packet_body ::
    "bytes \<Rightarrow> nat \<Rightarrow> nat \<Rightarrow> u64 option \<Rightarrow> PacketKey \<Rightarrow> PacketError + ParsedPacket" where
  "decrypt_short_packet_body datagram offset dcid_len largest_pn pk =
     (if offset \<ge> length datagram then Inl Truncated
      else
        bind_result (ok_or Truncated (get_slice (offset + 1) (offset + 1 + dcid_len) datagram)) (\<lambda>dcid.
          let pn_offset = offset + 1 + dcid_len;
              first = datagram ! offset
          in if pn_offset + (unat (first AND 0x03) + 1) > length datagram then Inl Truncated
             else
               bind_result (open_payload datagram offset pn_offset (length datagram) largest_pn pk)
                 (\<lambda>(pn, payload).
                    Inr \<lparr>pp_packet_type = PT_Short, pp_scid = [], pp_dcid = dcid,
                         pp_packet_number = pn, pp_payload = payload,
                         pp_consumed = length datagram, pp_key_phase = (first AND 0x04 \<noteq> 0)\<rparr>)))"

section \<open>Version Negotiation\<close>

definition encode_version_negotiation :: "bytes \<Rightarrow> bytes \<Rightarrow> nat list \<Rightarrow> bytes" where
  "encode_version_negotiation client_scid client_dcid supported_versions =
     [0x80] @ to_be_bytes32 0
     @ [word_of_nat (length client_scid)] @ client_scid
     @ [word_of_nat (length client_dcid)] @ client_dcid
     @ concat (map to_be_bytes32 supported_versions)"

text \<open>Errors become \<open>None\<close>: \<^verbatim>\<open>.ok()?\<close>.\<close>

definition version_negotiation_fields :: "(PacketError, nat list) decoder" where
  "version_negotiation_fields =
     bind_d (pe get_u8) (\<lambda>first.
       if first AND 0x80 = 0 then fail_d Truncated else
     bind_d (pe get_u32) (\<lambda>version.
       if version \<noteq> 0 then fail_d Truncated else
     bind_d (pe get_u8) (\<lambda>dcid_len.
     bind_d (pe (get_bytes (unat dcid_len))) (\<lambda>_.
     bind_d (pe get_u8) (\<lambda>scid_len.
     bind_d (pe (get_bytes (unat scid_len))) (\<lambda>_ buf.
       if remaining buf mod 4 \<noteq> 0 then Inl Truncated
       else repeat_d (remaining buf div 4) (pe get_u32) buf))))))"

definition ok_value :: "'e + ('a \<times> Buf) \<Rightarrow> 'a option" where
  "ok_value r = (case r of Inl _ \<Rightarrow> None | Inr (x, _) \<Rightarrow> Some x)"

definition decode_version_negotiation :: "bytes \<Rightarrow> nat list option" where
  "decode_version_negotiation datagram = ok_value (version_negotiation_fields (Buf_new datagram))"

section \<open>Retry\<close>

definition RETRY_KEY :: bytes where
  "RETRY_KEY = [0xbe, 0x0c, 0x69, 0x0b, 0x9f, 0x66, 0x57, 0x5a, 0x1d, 0x76, 0x6b, 0x54, 0xe3, 0x68, 0xc8, 0x4e]"

definition RETRY_NONCE :: bytes where
  "RETRY_NONCE = [0x46, 0x15, 0x99, 0xd3, 0x5d, 0x63, 0x2b, 0xf2, 0x23, 0x98, 0x25, 0xbb]"

text \<open>\<open>gcm key nonce msg aad\<close> is \<^verbatim>\<open>Aes128Gcm::encrypt\<close> of the crate \<^verbatim>\<open>aes_gcm\<close>.\<close>

type_synonym gcm = "bytes \<Rightarrow> bytes \<Rightarrow> bytes \<Rightarrow> bytes \<Rightarrow> bytes option"

definition compute_retry_integrity_tag :: "gcm \<Rightarrow> bytes \<Rightarrow> bytes \<Rightarrow> bytes option" where
  "compute_retry_integrity_tag gcm odcid retry_without_tag =
     (let pseudo = [word_of_nat (length odcid)] @ odcid @ retry_without_tag
      in case gcm RETRY_KEY RETRY_NONCE [] pseudo of
           None \<Rightarrow> None
         | Some sealed \<Rightarrow> if length sealed \<noteq> 16 then None else Some sealed)"

definition verify_retry_integrity_tag :: "gcm \<Rightarrow> bytes \<Rightarrow> bytes \<Rightarrow> bool" where
  "verify_retry_integrity_tag gcm odcid retry_packet =
     (if length retry_packet < 16 then False
      else
        let split = length retry_packet - 16 in
        case compute_retry_integrity_tag gcm odcid (take split retry_packet) of
          None \<Rightarrow> False
        | Some computed \<Rightarrow>
            foldl (\<lambda>diff (a, b). diff OR (a XOR b)) 0 (zip computed (drop split retry_packet)) = 0)"

definition encode_retry_packet :: "gcm \<Rightarrow> bytes \<Rightarrow> bytes \<Rightarrow> bytes \<Rightarrow> bytes \<Rightarrow> bytes option" where
  "encode_retry_packet gcm scid dcid odcid token =
     (let buf = [0xf1] @ to_be_bytes32 1
                @ [word_of_nat (length dcid)] @ dcid
                @ [word_of_nat (length scid)] @ scid @ token
      in case compute_retry_integrity_tag gcm odcid buf of
           None \<Rightarrow> None
         | Some tag \<Rightarrow> Some (buf @ tag))"

definition retry_fields :: "(PacketError, bytes \<times> bytes) decoder" where
  "retry_fields =
     bind_d (pe get_u8) (\<lambda>first.
       if first AND 0x80 = 0 \<or> first AND 0x30 \<noteq> 0x30 then fail_d Truncated else
     bind_d (pe get_u32) (\<lambda>version.
       if version \<noteq> 1 then fail_d Truncated else
     bind_d (pe get_u8) (\<lambda>dcid_len.
     bind_d (pe (get_bytes (unat dcid_len))) (\<lambda>dcid.
     bind_d (pe get_u8) (\<lambda>scid_len.
     bind_d (pe (get_bytes (unat scid_len))) (\<lambda>scid.
       return_d (dcid, scid)))))))"

definition parse_retry_packet :: "bytes \<Rightarrow> (bytes \<times> bytes \<times> bytes) option" where
  "parse_retry_packet datagram =
     (if length datagram < 23 then None
      else case retry_fields (Buf_new datagram) of
             Inl _ \<Rightarrow> None
           | Inr ((dcid, scid), buf) \<Rightarrow>
               let consumed = buf_pos buf in
               if length datagram < consumed + 16 then None
               else Some (scid, dcid, slice consumed (length datagram - 16) datagram))"

section \<open>Routing\<close>

definition initial_token_fields :: "(PacketError, bytes) decoder" where
  "initial_token_fields =
     bind_d (pe get_u8) (\<lambda>_.
     bind_d (pe get_u32) (\<lambda>_.
     bind_d (pe get_u8) (\<lambda>dcid_len.
     bind_d (pe (get_bytes (unat dcid_len))) (\<lambda>_.
     bind_d (pe get_u8) (\<lambda>scid_len.
     bind_d (pe (get_bytes (unat scid_len))) (\<lambda>_.
     bind_d (pe get_varint) (\<lambda>token_len. pe (get_bytes token_len))))))))"

definition parse_initial_token :: "bytes \<Rightarrow> bytes option" where
  "parse_initial_token datagram =
     (case datagram of
        [] \<Rightarrow> None
      | first # _ \<Rightarrow>
          if first AND 0x80 = 0 then None
          else if first AND 0x30 \<noteq> 0 then None
          else ok_value (initial_token_fields (Buf_new datagram)))"

definition long_dcid_fields :: "u8 \<Rightarrow> (PacketError, PacketType \<times> bytes) decoder" where
  "long_dcid_fields first =
     bind_d (pe get_u8) (\<lambda>_.
     bind_d (pe get_u32) (\<lambda>version.
     bind_d (pe get_u8) (\<lambda>dcid_len.
     bind_d (pe (get_bytes (unat dcid_len))) (\<lambda>dcid.
       return_d (from_first_byte_and_version first version, dcid)))))"

definition peek_dcid :: "bytes \<Rightarrow> nat \<Rightarrow> PacketError + (PacketType \<times> bytes)" where
  "peek_dcid datagram short_dcid_len =
     (case datagram of
        [] \<Rightarrow> Inl Truncated
      | first # _ \<Rightarrow>
          if first AND 0x80 = 0
          then bind_result (ok_or Truncated (get_slice 1 (1 + short_dcid_len) datagram)) (\<lambda>dcid.
                 Inr (PT_Short, dcid))
          else bind_result (long_dcid_fields first (Buf_new datagram)) (\<lambda>(r, _). Inr r))"

section \<open>Lemmas: first bytes and fields\<close>

lemma pn_len_cases:
  obtains "packet_number_len pn a = 1" | "packet_number_len pn a = 2"
  | "packet_number_len pn a = 3" | "packet_number_len pn a = 4"
  using packet_number_len_bounds [of pn a] by linarith

lemma long_first_bits:
  fixes p pn a
  defines "f \<equiv> long_first p (packet_number_len pn a)"
  shows "unat (f AND 0x03) + 1 = packet_number_len pn a" and "f AND 0x80 = 0x80"
    and "drop_bit 4 (f AND 0x30) = type_bits (bl_long_type p)"
proof -
  have "unat (f AND 0x03) + 1 = packet_number_len pn a \<and> f AND 0x80 = 0x80
    \<and> drop_bit 4 (f AND 0x30) = type_bits (bl_long_type p)"
    unfolding f_def by (cases rule: pn_len_cases [of pn a]; cases "bl_long_type p")
      (simp_all add: long_first_def)
  then show "unat (f AND 0x03) + 1 = packet_number_len pn a" and "f AND 0x80 = 0x80"
    and "drop_bit 4 (f AND 0x30) = type_bits (bl_long_type p)" by simp_all
qed

lemma short_first_bits:
  fixes p pn a
  defines "f \<equiv> short_first p (packet_number_len pn a)"
  shows "unat (f AND 0x03) + 1 = packet_number_len pn a" and "f AND 0x80 = 0"
    and "(f AND 0x04 \<noteq> 0) = bs_key_phase p"
proof -
  have "unat (f AND 0x03) + 1 = packet_number_len pn a \<and> f AND 0x80 = 0
    \<and> (f AND 0x04 \<noteq> 0) = bs_key_phase p"
    unfolding f_def by (cases rule: pn_len_cases [of pn a]; cases "bs_key_phase p")
      (simp_all add: short_first_def)
  then show "unat (f AND 0x03) + 1 = packet_number_len pn a" and "f AND 0x80 = 0"
    and "(f AND 0x04 \<noteq> 0) = bs_key_phase p" by simp_all
qed

fun packet_type_of :: "LongType \<Rightarrow> PacketType" where
  "packet_type_of LongInitial = PT_Initial"
| "packet_type_of LongZeroRtt = PT_ZeroRtt"
| "packet_type_of LongHandshake = PT_Handshake"

lemma and_mask_mono:
  fixes x y :: "'a :: semiring_bit_operations"
  assumes "x AND k = y AND k"
  shows "x AND (k AND m) = y AND (k AND m)"
proof -
  have "(x AND k) AND m = (y AND k) AND m" by (simp only: assms)
  then show ?thesis by (simp only: and.assoc)
qed

lemma high_bits_type:
  assumes "f' AND 0xf0 = f AND (0xf0 :: u8)"
  shows "f' AND 0x80 = f AND 0x80" and "f' AND 0x30 = f AND 0x30"
  using and_mask_mono [OF assms, where m = "0x80"] and_mask_mono [OF assms, where m = "0x30"] by simp_all

lemma masked_long_type:
  assumes "f' AND 0xf0 = long_first p (packet_number_len pn a) AND 0xf0" and "v \<noteq> 0"
  shows "from_first_byte_and_version f' v = packet_type_of (bl_long_type p)"
  using high_bits_type [OF assms(1)] long_first_bits [of p pn a] assms(2)
  by (cases "bl_long_type p") (simp_all add: from_first_byte_and_version_def from_first_byte_def Let_def)

lemma length_encode_packet_number [simp]:
  "length (encode_packet_number pn (packet_number_len pn' a)) = packet_number_len pn' a"
  using packet_number_len_bounds [of pn' a] by (simp add: encode_packet_number_def Let_def)

lemma reads_get_u16: "reads get_u16 [a, b] (push_bit 8 (unat a) OR unat b)"
  unfolding get_u16_def by (intro reads_bind_u8 reads_return)

lemma be32_value:
  fixes v :: nat
  assumes "v < 2 ^ 32"
  shows "push_bit 8 (unat (word_of_nat (drop_bit 24 v) :: u8)) OR unat (word_of_nat (drop_bit 16 v) :: u8)
      = drop_bit 16 v"
    and "push_bit 8 (unat (word_of_nat (drop_bit 8 v) :: u8)) OR unat (word_of_nat v :: u8) = take_bit 16 v"
proof -
  have "drop_bit 24 v < 2 ^ 8"
    using assms by (simp add: drop_bit_eq_div less_mult_imp_div_less)
  then have "unat (word_of_nat (drop_bit 24 v) :: u8) = drop_bit 24 v"
    by (simp add: unat_byte take_bit_nat_eq_self)
  then show "push_bit 8 (unat (word_of_nat (drop_bit 24 v) :: u8))
      OR unat (word_of_nat (drop_bit 16 v) :: u8) = drop_bit 16 v"
    using push_byte [of 16 v] by simp
  show "push_bit 8 (unat (word_of_nat (drop_bit 8 v) :: u8)) OR unat (word_of_nat v :: u8) = take_bit 16 v"
    unfolding unat_byte
    by (rule bit_eqI) (auto simp add: bit_or_iff bit_push_bit_iff bit_take_bit_iff bit_drop_bit_eq)
qed

lemma reads_u32_bytes:
  "reads get_u32 ([a, b] @ [c, d] @ [])
     (push_bit 16 (push_bit 8 (unat a) OR unat b) OR (push_bit 8 (unat c) OR unat d))"
  unfolding get_u32_def by (rule reads_bind reads_get_u16 reads_return)+

lemma reads_get_u32:
  assumes "v < 2 ^ 32"
  shows "reads get_u32 (to_be_bytes32 v) v"
  using reads_u32_bytes [of "word_of_nat (drop_bit 24 v)" "word_of_nat (drop_bit 16 v)"
      "word_of_nat (drop_bit 8 v)" "word_of_nat v"]
  unfolding be32_value [OF assms] bits_or_ident by (simp add: to_be_bytes32_def)

lemma length_to_be_bytes32 [simp]: "length (to_be_bytes32 v) = 4"
  by (simp add: to_be_bytes32_def)

lemma reads_pe_u8: "reads (f x) enc y \<Longrightarrow> reads (bind_d (pe get_u8) f) (x # enc) y"
  using reads_bind [OF reads_map_err [OF reads_get_u8], of f x enc y] by simp

lemma reads_pe_u32:
  "v < 2 ^ 32 \<Longrightarrow> reads (f v) enc y \<Longrightarrow> reads (bind_d (pe get_u32) f) (to_be_bytes32 v @ enc) y"
  by (rule reads_bind [OF reads_map_err [OF reads_get_u32]])

lemma reads_pe_bytes:
  "n = length data \<Longrightarrow> reads (f data) enc y \<Longrightarrow> reads (bind_d (pe (get_bytes n)) f) (data @ enc) y"
  by (simp add: reads_bind [OF reads_map_err [OF reads_get_bytes]])

lemma reads_pe_varint:
  "v \<le> VARINT_MAX \<Longrightarrow> reads (f v) enc y \<Longrightarrow> reads (bind_d (pe get_varint) f) (put_varint v @ enc) y"
  using reads_bind [OF reads_map_err [OF reads_put_varint_min], of f v enc y] by (simp add: min_def)

lemma unat_len_byte [simp]: "length bs \<le> 255 \<Longrightarrow> unat (word_of_nat (length bs) :: u8) = length bs"
  by (simp add: unat_byte take_bit_nat_eq_self)

section \<open>Lemmas: protecting and unprotecting\<close>

lemma slice_append: "slice (length a) (length a + length b) (a @ b @ c) = b"
  by (simp add: slice_def)

lemma overwrite_append: "length b' = length b \<Longrightarrow> overwrite (length a) b' (a @ b @ c) = a @ b' @ c"
  by (simp add: overwrite_def)

text \<open>The sample starts inside the sealed payload: at most four bytes are packet number.\<close>

lemma sample_slice:
  assumes "length pnb \<le> 4"
  shows "slice (length (h @ pnb) - length pnb + 4) (length (h @ pnb) - length pnb + 4 + n) (h @ pnb @ body)
    = take n (drop (4 - length pnb) body)"
  using assms by (simp add: slice_def)

lemma take_sample_append:
  assumes "k + n \<le> length body"
  shows "take n (drop k (body @ post)) = take n (drop k body)"
  using assms by simp

text \<open>\<open>protected pk hk pn f mid pnb plain out\<close>: the bytes \<open>out\<close> of a packet whose clear header
  is \<open>f # mid @ pnb\<close> and whose plaintext is \<open>plain\<close>.\<close>

definition protected_packet ::
    "PacketKey \<Rightarrow> HeaderProtectionKey \<Rightarrow> u64 \<Rightarrow> u8 \<Rightarrow> bytes \<Rightarrow> bytes \<Rightarrow> bytes \<Rightarrow> u8 \<Rightarrow> bytes \<Rightarrow> bytes \<Rightarrow> bool" where
  "protected_packet pk hk pn f mid pnb plain f' pnb' body \<longleftrightarrow>
     length body = length plain + 16
     \<and> (\<exists>sealed tag. pk_encrypt pk pn (f # mid @ pnb) plain = Some (sealed, tag) \<and> body = sealed @ tag)
     \<and> 4 - length pnb + hk_sample_len hk \<le> length body
     \<and> hk_encrypt hk (take (hk_sample_len hk) (drop (4 - length pnb) body)) f pnb = Some (f', pnb')"

lemma finish_packet_protects:
  assumes pk: "packet_key_ok pk" and hk: "header_key_ok hk"
    and len: "length pnb = unat (f AND 0x03) + 1" "length pnb \<le> 4"
    and run: "finish_packet (pre @ f # mid @ pnb) \<lparr>pl_start = length pre,
        pl_pn_offset = length pre + 1 + length mid, pl_pn_len = length pnb, pl_packet_number = pn\<rparr>
        payload pk hk = (out, Inr ())"
  obtains f' pnb' body where "out = pre @ f' # mid @ pnb' @ body" and "length pnb' = length pnb"
    and "protected_packet pk hk pn f mid pnb (effective_payload hk (length pnb) payload) f' pnb' body"
proof -
  define plain where "plain = effective_payload hk (length pnb) payload"
  obtain sealed tag where enc: "pk_encrypt pk pn (f # mid @ pnb) plain = Some (sealed, tag)"
    using run by (auto simp add: finish_packet_def Let_def plain_def split: option.splits)
  define body where "body = sealed @ tag"
  have body: "length body = length plain + 16"
    using pk enc by (auto simp add: packet_key_ok_def body_def)
  define d where "d = pre @ f # mid @ pnb @ body"
  define po where "po = length pre + 1 + length mid"
  have nth: "d ! length pre = f" and pn_slice: "slice po (po + length pnb) d = pnb"
    using slice_append [of "pre @ f # mid" pnb body] by (simp_all add: d_def po_def)
  have "protect_header d \<lparr>pl_start = length pre, pl_pn_offset = po, pl_pn_len = length pnb,
      pl_packet_number = pn\<rparr> hk = (out, Inr ())"
    using run enc by (simp add: finish_packet_def plain_def d_def po_def body_def)
  then obtain sample f' pnb' where sample: "get_slice (po + 4) (po + 4 + hk_sample_len hk) d = Some sample"
    and hp: "hk_encrypt hk sample f pnb = Some (f', pnb')"
    and out: "out = overwrite po pnb' (d[length pre := f'])"
    using nth pn_slice
    by (auto simp add: protect_header_def Let_def HP_SAMPLE_OFFSET_def split: option.splits)
  have len': "length pnb' = length pnb"
    using hk hp len(1) unfolding header_key_ok_def by blast
  have bound: "4 - length pnb + hk_sample_len hk \<le> length body"
    using sample len(2) by (simp add: get_slice_def d_def po_def split: if_splits)
  have "sample = take (hk_sample_len hk) (drop (4 - length pnb) body)"
    using sample sample_slice [OF len(2), of "pre @ f # mid" "hk_sample_len hk" body]
    by (simp add: get_slice_def d_def po_def split: if_splits)
  then have "protected_packet pk hk pn f mid pnb plain f' pnb' body"
    using body enc hp bound by (auto simp add: protected_packet_def body_def)
  moreover have "out = pre @ f' # mid @ pnb' @ body"
    using overwrite_append [OF len', of "pre @ f' # mid" body] by (simp add: out d_def po_def)
  ultimately show thesis using that len' by (simp add: plain_def)
qed

lemma remove_protection_inverts:
  assumes hk: "header_key_ok hk" and len: "length pnb = unat (f AND 0x03) + 1" "length pnb \<le> 4"
    and prot: "protected_packet pk hk pn f mid pnb plain f' pnb' body" and len': "length pnb' = length pnb"
    and pend: "length pre + 1 + length mid + 4 + hk_sample_len hk \<le> packet_end"
  shows "remove_protection (pre @ f' # mid @ pnb' @ body @ post) (length pre)
      (length pre + 1 + length mid) packet_end hk = Inr (pre @ f # mid @ pnb @ body @ post)"
proof -
  define po where "po = length pre + 1 + length mid"
  define d where "d = pre @ f' # mid @ pnb' @ body @ post"
  define sample where "sample = take (hk_sample_len hk) (drop (4 - length pnb) body)"
  define extra where "extra = take (4 - length pnb) (body @ post)"
  have hp: "hk_encrypt hk sample f pnb = Some (f', pnb')"
    and bound: "4 - length pnb + hk_sample_len hk \<le> length body"
    using prot by (simp_all add: protected_packet_def sample_def)
  have smp: "slice (po + 4) (po + 4 + hk_sample_len hk) d = sample"
    using sample_slice [of pnb' "pre @ f' # mid" "hk_sample_len hk" "body @ post"] len(2) len'
      take_sample_append [OF bound, of post]
    by (simp add: d_def po_def sample_def)
  have field: "take 4 (drop po d) = pnb' @ extra"
    using len(2) len' by (simp add: d_def po_def extra_def)
  have "length extra \<le> 4 - length pnb" by (simp add: extra_def)
  then have "length pnb + length extra \<le> 4" using len(2) by simp
  then have dec: "hk_decrypt hk sample f' (pnb' @ extra) = Some (f, pnb @ extra)"
    using hk hp len(1) unfolding header_key_ok_def by blast
  obtain tl where split: "body @ post = extra @ tl"
    unfolding extra_def by (metis append_take_drop_id)
  have "overwrite po (pnb @ extra) (d[length pre := f]) = pre @ f # mid @ pnb @ body @ post"
    using overwrite_append [of "pnb @ extra" "pnb' @ extra" "pre @ f # mid" tl] len'
    by (simp add: d_def po_def split)
  moreover have "d ! length pre = f'" by (simp add: d_def)
  ultimately show ?thesis
    using pend smp field dec
    by (simp add: remove_protection_def Let_def HP_SAMPLE_OFFSET_def d_def [symmetric] po_def [symmetric]) (simp add: po_def)
qed

lemma open_payload_inverts:
  assumes pk: "packet_key_ok pk" and len: "length pnb = unat (f AND 0x03) + 1"
    and prot: "protected_packet pk hk pn f mid pnb plain f' pnb' body"
    and dec: "decode_packet_number largest (be_value pnb) (length pnb) = pn"
  shows "open_payload (pre @ f # mid @ pnb @ body @ post) (length pre) (length pre + 1 + length mid)
      (length pre + 1 + length mid + length pnb + length body) largest pk = Inr (pn, plain)"
proof -
  define d where "d = pre @ f # mid @ pnb @ body @ post"
  define po where "po = length pre + 1 + length mid"
  have first: "d ! length pre = f" by (simp add: d_def)
  have "slice po (po + length pnb) d = pnb"
    using slice_append [of "pre @ f # mid" pnb "body @ post"] by (simp add: d_def po_def)
  moreover have "slice (length pre) (po + length pnb) d = f # mid @ pnb"
    using slice_append [of pre "f # mid @ pnb" "body @ post"] by (simp add: d_def po_def add.assoc)
  moreover have "get_slice (po + length pnb) (po + length pnb + length body) d = Some body"
    using slice_append [of "pre @ f # mid @ pnb" body post] by (simp add: get_slice_def d_def po_def add.assoc)
  moreover have "pk_decrypt pk pn (f # mid @ pnb) body = Some plain"
    using pk prot by (auto simp add: packet_key_ok_def protected_packet_def)
  ultimately show ?thesis
    using dec len first
    unfolding open_payload_def d_def [symmetric] po_def [symmetric] by (simp add: Let_def ok_or_def)
qed

lemma unprotect_inverts:
  assumes "packet_key_ok pk" and "header_key_ok hk"
    and len: "length pnb = unat (f AND 0x03) + 1" "length pnb \<le> 4"
    and prot: "protected_packet pk hk pn f mid pnb plain f' pnb' body" and "length pnb' = length pnb"
    and "decode_packet_number largest (be_value pnb) (length pnb) = pn"
    and packet_end: "packet_end = length pre + 1 + length mid + length pnb + length body"
  shows "unprotect_and_decrypt (pre @ f' # mid @ pnb' @ body @ post) (length pre)
      (length pre + 1 + length mid) packet_end largest pk hk = Inr (pn, plain, f)"
proof -
  have "4 - length pnb + hk_sample_len hk \<le> length body"
    using prot by (simp add: protected_packet_def)
  then have "length pre + 1 + length mid + 4 + hk_sample_len hk \<le> packet_end"
    using len(2) packet_end by simp
  then show ?thesis
    using remove_protection_inverts [of hk pnb f pk pn mid plain f' pnb' body pre packet_end post]
      open_payload_inverts [of pk pnb f hk pn mid plain f' pnb' body largest pre post] assms
    by (simp add: unprotect_and_decrypt_def)
qed

text \<open>A receiver whose largest packet number is \<open>largest\<close> can expand the packet number \<open>pn\<close>
  truncated for a sender whose largest acknowledged one is \<open>acked\<close>.\<close>

definition pn_in_window :: "u64 option \<Rightarrow> u64 option \<Rightarrow> u64 \<Rightarrow> bool" where
  "pn_in_window acked largest pn \<longleftrightarrow>
     (let half = 2 ^ (8 * packet_number_len pn acked - 1)
      in expected_pn largest \<le> VARINT_MAX
         \<and> expected_pn largest < pn + half \<and> pn < expected_pn largest + half)"

lemma pn_in_window_decodes:
  assumes "pn_in_window acked largest pn"
  shows "decode_packet_number largest (be_value (encode_packet_number pn (packet_number_len pn acked)))
    (packet_number_len pn acked) = pn"
  using assms decode_pn_window [of "packet_number_len pn acked" largest pn]
    be_value_encode [of "packet_number_len pn acked" pn] packet_number_len_bounds [of pn acked]
  by (simp add: pn_in_window_def Let_def)

lemma build_short_protects:
  assumes "packet_key_ok pk" and "header_key_ok hk"
    and built: "build_short_packet pre p payload pk hk = (out, Inr n)"
  defines "len \<equiv> packet_number_len (bs_packet_number p) (bs_largest_acked p)"
  defines "pnb \<equiv> encode_packet_number (bs_packet_number p) len"
  obtains f' pnb' body where "out = pre @ f' # bs_dcid p @ pnb' @ body" and "length pnb' = len"
    and "n = length out - length pre"
    and "protected_packet pk hk (bs_packet_number p) (short_first p len) (bs_dcid p) pnb
           (effective_payload hk len payload) f' pnb' body"
proof -
  have pnb: "length pnb = len" by (simp add: pnb_def len_def)
  have bits: "length pnb = unat (short_first p len AND 0x03) + 1" "length pnb \<le> 4"
    using short_first_bits(1) [of p "bs_packet_number p" "bs_largest_acked p"]
      packet_number_len_bounds(2) by (simp_all add: pnb len_def)
  have "finish_packet (pre @ short_first p len # bs_dcid p @ pnb) \<lparr>pl_start = length pre,
        pl_pn_offset = length pre + 1 + length (bs_dcid p), pl_pn_len = length pnb,
        pl_packet_number = bs_packet_number p\<rparr> payload pk hk = (out, Inr ())"
    and "n = length out - length pre"
    using built by (auto simp add: build_short_packet_def Let_def pnb_def len_def bind_result_def
        split: prod.splits sum.splits)
  then show thesis
    using finish_packet_protects [OF assms(1,2) bits] that pnb by metis
qed

end
