(* ===== verification/Connection.thy ===== *)
theory Connection
  imports Packet_Space Crypto_Stream Conn_Streams Mtu Multipath Recovery Cc_Dispatch Cid_Pool Params_Codec Packets
begin

text \<open>
  \<^verbatim>\<open>Connection\<close> of \<^verbatim>\<open>oxiquic-transport/src/connection/mod.rs\<close>, with the operations of that file
  and of \<^verbatim>\<open>keys_path.rs\<close>.  The fields are grouped as the struct groups them, one record for a
  group; \<open>ConnStreams\<close> holds the streams, their flow control and the stream limits, \<open>MtuState\<close> the
  path-MTU fields.

  rustls is code of its own: its connection is the opaque \<open>'t\<close>, its 1-RTT secrets \<open>'s\<close>, and what the
  code calls of it is the record \<open>tls_ops\<close>.  Bytes drawn from \<^verbatim>\<open>SecureRandom\<close> are arguments, \<open>None\<close>
  where \<^verbatim>\<open>fill\<close> fails; \<^verbatim>\<open>Instant::now()\<close> is the argument \<open>now\<close>.
\<close>

section \<open>State\<close>

definition QUIC_V1 :: nat where "QUIC_V1 = 1"
definition LOCAL_CID_LEN :: nat where "LOCAL_CID_LEN = 8"
definition MAX_DATAGRAM :: nat where "MAX_DATAGRAM = 1200"

datatype HandshakeLevel = InitialLevel | HandshakeLevel

datatype ConnectionState = Handshaking | Established | Closing | Closed

datatype SpaceKind = InitialSpace | HandshakeSpace | ApplicationSpace

type_synonym space = "(HeaderProtectionKey, PacketKey) PacketSpace"
type_synonym dir_keys = "(HeaderProtectionKey, PacketKey) DirectionalKeys"
type_synonym all_keys = "(HeaderProtectionKey, PacketKey) Keys"

record Lifecycle =
  state :: ConnectionState
  pending_close :: "(u64 \<times> bytes) option"
  pending_transport_close :: "(TransportErrorCode \<times> bytes) option"
  peer_closed :: "OxiQuicError option"

record Spaces =
  initial :: space
  handshake :: space
  application :: space
  initial_crypto :: CryptoStream
  handshake_crypto :: CryptoStream

record HandshakeState =
  write_level :: HandshakeLevel
  handshake_keys_ready :: bool
  one_rtt_ready :: bool
  handshake_done :: bool
  handshake_complete :: bool

record Timers =
  idle_timeout :: "duration option"
  idle_deadline :: "instant option"
  keep_alive_interval :: "duration option"
  next_keep_alive :: "instant option"
  pending_keep_alive_ping :: bool

text \<open>\<open>sent_packets\<close> is the array of three stores.\<close>

record 'x RecoveryState =
  sent_packets :: "SentPackets list"
  rtt :: RttEstimator
  loss :: LossDetection
  loss_timer :: "instant option"
  probes_owed :: nat
  peer_max_ack_delay :: duration
  congestion :: "'x CongestionController"

record Counters =
  bytes_sent :: u64
  bytes_recv :: u64
  packets_sent :: u64
  packets_recv :: u64
  packets_lost :: u64

record RetryState =
  retry_token :: "bytes option"
  cached_initial_hs_bytes :: bytes
  retry_done :: bool
  retry_count :: u64

record Migration =
  peer_addr :: SocketAddr
  pending_path_response :: "bytes option"
  pending_path_challenge :: "bytes option"
  pending_path_challenge_send :: bool
  candidate_peer_addr :: "SocketAddr option"
  path_validated :: bool

record 's KeyUpdate =
  key_phase :: bool
  one_rtt_secrets :: "'s option"
  next_1rtt_keys :: "PacketKey PacketKeySet option"
  prev_1rtt_keys :: "(PacketKey \<times> instant) option"
  key_update_received :: bool
  key_update_pending :: bool
  key_update_cooldown :: "instant option"
  key_update_count :: u64

record Datagrams =
  peer_max_datagram_frame_size :: u64
  local_max_datagram_frame_size :: u64
  datagram_recv_queue :: "bytes list"
  datagram_send_queue :: "bytes list"
  datagram_recv_buffer_limit :: nat

record EarlyData =
  zero_rtt_keys :: "dir_keys option"
  early_data_buf :: "(StreamId \<times> bytes \<times> bool) list"
  zero_rtt_sent :: bool
  zero_rtt_accepted :: "bool option"

text \<open>\<open>cids_issued_this_packet\<close> is a set, kept as a list.\<close>

record Cids =
  local_cid :: ConnectionId
  peer_cid :: ConnectionId
  initial_dcid :: ConnectionId
  local_cid_pool :: LocalCidPool
  peer_cid_pool :: PeerCidPool
  pending_cid_events :: "CidEvent list"
  cids_issued_this_packet :: "u64 list"
  received_token :: "bytes option"
  pending_new_token :: "bytes option"

record ('t, 's, 'x) Connection =
  tls :: 't
  life :: Lifecycle
  cids :: Cids
  spaces :: Spaces
  hs :: HandshakeState
  streams :: ConnStreams
  timers :: Timers
  recov :: "'x RecoveryState"
  counters :: Counters
  retry :: RetryState
  migration :: Migration
  mtu :: MtuState
  key_upd :: "'s KeyUpdate"
  dgrams :: Datagrams
  early :: EarlyData
  multipath :: MultipathState

datatype 's KeyChange = HandshakeKeys all_keys | OneRttKeys all_keys 's

record ('t, 's) tls_ops =
  write_hs :: "'t \<Rightarrow> (bytes \<times> 's KeyChange option) \<times> 't"
  read_hs :: "bytes \<Rightarrow> 't \<Rightarrow> (string + unit) \<times> 't"
  is_handshaking :: "'t \<Rightarrow> bool"
  quic_transport_parameters :: "'t \<Rightarrow> bytes option"
  tls_zero_rtt_keys :: "'t \<Rightarrow> dir_keys option"
  is_early_data_accepted :: "'t \<Rightarrow> bool"
  next_packet_keys :: "'s \<Rightarrow> PacketKey PacketKeySet \<times> 's"
  initial_keys :: "ConnectionId \<Rightarrow> Role \<Rightarrow> all_keys"

record ConnectionParams =
  cp_local_cid :: ConnectionId
  cp_peer_cid :: ConnectionId
  cp_initial_dcid :: ConnectionId
  cp_peer_addr :: SocketAddr
  cp_local_params :: TransportParams
  cp_mtu_config :: MtuConfig
  cp_datagram_recv_buffer_size :: nat

section \<open>Construction\<close>

definition idle_timeout_of :: "TransportParams \<Rightarrow> duration option" where
  "idle_timeout_of p = (if max_idle_timeout_ms p = 0 then None else Some (ms (max_idle_timeout_ms p)))"

text \<open>\<open>secret\<close> is the result of \<^verbatim>\<open>secure_random.fill\<close>: the 32 zeros stay when it fails.\<close>

definition new_inner ::
    "'x f64_ops \<Rightarrow> (bytes \<Rightarrow> bytes \<Rightarrow> bytes) \<Rightarrow> Role \<Rightarrow> 't \<Rightarrow> ConnectionParams \<Rightarrow> bytes option \<Rightarrow> instant
      \<Rightarrow> CongestionAlgorithm \<Rightarrow> ('t, 's, 'x) Connection" where
  "new_inner fp hmac r t params secret now algo =
     (let local_params = cp_local_params params;
          active_cid_limit = max (active_connection_id_limit local_params) 2;
          server_secret_bytes = (case secret of Some bs \<Rightarrow> bs | None \<Rightarrow> replicate 32 0)
      in \<lparr>tls = t,
          life = \<lparr>state = Handshaking, pending_close = None, pending_transport_close = None, peer_closed = None\<rparr>,
          cids = \<lparr>local_cid = cp_local_cid params, peer_cid = cp_peer_cid params,
                  initial_dcid = cp_initial_dcid params,
                  local_cid_pool = LocalCidPool_new hmac (cp_local_cid params) server_secret_bytes active_cid_limit,
                  peer_cid_pool = PeerCidPool_new (cp_peer_cid params) active_cid_limit,
                  pending_cid_events = [], cids_issued_this_packet = [], received_token = None,
                  pending_new_token = None\<rparr>,
          spaces = \<lparr>initial = PacketSpace_new, handshake = PacketSpace_new, application = PacketSpace_new,
                    initial_crypto = CryptoStream_new, handshake_crypto = CryptoStream_new\<rparr>,
          hs = \<lparr>write_level = InitialLevel, handshake_keys_ready = False, one_rtt_ready = False,
                handshake_done = False, handshake_complete = False\<rparr>,
          streams = streams_new r local_params,
          timers = \<lparr>idle_timeout = idle_timeout_of local_params, idle_deadline = None,
                    keep_alive_interval = None, next_keep_alive = None, pending_keep_alive_ping = False\<rparr>,
          recov = \<lparr>sent_packets = replicate 3 SentPackets_new, rtt = RttEstimator_new, loss = LossDetection_new,
                   loss_timer = None, probes_owed = 0, peer_max_ack_delay = 0,
                   congestion = from_config fp now algo\<rparr>,
          counters = \<lparr>bytes_sent = 0, bytes_recv = 0, packets_sent = 0, packets_recv = 0, packets_lost = 0\<rparr>,
          retry = \<lparr>retry_token = None, cached_initial_hs_bytes = [], retry_done = False, retry_count = 0\<rparr>,
          migration = \<lparr>peer_addr = cp_peer_addr params, pending_path_response = None,
                       pending_path_challenge = None, pending_path_challenge_send = False,
                       candidate_peer_addr = None, path_validated = False\<rparr>,
          mtu = mtu_new (cp_mtu_config params),
          key_upd = \<lparr>key_phase = False, one_rtt_secrets = None, next_1rtt_keys = None, prev_1rtt_keys = None,
                     key_update_received = False, key_update_pending = False, key_update_cooldown = None,
                     key_update_count = 0\<rparr>,
          dgrams = \<lparr>peer_max_datagram_frame_size = 0,
                    local_max_datagram_frame_size = max_datagram_frame_size local_params,
                    datagram_recv_queue = [], datagram_send_queue = [],
                    datagram_recv_buffer_limit = cp_datagram_recv_buffer_size params\<rparr>,
          early = \<lparr>zero_rtt_keys = None, early_data_buf = [], zero_rtt_sent = False, zero_rtt_accepted = None\<rparr>,
          multipath = MultipathState_new now (cp_peer_addr params)\<rparr>)"

definition install_initial_keys ::
    "('t, 's) tls_ops \<Rightarrow> ('t, 's, 'x) Connection \<Rightarrow> ('t, 's, 'x) Connection" where
  "install_initial_keys ops c =
     c\<lparr>spaces := (spaces c)\<lparr>initial :=
         set_keys (initial_keys ops (initial_dcid (cids c)) (role (streams c))) (initial (spaces c))\<rparr>\<rparr>"

text \<open>A failing generator gives the empty connection ID.\<close>

definition random_cid :: "bytes option \<Rightarrow> ConnectionId" where
  "random_cid raw = (case raw of Some bs \<Rightarrow> bs | None \<Rightarrow> [])"

definition new_client ::
    "'x f64_ops \<Rightarrow> (bytes \<Rightarrow> bytes \<Rightarrow> bytes) \<Rightarrow> ('t, 's) tls_ops \<Rightarrow> 't \<Rightarrow> (nat \<Rightarrow> bytes option) \<Rightarrow> SocketAddr
      \<Rightarrow> TransportParams \<Rightarrow> MtuConfig \<Rightarrow> instant \<Rightarrow> CongestionAlgorithm \<Rightarrow> nat \<Rightarrow> ('t, 's, 'x) Connection" where
  "new_client fp hmac ops t rng addr local_params mtu_config now algo datagram_buf =
     (let dcid = random_cid (rng 0) in
      install_initial_keys ops
        (new_inner fp hmac ClientRole t
          \<lparr>cp_local_cid = random_cid (rng 1), cp_peer_cid = dcid, cp_initial_dcid = dcid, cp_peer_addr = addr,
           cp_local_params = local_params, cp_mtu_config = mtu_config,
           cp_datagram_recv_buffer_size = datagram_buf\<rparr> (rng 2) now algo))"

definition new_server ::
    "'x f64_ops \<Rightarrow> (bytes \<Rightarrow> bytes \<Rightarrow> bytes) \<Rightarrow> ('t, 's) tls_ops \<Rightarrow> 't \<Rightarrow> (nat \<Rightarrow> bytes option)
      \<Rightarrow> ConnectionId \<Rightarrow> ConnectionId \<Rightarrow> SocketAddr \<Rightarrow> TransportParams \<Rightarrow> MtuConfig \<Rightarrow> instant
      \<Rightarrow> CongestionAlgorithm \<Rightarrow> nat \<Rightarrow> ('t, 's, 'x) Connection" where
  "new_server fp hmac ops t rng client_dcid client_scid addr local_params mtu_config now algo datagram_buf =
     install_initial_keys ops
       (new_inner fp hmac ServerRole t
         \<lparr>cp_local_cid = random_cid (rng 0), cp_peer_cid = client_scid, cp_initial_dcid = client_dcid,
          cp_peer_addr = addr, cp_local_params = local_params, cp_mtu_config = mtu_config,
          cp_datagram_recv_buffer_size = datagram_buf\<rparr> (rng 1) now algo)"

section \<open>Connection IDs and Retry\<close>

definition pop_cid_event :: "('t, 's, 'x) Connection \<Rightarrow> CidEvent option \<times> ('t, 's, 'x) Connection" where
  "pop_cid_event c =
     (case pending_cid_events (cids c) of
        [] \<Rightarrow> (None, c)
      | e # es \<Rightarrow> (Some e, c\<lparr>cids := (cids c)\<lparr>pending_cid_events := es\<rparr>\<rparr>))"

definition maybe_issue_new_cid ::
    "(bytes \<Rightarrow> bytes \<Rightarrow> bytes) \<Rightarrow> bytes option \<Rightarrow> ('t, 's, 'x) Connection
      \<Rightarrow> (OxiQuicError + unit) \<times> ('t, 's, 'x) Connection" where
  "maybe_issue_new_cid hmac raw c =
     (if \<not> can_issue (local_cid_pool (cids c)) then (Inr (), c)
      else case raw of
        None \<Rightarrow> (Inl (E_Protocol ''secure_random fill failed''), c)
      | Some bs \<Rightarrow>
          (case issue_new_cid hmac bs (local_cid_pool (cids c)) of
             (Inl e, pool) \<Rightarrow> (Inl e, c\<lparr>cids := (cids c)\<lparr>local_cid_pool := pool\<rparr>\<rparr>)
           | (Inr (_, new_cid), pool) \<Rightarrow>
               (Inr (), c\<lparr>cids := (cids c)\<lparr>local_cid_pool := pool,
                            pending_cid_events := pending_cid_events (cids c) @ [Register new_cid]\<rparr>\<rparr>)))"

definition rekey_initial_for_retry ::
    "('t, 's) tls_ops \<Rightarrow> bytes \<Rightarrow> bytes \<Rightarrow> ('t, 's, 'x) Connection \<Rightarrow> ('t, 's, 'x) Connection" where
  "rekey_initial_for_retry ops new_dcid token c =
     (let c = c\<lparr>cids := (cids c)\<lparr>initial_dcid := new_dcid\<rparr>\<rparr>;
          c = c\<lparr>spaces := (spaces c)\<lparr>initial := PacketSpace_new\<rparr>\<rparr>;
          c = install_initial_keys ops c;
          c = c\<lparr>spaces := (spaces c)\<lparr>initial_crypto :=
                  enqueue_send (cached_initial_hs_bytes (retry c)) CryptoStream_new\<rparr>\<rparr>
      in c\<lparr>retry := (retry c)\<lparr>retry_token := Some token, retry_count := retry_count (retry c) + 1\<rparr>\<rparr>)"

section \<open>Driving the handshake\<close>

definition try_install_zero_rtt_keys ::
    "('t, 's) tls_ops \<Rightarrow> ('t, 's, 'x) Connection \<Rightarrow> ('t, 's, 'x) Connection" where
  "try_install_zero_rtt_keys ops c =
     (if zero_rtt_keys (early c) = None
      then c\<lparr>early := (early c)\<lparr>zero_rtt_keys := tls_zero_rtt_keys ops (tls c)\<rparr>\<rparr> else c)"

definition apply_peer_params ::
    "TransportParams \<Rightarrow> ('t, 's, 'x) Connection \<Rightarrow> ('t, 's, 'x) Connection" where
  "apply_peer_params p c =
     c\<lparr>streams := streams_apply_peer_params p (streams c),
       recov := (recov c)\<lparr>peer_max_ack_delay := ms (max_ack_delay_ms p)\<rparr>,
       dgrams := (dgrams c)\<lparr>peer_max_datagram_frame_size := max_datagram_frame_size p\<rparr>\<rparr>"

text \<open>The loop \<^verbatim>\<open>for _ in 1..limit\<close> of \<open>refresh_handshake_complete\<close>.\<close>

fun issue_cids ::
    "(bytes \<Rightarrow> bytes \<Rightarrow> bytes) \<Rightarrow> (nat \<Rightarrow> bytes option) \<Rightarrow> nat \<Rightarrow> ('t, 's, 'x) Connection \<Rightarrow> ('t, 's, 'x) Connection" where
  "issue_cids hmac rng 0 c = c"
| "issue_cids hmac rng (Suc n) c =
     (case maybe_issue_new_cid hmac (rng n) c of
        (Inl _, c') \<Rightarrow> c'
      | (Inr _, c') \<Rightarrow> issue_cids hmac rng n c')"

definition become_established ::
    "(bytes \<Rightarrow> bytes \<Rightarrow> bytes) \<Rightarrow> (nat \<Rightarrow> bytes option) \<Rightarrow> instant \<Rightarrow> ('t, 's, 'x) Connection
      \<Rightarrow> ('t, 's, 'x) Connection" where
  "become_established hmac rng now c =
     (if state (life c) = Handshaking
      then
        let c = c\<lparr>life := (life c)\<lparr>state := Established\<rparr>, mtu := schedule_initial_mtu_probe now (mtu c)\<rparr>
        in issue_cids hmac rng (lp_limit (local_cid_pool (cids c)) - 1) c
      else c)"

definition capture_peer_params :: "('t, 's) tls_ops \<Rightarrow> ('t, 's, 'x) Connection \<Rightarrow> ('t, 's, 'x) Connection" where
  "capture_peer_params ops c =
     (case peer_params (streams c) of
        Some _ \<Rightarrow> c
      | None \<Rightarrow>
          (case quic_transport_parameters ops (tls c) of
             None \<Rightarrow> c
           | Some raw \<Rightarrow>
               (case decode_transport_params raw of Inr p \<Rightarrow> apply_peer_params p c | Inl _ \<Rightarrow> c)))"

definition replay_early_data :: "('t, 's, 'x) Connection \<Rightarrow> ('t, 's, 'x) Connection" where
  "replay_early_data c =
     c\<lparr>streams := fold (\<lambda>(sid, data, fin). queue_on_stream sid data fin) (early_data_buf (early c)) (streams c),
       early := (early c)\<lparr>early_data_buf := []\<rparr>\<rparr>"

definition settle_early_data :: "('t, 's) tls_ops \<Rightarrow> ('t, 's, 'x) Connection \<Rightarrow> ('t, 's, 'x) Connection" where
  "settle_early_data ops c =
     (if role (streams c) = ClientRole \<and> zero_rtt_accepted (early c) = None
         \<and> (zero_rtt_sent (early c) \<or> early_data_buf (early c) \<noteq> [] \<or> zero_rtt_keys (early c) \<noteq> None)
      then
        let accepted = is_early_data_accepted ops (tls c);
            c = c\<lparr>early := (early c)\<lparr>zero_rtt_accepted := Some accepted\<rparr>\<rparr>
        in if \<not> accepted \<and> early_data_buf (early c) \<noteq> [] then replay_early_data c
           else c\<lparr>early := (early c)\<lparr>early_data_buf := []\<rparr>\<rparr>
      else c)"

definition byte_or_zero :: "bytes \<Rightarrow> nat \<Rightarrow> u8" where
  "byte_or_zero bs i = (if i < length bs then bs ! i else 0)"

definition schedule_new_token :: "('t, 's, 'x) Connection \<Rightarrow> ('t, 's, 'x) Connection" where
  "schedule_new_token c =
     (if role (streams c) = ServerRole \<and> pending_new_token (cids c) = None
      then
        let cid = local_cid (cids c);
            token = map (\<lambda>i. (byte_or_zero cid i XOR byte_or_zero cid (i + 4)) XOR (word_of_nat i * 0x9e)) [0..<16]
        in c\<lparr>cids := (cids c)\<lparr>pending_new_token := Some token\<rparr>\<rparr>
      else c)"

definition refresh_handshake_complete ::
    "(bytes \<Rightarrow> bytes \<Rightarrow> bytes) \<Rightarrow> ('t, 's) tls_ops \<Rightarrow> (nat \<Rightarrow> bytes option) \<Rightarrow> instant \<Rightarrow> ('t, 's, 'x) Connection
      \<Rightarrow> ('t, 's, 'x) Connection" where
  "refresh_handshake_complete hmac ops rng now c =
     (if \<not> handshake_complete (hs c) \<and> \<not> is_handshaking ops (tls c)
      then
        let c = c\<lparr>hs := (hs c)\<lparr>handshake_complete := True\<rparr>\<rparr>;
            c = become_established hmac rng now c;
            c = capture_peer_params ops c;
            c = settle_early_data ops c
        in schedule_new_token c
      else c)"

text \<open>What \<open>pump_write_hs\<close> does with the bytes and with the key change of one \<^verbatim>\<open>write_hs\<close>.\<close>

definition queue_hs_bytes :: "('t, 's) tls_ops \<Rightarrow> bytes \<Rightarrow> ('t, 's, 'x) Connection \<Rightarrow> ('t, 's, 'x) Connection" where
  "queue_hs_bytes ops bs c =
     (if bs = [] then c
      else case write_level (hs c) of
        InitialLevel \<Rightarrow>
          let client = (role (streams c) = ClientRole);
              c = (if client
                   then c\<lparr>retry := (retry c)\<lparr>cached_initial_hs_bytes := cached_initial_hs_bytes (retry c) @ bs\<rparr>\<rparr>
                   else c);
              c = c\<lparr>spaces := (spaces c)\<lparr>initial_crypto := enqueue_send bs (initial_crypto (spaces c))\<rparr>\<rparr>
          in if client \<and> zero_rtt_keys (early c) = None then try_install_zero_rtt_keys ops c else c
      | HandshakeLevel \<Rightarrow>
          c\<lparr>spaces := (spaces c)\<lparr>handshake_crypto := enqueue_send bs (handshake_crypto (spaces c))\<rparr>\<rparr>)"

definition install_keys :: "('t, 's) tls_ops \<Rightarrow> 's KeyChange \<Rightarrow> ('t, 's, 'x) Connection \<Rightarrow> ('t, 's, 'x) Connection" where
  "install_keys ops change c =
     (case change of
        HandshakeKeys ks \<Rightarrow>
          c\<lparr>spaces := (spaces c)\<lparr>handshake := set_keys ks (handshake (spaces c))\<rparr>,
            hs := (hs c)\<lparr>handshake_keys_ready := True, write_level := HandshakeLevel\<rparr>\<rparr>
      | OneRttKeys ks secrets \<Rightarrow>
          let (next_keys, secrets') = next_packet_keys ops secrets;
              c = c\<lparr>key_upd := (key_upd c)\<lparr>one_rtt_secrets := Some secrets', next_1rtt_keys := Some next_keys\<rparr>,
                    spaces := (spaces c)\<lparr>application := set_keys ks (application (spaces c))\<rparr>,
                    hs := (hs c)\<lparr>one_rtt_ready := True\<rparr>\<rparr>
          in if role (streams c) = ServerRole \<and> zero_rtt_keys (early c) = None
             then try_install_zero_rtt_keys ops c else c)"

text \<open>
  The loop ends when \<^verbatim>\<open>write_hs\<close> reports no key change; a TLS stack that always reports one would
  keep it running, and the result is \<open>None\<close>.
\<close>

partial_function (option) pump_loop ::
    "('t, 's) tls_ops \<Rightarrow> ('t, 's, 'x) Connection \<Rightarrow> ('t, 's, 'x) Connection option" where
  "pump_loop ops c =
     (case write_hs ops (tls c) of
        ((bs, key_change), t) \<Rightarrow>
          let c = queue_hs_bytes ops bs (c\<lparr>tls := t\<rparr>)
          in case key_change of None \<Rightarrow> Some c | Some change \<Rightarrow> pump_loop ops (install_keys ops change c))"

definition pump_write_hs ::
    "(bytes \<Rightarrow> bytes \<Rightarrow> bytes) \<Rightarrow> ('t, 's) tls_ops \<Rightarrow> (nat \<Rightarrow> bytes option) \<Rightarrow> instant \<Rightarrow> ('t, 's, 'x) Connection
      \<Rightarrow> ('t, 's, 'x) Connection option" where
  "pump_write_hs hmac ops rng now c =
     map_option (refresh_handshake_complete hmac ops rng now) (pump_loop ops c)"

section \<open>Timers, close and datagrams\<close>

definition arm_keep_alive :: "instant \<Rightarrow> Timers \<Rightarrow> Timers" where
  "arm_keep_alive now t =
     (case keep_alive_interval t of Some i \<Rightarrow> t\<lparr>next_keep_alive := Some (now + i)\<rparr> | None \<Rightarrow> t)"

definition arm_idle_timer :: "instant \<Rightarrow> Timers \<Rightarrow> Timers" where
  "arm_idle_timer now t =
     (let t = (case idle_timeout t of Some d \<Rightarrow> t\<lparr>idle_deadline := Some (now + d)\<rparr> | None \<Rightarrow> t)
      in arm_keep_alive now t)"

definition set_keep_alive_interval :: "duration option \<Rightarrow> Timers \<Rightarrow> Timers" where
  "set_keep_alive_interval i t = t\<lparr>keep_alive_interval := i\<rparr>"

definition next_timeout :: "('t, 's, 'x) Connection \<Rightarrow> instant option" where
  "next_timeout c =
     fold (\<lambda>t earliest. case t of Some t \<Rightarrow> min_opt earliest t | None \<Rightarrow> earliest)
       [idle_deadline (timers c), loss_timer (recov c), next_keep_alive (timers c), next_mtu_probe (mtu c)] None"

definition stats :: "('t, 's, 'x) Connection \<Rightarrow> ConnectionStats" where
  "stats c =
     \<lparr>st_rtt = rtt_latest (rtt (recov c)), st_min_rtt = rtt_min (rtt (recov c)),
      st_smoothed_rtt = rtt_smoothed (rtt (recov c)), st_rtt_variance = rtt_var (rtt (recov c)),
      st_bytes_sent = bytes_sent (counters c), st_bytes_recv = bytes_recv (counters c),
      st_packets_sent = packets_sent (counters c), st_packets_recv = packets_recv (counters c),
      st_packets_lost = packets_lost (counters c),
      st_congestion_window = cc_congestion_window (congestion (recov c)),
      st_streams_opened = next_bidi_index (streams c), st_streams_closed = 0\<rparr>"

definition close_connection :: "u64 \<Rightarrow> bytes \<Rightarrow> Lifecycle \<Rightarrow> Lifecycle" where
  "close_connection error_code reason l =
     (if state l = Closed then l else l\<lparr>pending_close := Some (error_code, reason), state := Closing\<rparr>)"

definition send_datagram :: "bytes \<Rightarrow> Datagrams \<Rightarrow> (OxiQuicError + unit) \<times> Datagrams" where
  "send_datagram data d =
     (if peer_max_datagram_frame_size d = 0 then (Inl (E_Connection ''peer does not support datagrams''), d)
      else if length data > peer_max_datagram_frame_size d
      then (Inl (E_Connection (''datagram '' @ decimal (length data) @ '' bytes exceeds peer max ''
                                 @ decimal (peer_max_datagram_frame_size d))), d)
      else (Inr (), d\<lparr>datagram_send_queue := datagram_send_queue d @ [data]\<rparr>))"

definition recv_datagram :: "Datagrams \<Rightarrow> bytes option \<times> Datagrams" where
  "recv_datagram d =
     (case datagram_recv_queue d of [] \<Rightarrow> (None, d) | x # xs \<Rightarrow> (Some x, d\<lparr>datagram_recv_queue := xs\<rparr>))"

definition max_datagram_size :: "Datagrams \<Rightarrow> nat option" where
  "max_datagram_size d =
     (if peer_max_datagram_frame_size d = 0 then None else Some (peer_max_datagram_frame_size d))"

definition take_received_token :: "Cids \<Rightarrow> bytes option \<times> Cids" where
  "take_received_token p = (received_token p, p\<lparr>received_token := None\<rparr>)"

definition queue_early_data ::
    "StreamId \<Rightarrow> bytes \<Rightarrow> bool \<Rightarrow> ('t, 's, 'x) Connection \<Rightarrow> ('t, 's, 'x) Connection" where
  "queue_early_data sid data fin c =
     (if handshake_complete (hs c) then c\<lparr>streams := queue_on_stream sid data fin (streams c)\<rparr>
      else c\<lparr>early := (early c)\<lparr>early_data_buf := early_data_buf (early c) @ [(sid, data, fin)]\<rparr>\<rparr>)"

section \<open>Key update and path migration\<close>

definition conn_pto :: "('t, 's, 'x) Connection \<Rightarrow> duration" where
  "conn_pto c = pto_base (peer_max_ack_delay (recov c)) (rtt (recov c))"

text \<open>The rotation both updates share: promote the next keys, keep the old opening key, ratchet.\<close>

definition rotate_keys ::
    "('t, 's) tls_ops \<Rightarrow> instant \<Rightarrow> ('t, 's, 'x) Connection \<Rightarrow> ('t, 's, 'x) Connection" where
  "rotate_keys ops now c =
     (case one_rtt_secrets (key_upd c) of
        None \<Rightarrow> c
      | Some secrets \<Rightarrow>
          let (new_next_keys, secrets') = next_packet_keys ops secrets;
              c = c\<lparr>key_upd := (key_upd c)\<lparr>one_rtt_secrets := Some secrets'\<rparr>\<rparr>
          in case next_1rtt_keys (key_upd c) of
               None \<Rightarrow> c
             | Some next_epoch \<Rightarrow>
                 let (old_remote, app) = rotate_to_next_epoch next_epoch (application (spaces c));
                     k = (case old_remote of
                            Some pk \<Rightarrow> (key_upd c)\<lparr>prev_1rtt_keys := Some (pk, now + conn_pto c * 3)\<rparr>
                          | None \<Rightarrow> key_upd c)
                 in c\<lparr>spaces := (spaces c)\<lparr>application := app\<rparr>,
                      key_upd := k\<lparr>next_1rtt_keys := Some new_next_keys\<rparr>\<rparr>)"

definition perform_key_update ::
    "('t, 's) tls_ops \<Rightarrow> instant \<Rightarrow> ('t, 's, 'x) Connection \<Rightarrow> ('t, 's, 'x) Connection" where
  "perform_key_update ops now c =
     (let c = rotate_keys ops now c; k = key_upd c
      in c\<lparr>key_upd := k\<lparr>key_phase := \<not> key_phase k, key_update_received := True,
             key_update_count := key_update_count k + 1, key_update_cooldown := Some (now + conn_pto c * 3)\<rparr>\<rparr>)"

definition initiate_key_update ::
    "instant \<Rightarrow> ('t, 's, 'x) Connection \<Rightarrow> bool \<times> ('t, 's, 'x) Connection" where
  "initiate_key_update now c =
     (if (case key_update_cooldown (key_upd c) of Some t \<Rightarrow> now < t | None \<Rightarrow> False)
         \<or> \<not> one_rtt_ready (hs c) \<or> next_1rtt_keys (key_upd c) = None
      then (False, c)
      else (True, c\<lparr>key_upd := (key_upd c)\<lparr>key_update_pending := True\<rparr>\<rparr>))"

definition initiate_key_update_now ::
    "('t, 's) tls_ops \<Rightarrow> instant \<Rightarrow> ('t, 's, 'x) Connection \<Rightarrow> ('t, 's, 'x) Connection" where
  "initiate_key_update_now ops now c =
     (let c = c\<lparr>key_upd := (key_upd c)\<lparr>key_update_pending := False\<rparr>\<rparr>;
          c = rotate_keys ops now c; k = key_upd c
      in c\<lparr>key_upd := k\<lparr>key_phase := \<not> key_phase k, key_update_count := key_update_count k + 1,
             key_update_cooldown := Some (now + conn_pto c * 3)\<rparr>\<rparr>)"

definition initiate_path_challenge ::
    "bytes option \<Rightarrow> ('t, 's, 'x) Connection \<Rightarrow> (OxiQuicError + unit) \<times> ('t, 's, 'x) Connection" where
  "initiate_path_challenge raw c =
     (if \<not> one_rtt_ready (hs c)
      then (Inl (E_Connection ''cannot send PATH_CHALLENGE before 1-RTT keys are ready''), c)
      else case raw of
        None \<Rightarrow> (Inl (E_Connection ''secure RNG failed''), c)
      | Some nonce \<Rightarrow>
          (Inr (), c\<lparr>migration := (migration c)\<lparr>pending_path_challenge := Some nonce,
                      pending_path_challenge_send := True, path_validated := False\<rparr>\<rparr>))"

definition set_candidate_peer_addr :: "SocketAddr \<Rightarrow> Migration \<Rightarrow> Migration" where
  "set_candidate_peer_addr addr m =
     m\<lparr>candidate_peer_addr := Some addr, pending_path_challenge := None,
       pending_path_challenge_send := False, path_validated := False\<rparr>"

end
