(* ===== verification/Config.thy ===== *)
theory Config
  imports Connection
begin

text \<open>
  \<^verbatim>\<open>oxiquic-transport/src/config.rs\<close>: the settings of an endpoint and the stateless Retry tokens.  HMAC-SHA256 and
  the random generator are parameters; durations are nanoseconds.
\<close>

section \<open>Settings\<close>

definition MIN_INITIAL_MTU :: nat where "MIN_INITIAL_MTU = 1200"

definition U32_MAX :: nat where "U32_MAX = 2 ^ 32 - 1"

record TransportConfig =
  tc_idle_timeout :: duration
  tc_keep_alive_interval :: "duration option"
  tc_max_concurrent_bidi_streams :: u64
  tc_max_concurrent_uni_streams :: u64
  tc_stream_receive_window :: u64
  tc_receive_window :: u64
  tc_send_window :: u64
  tc_initial_mtu :: nat
  tc_min_mtu :: nat
  tc_max_mtu :: nat
  tc_mtu_discovery :: bool
  tc_congestion_controller :: CongestionAlgorithm
  tc_retry_enabled :: bool
  tc_retry_secret :: "bytes option"
  tc_server_secret :: "bytes option"
  tc_active_connection_id_limit :: u64
  tc_max_datagram_frame_size :: u64
  tc_datagram_receive_buffer_size :: nat
  tc_max_early_data_size :: nat

definition TransportConfig_default :: TransportConfig where
  "TransportConfig_default =
     \<lparr>tc_idle_timeout = 30 * 10 ^ 9, tc_keep_alive_interval = None, tc_max_concurrent_bidi_streams = 100,
      tc_max_concurrent_uni_streams = 100, tc_stream_receive_window = 1024 * 1024,
      tc_receive_window = 8 * 1024 * 1024, tc_send_window = 8 * 1024 * 1024,
      tc_initial_mtu = MIN_MAX_UDP_PAYLOAD_SIZE, tc_min_mtu = MIN_MAX_UDP_PAYLOAD_SIZE, tc_max_mtu = 1452,
      tc_mtu_discovery = True, tc_congestion_controller = CubicAlgo, tc_retry_enabled = False,
      tc_retry_secret = None, tc_server_secret = None, tc_active_connection_id_limit = 7,
      tc_max_datagram_frame_size = 0, tc_datagram_receive_buffer_size = 65536, tc_max_early_data_size = 0\<rparr>"

text \<open>The builder methods that do more than store their argument.\<close>

definition set_initial_mtu :: "nat \<Rightarrow> TransportConfig \<Rightarrow> TransportConfig" where
  "set_initial_mtu m c = c\<lparr>tc_initial_mtu := max m MIN_INITIAL_MTU\<rparr>"

definition set_min_mtu :: "nat \<Rightarrow> TransportConfig \<Rightarrow> TransportConfig" where
  "set_min_mtu m c = c\<lparr>tc_min_mtu := max m MIN_INITIAL_MTU\<rparr>"

definition set_active_connection_id_limit :: "u64 \<Rightarrow> TransportConfig \<Rightarrow> TransportConfig" where
  "set_active_connection_id_limit limit c = c\<lparr>tc_active_connection_id_limit := max limit 2\<rparr>"

definition set_max_early_data_size :: "nat \<Rightarrow> TransportConfig \<Rightarrow> TransportConfig" where
  "set_max_early_data_size n c = c\<lparr>tc_max_early_data_size := (if n = 0 then 0 else U32_MAX)\<rparr>"

text \<open>And one constructor for each that stores it.\<close>

datatype Setting =
    IdleTimeout duration | KeepAliveInterval "duration option" | MaxConcurrentBidiStreams u64
  | MaxConcurrentUniStreams u64 | StreamReceiveWindow u64 | ReceiveWindow u64 | SendWindow u64
  | InitialMtu nat | MinMtu nat | MaxMtu nat | MtuDiscovery bool | CongestionController CongestionAlgorithm
  | RetryEnabled bool | RetrySecret bytes | ServerSecret bytes | ActiveConnectionIdLimit u64
  | MaxDatagramFrameSize u64 | DatagramReceiveBufferSize nat | MaxEarlyDataSize nat

primrec configure :: "Setting \<Rightarrow> TransportConfig \<Rightarrow> TransportConfig" where
  "configure (IdleTimeout d) c = c\<lparr>tc_idle_timeout := d\<rparr>"
| "configure (KeepAliveInterval d) c = c\<lparr>tc_keep_alive_interval := d\<rparr>"
| "configure (MaxConcurrentBidiStreams n) c = c\<lparr>tc_max_concurrent_bidi_streams := n\<rparr>"
| "configure (MaxConcurrentUniStreams n) c = c\<lparr>tc_max_concurrent_uni_streams := n\<rparr>"
| "configure (StreamReceiveWindow n) c = c\<lparr>tc_stream_receive_window := n\<rparr>"
| "configure (ReceiveWindow n) c = c\<lparr>tc_receive_window := n\<rparr>"
| "configure (SendWindow n) c = c\<lparr>tc_send_window := n\<rparr>"
| "configure (InitialMtu n) c = set_initial_mtu n c"
| "configure (MinMtu n) c = set_min_mtu n c"
| "configure (MaxMtu n) c = c\<lparr>tc_max_mtu := n\<rparr>"
| "configure (MtuDiscovery b) c = c\<lparr>tc_mtu_discovery := b\<rparr>"
| "configure (CongestionController a) c = c\<lparr>tc_congestion_controller := a\<rparr>"
| "configure (RetryEnabled b) c = c\<lparr>tc_retry_enabled := b\<rparr>"
| "configure (RetrySecret s) c = c\<lparr>tc_retry_secret := Some s\<rparr>"
| "configure (ServerSecret s) c = c\<lparr>tc_server_secret := Some s\<rparr>"
| "configure (ActiveConnectionIdLimit n) c = set_active_connection_id_limit n c"
| "configure (MaxDatagramFrameSize n) c = c\<lparr>tc_max_datagram_frame_size := n\<rparr>"
| "configure (DatagramReceiveBufferSize n) c = c\<lparr>tc_datagram_receive_buffer_size := n\<rparr>"
| "configure (MaxEarlyDataSize n) c = set_max_early_data_size n c"

definition validate_config :: "TransportConfig \<Rightarrow> OxiQuicError + unit" where
  "validate_config c =
     (if tc_min_mtu c < MIN_INITIAL_MTU
      then Inl (E_Protocol (''min_mtu '' @ decimal (tc_min_mtu c) @ '' is below the QUIC minimum of ''
                              @ decimal MIN_INITIAL_MTU))
      else if tc_initial_mtu c < tc_min_mtu c
      then Inl (E_Protocol (''initial_mtu '' @ decimal (tc_initial_mtu c) @ '' is below min_mtu '' @ decimal (tc_min_mtu c)))
      else if tc_max_mtu c < tc_initial_mtu c
      then Inl (E_Protocol (''max_mtu '' @ decimal (tc_max_mtu c) @ '' is below initial_mtu '' @ decimal (tc_initial_mtu c)))
      else Inr ())"

definition to_transport_params :: "TransportConfig \<Rightarrow> TransportParams" where
  "to_transport_params c =
     TransportParams_default\<lparr>max_idle_timeout_ms := min (tc_idle_timeout c div 10 ^ 6) U64_MAX,
       initial_max_data := tc_receive_window c,
       initial_max_stream_data_bidi_local := tc_stream_receive_window c,
       initial_max_stream_data_bidi_remote := tc_stream_receive_window c,
       initial_max_stream_data_uni := tc_stream_receive_window c,
       initial_max_streams_bidi := tc_max_concurrent_bidi_streams c,
       initial_max_streams_uni := tc_max_concurrent_uni_streams c,
       max_udp_payload_size := max (tc_initial_mtu c) MIN_MAX_UDP_PAYLOAD_SIZE,
       active_connection_id_limit := tc_active_connection_id_limit c,
       max_datagram_frame_size := tc_max_datagram_frame_size c\<rparr>"

section \<open>Retry tokens\<close>

text \<open>A secret from the generator, or from the clock when the generator fails.\<close>

definition getrandom_secret :: "bytes option \<Rightarrow> nat \<Rightarrow> bytes" where
  "getrandom_secret raw nanos =
     (case raw of
        Some bs \<Rightarrow> bs
      | None \<Rightarrow> map (\<lambda>i. word_of_nat (nanos + i * 0x9e3779b9)) [0..<32])"

definition get_or_generate_retry_secret :: "bytes option \<Rightarrow> nat \<Rightarrow> TransportConfig \<Rightarrow> bytes \<times> TransportConfig" where
  "get_or_generate_retry_secret raw nanos c =
     (case tc_retry_secret c of
        Some s \<Rightarrow> (s, c)
      | None \<Rightarrow> let s = getrandom_secret raw nanos in (s, c\<lparr>tc_retry_secret := Some s\<rparr>))"

definition get_or_generate_server_secret :: "bytes option \<Rightarrow> nat \<Rightarrow> TransportConfig \<Rightarrow> bytes \<times> TransportConfig" where
  "get_or_generate_server_secret raw nanos c =
     (case tc_server_secret c of
        Some s \<Rightarrow> (s, c)
      | None \<Rightarrow> let s = getrandom_secret raw nanos in (s, c\<lparr>tc_server_secret := Some s\<rparr>))"

definition port_bytes :: "SocketAddr \<Rightarrow> bytes" where
  "port_bytes a = [word_of_nat (port a div 256), word_of_nat (port a)]"

definition hmac_retry_tag :: "(bytes \<Rightarrow> bytes \<Rightarrow> bytes) \<Rightarrow> bytes \<Rightarrow> bytes \<Rightarrow> SocketAddr \<Rightarrow> bytes" where
  "hmac_retry_tag hmac secret odcid peer = take 16 (hmac secret (odcid @ octets peer @ port_bytes peer))"

definition generate_retry_token ::
    "(bytes \<Rightarrow> bytes \<Rightarrow> bytes) \<Rightarrow> bytes option \<Rightarrow> nat \<Rightarrow> bytes \<Rightarrow> SocketAddr \<Rightarrow> TransportConfig \<Rightarrow> bytes \<times> TransportConfig" where
  "generate_retry_token hmac raw nanos odcid peer c =
     (let (secret, c) = get_or_generate_retry_secret raw nanos c
      in ([word_of_nat (length odcid)] @ odcid @ hmac_retry_tag hmac secret odcid peer, c))"

text \<open>The comparison collects the differing bits of the two tags in \<open>diff\<close>.\<close>

definition tags_differ :: "bytes \<Rightarrow> bytes \<Rightarrow> u8" where
  "tags_differ expected received = fold (\<lambda>(a, b) diff. diff OR (a XOR b)) (zip expected received) 0"

definition validate_retry_token ::
    "(bytes \<Rightarrow> bytes \<Rightarrow> bytes) \<Rightarrow> bytes \<Rightarrow> SocketAddr \<Rightarrow> TransportConfig \<Rightarrow> bytes option" where
  "validate_retry_token hmac token peer c =
     (case tc_retry_secret c of
        None \<Rightarrow> None
      | Some secret \<Rightarrow>
          if length token < 2 + 16 then None
          else
            let odcid_len = unat (token ! 0) in
            if length token < 1 + odcid_len + 16 then None
            else
              let odcid = slice 1 (1 + odcid_len) token;
                  received = slice (1 + odcid_len) (1 + odcid_len + 16) token
              in if tags_differ (hmac_retry_tag hmac secret odcid peer) received = 0 then Some odcid else None)"

section \<open>Lemmas\<close>

lemma tags_differ_fold:
  "fold (\<lambda>(a, b) diff. diff OR (a XOR b)) ps (acc :: u8) = 0 \<longleftrightarrow> acc = 0 \<and> (\<forall>(a, b) \<in> set ps. a = b)"
proof (induction ps arbitrary: acc)
  case (Cons p ps)
  have "x OR y = 0 \<longleftrightarrow> x = 0 \<and> y = 0" for x y :: u8 by (rule or_eq_0_iff)
  moreover have "a XOR b = 0 \<longleftrightarrow> a = b" for a b :: u8
  proof
    have "a = (a XOR b) XOR b" by (simp add: xor.assoc)
    then show "a = b" if "a XOR b = 0" using that by simp
  qed simp
  ultimately show ?case using Cons by (cases p) simp
qed simp

lemma tags_differ_iff: "length a = length b \<Longrightarrow> tags_differ a b = 0 \<longleftrightarrow> a = b"
  unfolding tags_differ_def tags_differ_fold
  by (induction a b rule: list_induct2) auto

text \<open>A token is accepted exactly when it carries the tag of its connection ID for the address it comes from.\<close>

lemma validate_retry_token_iff:
  assumes "\<And>k m. length (hmac k m) = 32"
  shows "validate_retry_token hmac token peer c = Some odcid \<longleftrightarrow>
    (\<exists>secret tail. tc_retry_secret c = Some secret \<and> length token \<ge> 18 \<and> length odcid \<le> 255
       \<and> token = word_of_nat (length odcid) # odcid @ hmac_retry_tag hmac secret odcid peer @ tail)"
  (is "?l \<longleftrightarrow> ?r")
proof
  assume l: ?l
  then obtain secret where s: "tc_retry_secret c = Some secret" by (auto simp add: validate_retry_token_def split: option.splits)
  let ?n = "unat (token ! 0)"
  have len: "18 \<le> length token" "17 + ?n \<le> length token" and od: "odcid = slice 1 (1 + ?n) token"
    and eq: "hmac_retry_tag hmac secret odcid peer = slice (1 + ?n) (1 + ?n + 16) token"
    using l s assms
    by (auto simp add: validate_retry_token_def Let_def tags_differ_iff hmac_retry_tag_def slice_def split: if_splits)
  have "token = token ! 0 # take ?n (drop 1 token) @ take 16 (drop (1 + ?n) token) @ drop (17 + ?n) token"
  proof (cases token)
    case (Cons b bs)
    have "bs = take (unat b) bs @ take 16 (drop (unat b) bs) @ drop (unat b + 16) bs"
      by (metis append_assoc append_take_drop_id take_add)
    moreover have "drop (17 + unat b) (b # bs) = drop (unat b + 16) bs" by (simp add: drop_Cons' add.commute)
    ultimately show ?thesis by (simp add: Cons)
  qed (use len in simp)
  moreover have "?n \<le> 255" using unat_byte_less [of "token ! 0"] by linarith
  moreover have n: "length odcid = ?n" using len by (simp add: od slice_def)
  ultimately have "length odcid \<le> 255
      \<and> token = word_of_nat (length odcid) # odcid @ hmac_retry_tag hmac secret odcid peer @ drop (17 + ?n) token"
    unfolding eq n by (simp add: od slice_def)
  then show ?r using s len(1) by blast
next
  assume ?r
  then obtain secret tail where "tc_retry_secret c = Some secret" "18 \<le> length token" "length odcid \<le> 255"
    "token = word_of_nat (length odcid) # odcid @ hmac_retry_tag hmac secret odcid peer @ tail" by blast
  then show ?l
    using assms by (auto simp add: validate_retry_token_def Let_def slice_def hmac_retry_tag_def tags_differ_iff)
qed

text \<open>The tag does not separate the connection ID from the address: a token made for an IPv4 address is also accepted
  from every IPv6 address that ends in it, once the length byte is changed.\<close>

lemma retry_tag_ambiguous:
  "hmac_retry_tag hmac secret (odcid @ prefix) (SocketV4 ip p)
    = hmac_retry_tag hmac secret odcid (SocketV6 (prefix @ ip) p flow scope)"
  by (simp add: hmac_retry_tag_def port_bytes_def)

end
