(* ===== verification/Conn_Recovery.thy ===== *)
theory Conn_Recovery
  imports Connection
begin

text \<open>
  \<^verbatim>\<open>oxiquic-transport/src/connection/recovery.rs\<close>: acknowledgements, loss and probe timeouts over the
  whole connection, with \<^verbatim>\<open>handle_timeout\<close> of \<^verbatim>\<open>mod.rs\<close> and the accounting of a sent packet at the
  end of \<^verbatim>\<open>write_space_packet\<close> of \<^verbatim>\<open>send.rs\<close>.  The floating-point operations of the controllers are
  the argument \<open>fp\<close>.
\<close>

section \<open>Requeueing\<close>

fun space_index :: "PacketType \<Rightarrow> nat" where
  "space_index PT_Initial = space_as_usize InitialIdx"
| "space_index PT_Handshake = space_as_usize HandshakeIdx"
| "space_index _ = space_as_usize ApplicationIdx"

definition requeue_crypto :: "nat \<Rightarrow> u64 \<Rightarrow> bytes \<Rightarrow> Spaces \<Rightarrow> Spaces" where
  "requeue_crypto idx offset data s =
     (if idx = space_as_usize HandshakeIdx
      then s\<lparr>handshake_crypto := crypto_requeue offset data (handshake_crypto s)\<rparr>
      else s\<lparr>initial_crypto := crypto_requeue offset data (initial_crypto s)\<rparr>)"

definition requeue_cid_frame :: "SentFrame \<Rightarrow> Cids \<Rightarrow> Cids" where
  "requeue_cid_frame frame p =
     (case frame of
        SF_NewConnectionId sq retire_prior_to cid token \<Rightarrow>
          p\<lparr>local_cid_pool := (local_cid_pool p)\<lparr>lp_pending_new := lp_pending_new (local_cid_pool p)
              @ [\<lparr>ic_seq = sq, ic_cid = cid, ic_token = token\<rparr>]\<rparr>\<rparr>
      | SF_RetireConnectionId sq \<Rightarrow>
          p\<lparr>peer_cid_pool := (peer_cid_pool p)\<lparr>pp_pending_retire := pp_pending_retire (peer_cid_pool p) @ [sq]\<rparr>\<rparr>
      | SF_NewToken token \<Rightarrow>
          if pending_new_token p = None then p\<lparr>pending_new_token := Some token\<rparr> else p
      | _ \<Rightarrow> p)"

definition requeue_frame :: "nat \<Rightarrow> SentFrame \<Rightarrow> ('t, 's, 'x) Connection \<Rightarrow> ('t, 's, 'x) Connection" where
  "requeue_frame idx frame c =
     (case frame of
        SF_Crypto offset data \<Rightarrow> c\<lparr>spaces := requeue_crypto idx offset data (spaces c)\<rparr>
      | SF_Ping \<Rightarrow> c
      | SF_MtuProbe _ \<Rightarrow> c
      | SF_NewConnectionId _ _ _ _ \<Rightarrow> c\<lparr>cids := requeue_cid_frame frame (cids c)\<rparr>
      | SF_RetireConnectionId _ \<Rightarrow> c\<lparr>cids := requeue_cid_frame frame (cids c)\<rparr>
      | SF_NewToken _ \<Rightarrow> c\<lparr>cids := requeue_cid_frame frame (cids c)\<rparr>
      | _ \<Rightarrow> c\<lparr>streams := requeue_stream_frame frame (streams c)\<rparr>)"

definition handle_lost_frame :: "nat \<Rightarrow> SentFrame \<Rightarrow> ('t, 's, 'x) Connection \<Rightarrow> ('t, 's, 'x) Connection" where
  "handle_lost_frame idx frame c =
     (case frame of SF_MtuProbe _ \<Rightarrow> c\<lparr>mtu := on_mtu_probe_lost (mtu c)\<rparr> | _ \<Rightarrow> requeue_frame idx frame c)"

section \<open>Loss\<close>

definition count_lost :: "SentPacket \<Rightarrow> u64 \<times> instant option \<times> instant option \<Rightarrow> u64 \<times> instant option \<times> instant option" where
  "count_lost p acc =
     (case acc of (lost_bytes, newest, oldest) \<Rightarrow>
        if in_flight p
        then (lost_bytes + sent_bytes p, max_opt newest (time_sent p), min_opt oldest (time_sent p))
        else acc)"

definition congestion_on_loss ::
    "'x f64_ops \<Rightarrow> instant \<Rightarrow> u64 \<times> instant option \<times> instant option \<Rightarrow> 'x RecoveryState \<Rightarrow> 'x RecoveryState" where
  "congestion_on_loss fp now totals r =
     (case totals of
        (lost_bytes, Some newest, oldest) \<Rightarrow>
          let r = r\<lparr>congestion := cc_on_packets_lost fp lost_bytes newest now (congestion r)\<rparr>
          in (case oldest of
                Some t \<Rightarrow>
                  if is_persistent_congestion t newest (pto_base (peer_max_ack_delay r) (rtt r))
                  then r\<lparr>congestion := cc_on_persistent_congestion fp (congestion r)\<rparr> else r
              | None \<Rightarrow> r)
      | (_, None, _) \<Rightarrow> r)"

definition index_space :: "nat \<Rightarrow> SpaceIndex" where
  "index_space idx = (if idx = 0 then InitialIdx else if idx = 1 then HandshakeIdx else ApplicationIdx)"

definition take_lost :: "nat \<Rightarrow> instant \<Rightarrow> 'x RecoveryState \<Rightarrow> SentPacket list \<times> 'x RecoveryState" where
  "take_lost idx now r =
     (case detect_lost now (loss_delay (rtt r)) (sent_packets r ! idx) of
        ((gone, next_loss_time), store) \<Rightarrow>
          (gone, r\<lparr>sent_packets := (sent_packets r)[idx := store],
                   loss := set_loss_time (index_space idx) next_loss_time (loss r)\<rparr>))"

definition detect_and_handle_loss ::
    "'x f64_ops \<Rightarrow> nat \<Rightarrow> instant \<Rightarrow> ('t, 's, 'x) Connection \<Rightarrow> ('t, 's, 'x) Connection" where
  "detect_and_handle_loss fp idx now c =
     (let (gone, r) = take_lost idx now (recov c);
          c = c\<lparr>recov := r\<rparr>
      in if gone = [] then c
         else
           let totals = fold count_lost gone (0, None, None);
               c = c\<lparr>counters := (counters c)\<lparr>packets_lost := packets_lost (counters c) + length gone\<rparr>\<rparr>;
               c = fold (\<lambda>p. fold (handle_lost_frame idx) (sent_frames p)) gone c
           in c\<lparr>recov := congestion_on_loss fp now totals (recov c)\<rparr>)"

section \<open>Timers\<close>

definition earliest_ack_eliciting_across_spaces :: "'x RecoveryState \<Rightarrow> instant option" where
  "earliest_ack_eliciting_across_spaces r =
     fold (\<lambda>store earliest. case earliest_ack_eliciting_time store of
             Some t \<Rightarrow> min_opt earliest t | None \<Rightarrow> earliest) (sent_packets r) None"

definition set_loss_detection_timer :: "'x RecoveryState \<Rightarrow> 'x RecoveryState" where
  "set_loss_detection_timer r =
     (case earliest_loss_time (loss r) of
        Some (t, _) \<Rightarrow> r\<lparr>loss_timer := Some t\<rparr>
      | None \<Rightarrow>
          r\<lparr>loss_timer := map_option (\<lambda>t. pto_deadline t (pto_base (peer_max_ack_delay r) (rtt r)) (loss r))
              (earliest_ack_eliciting_across_spaces r)\<rparr>)"

definition requeue_for_probe :: "('t, 's, 'x) Connection \<Rightarrow> ('t, 's, 'x) Connection" where
  "requeue_for_probe c =
     fold (\<lambda>idx c. case oldest_ack_eliciting_frames (sent_packets (recov c) ! idx) of
             Some frames \<Rightarrow> fold (requeue_frame idx) frames c
           | None \<Rightarrow> c) [0, 1, 2] c"

definition pto_expired :: "('t, 's, 'x) Connection \<Rightarrow> ('t, 's, 'x) Connection" where
  "pto_expired c =
     (let c = (if earliest_ack_eliciting_across_spaces (recov c) \<noteq> None
               then requeue_for_probe (c\<lparr>recov := (recov c)\<lparr>loss := increase_pto_count (loss (recov c)),
                      probes_owed := min (probes_owed (recov c) + 2) 4\<rparr>\<rparr>)
               else c)
      in c\<lparr>recov := set_loss_detection_timer (recov c)\<rparr>)"

definition on_loss_timeout :: "'x f64_ops \<Rightarrow> instant \<Rightarrow> ('t, 's, 'x) Connection \<Rightarrow> ('t, 's, 'x) Connection" where
  "on_loss_timeout fp now c =
     (case earliest_loss_time (loss (recov c)) of
        Some (t, space) \<Rightarrow>
          if now \<ge> t
          then let c = detect_and_handle_loss fp (space_as_usize space) now c
               in c\<lparr>recov := set_loss_detection_timer (recov c)\<rparr>
          else pto_expired c
      | None \<Rightarrow> pto_expired c)"

definition keep_alive_due :: "instant \<Rightarrow> Timers \<Rightarrow> Timers" where
  "keep_alive_due now t =
     (case next_keep_alive t of
        Some ka \<Rightarrow>
          if now \<ge> ka
          then arm_keep_alive now (t\<lparr>pending_keep_alive_ping := True\<rparr>)
          else t
      | None \<Rightarrow> t)"

definition due :: "instant \<Rightarrow> instant option \<Rightarrow> bool" where
  "due now t = (case t of Some t \<Rightarrow> now \<ge> t | None \<Rightarrow> False)"

definition handle_timeout :: "'x f64_ops \<Rightarrow> instant \<Rightarrow> ('t, 's, 'x) Connection \<Rightarrow> ('t, 's, 'x) Connection" where
  "handle_timeout fp now c =
     (if due now (idle_deadline (timers c))
      then c\<lparr>life := (life c)\<lparr>state := Closed,
               peer_closed := Some (case peer_closed (life c) of Some e \<Rightarrow> e | None \<Rightarrow> E_IdleTimeout)\<rparr>\<rparr>
      else
        let c = c\<lparr>timers := keep_alive_due now (timers c)\<rparr>;
            c = (if due now (loss_timer (recov c)) then on_loss_timeout fp now c else c)
        in if due now (next_mtu_probe (mtu c)) \<and> state (life c) = Established
           then c\<lparr>mtu := schedule_mtu_probe (state (life c) = Established) (mtu c)\<rparr>
           else c)"

section \<open>Acknowledgements\<close>

definition decode_ack_delay :: "TransportParams option \<Rightarrow> u64 \<Rightarrow> duration" where
  "decode_ack_delay params delay =
     (let exponent = (case params of Some p \<Rightarrow> ack_delay_exponent p | None \<Rightarrow> DEFAULT_ACK_DELAY_EXPONENT)
      in sat_mul delay (2 ^ min exponent 20) * 1000)"

definition space_acked :: "PacketType \<Rightarrow> u64 \<Rightarrow> Spaces \<Rightarrow> Spaces" where
  "space_acked packet_type largest s =
     (case packet_type of
        PT_Initial \<Rightarrow> s\<lparr>initial := on_ack_received largest (initial s)\<rparr>
      | PT_Handshake \<Rightarrow> s\<lparr>handshake := on_ack_received largest (handshake s)\<rparr>
      | _ \<Rightarrow> s\<lparr>application := on_ack_received largest (application s)\<rparr>)"

text \<open>The RTT sample, taken when the largest acknowledged packet is newly acknowledged.\<close>

definition sample_rtt ::
    "instant \<Rightarrow> u64 \<Rightarrow> duration \<Rightarrow> duration \<Rightarrow> AckOutcome \<Rightarrow> RttEstimator \<Rightarrow> RttEstimator" where
  "sample_rtt now largest ack_delay max_ack_delay outcome r =
     (if largest_newly_acked outcome = Some largest
      then (case find (\<lambda>p. packet_number p = largest) (newly_acked outcome) of
              Some p \<Rightarrow> update_rtt (now - time_sent p) ack_delay max_ack_delay r
            | None \<Rightarrow> r)
      else r)"

definition congestion_on_ack :: "'x f64_ops \<Rightarrow> instant \<Rightarrow> SentPacket list \<Rightarrow> 'x RecoveryState \<Rightarrow> 'x RecoveryState" where
  "congestion_on_ack fp now acked_packets r =
     (let acked_cc = map (\<lambda>p. (sent_bytes p, time_sent p, rate_sample p)) (filter in_flight acked_packets)
      in if acked_cc = [] then r
         else r\<lparr>congestion := cc_on_packets_acked fp acked_cc now (congestion r)\<rparr>)"

definition mtu_probe_acks :: "instant \<Rightarrow> SentPacket list \<Rightarrow> MtuState \<Rightarrow> MtuState" where
  "mtu_probe_acks now acked_packets =
     fold (\<lambda>f m. case f of SF_MtuProbe sz \<Rightarrow> on_mtu_probe_acked sz now m | _ \<Rightarrow> m)
       (concat (map sent_frames acked_packets))"

definition process_ack ::
    "'x f64_ops \<Rightarrow> instant \<Rightarrow> PacketType \<Rightarrow> u64 \<Rightarrow> u64 \<Rightarrow> u64 \<Rightarrow> AckRange list \<Rightarrow> ('t, 's, 'x) Connection
      \<Rightarrow> ('t, 's, 'x) Connection" where
  "process_ack fp now packet_type largest delay first_range ranges c =
     (let idx = space_index packet_type;
          c = c\<lparr>spaces := space_acked packet_type largest (spaces c)\<rparr>;
          (outcome, store) = on_ack largest first_range (map (\<lambda>r. (ar_gap r, ar_range r)) ranges)
                               (sent_packets (recov c) ! idx);
          c = c\<lparr>recov := (recov c)\<lparr>sent_packets := (sent_packets (recov c))[idx := store]\<rparr>\<rparr>
      in if newly_acked outcome = [] then c
         else
           let max_ack_delay = (if idx = space_as_usize ApplicationIdx \<and> handshake_done (hs c)
                                then peer_max_ack_delay (recov c) else 0);
               r = (recov c)\<lparr>rtt := sample_rtt now largest (decode_ack_delay (peer_params (streams c)) delay)
                                      max_ack_delay outcome (rtt (recov c))\<rparr>;
               r = congestion_on_ack fp now (newly_acked outcome) r;
               r = (if acked_ack_eliciting outcome
                    then r\<lparr>loss := reset_pto_count (loss r), probes_owed := 0\<rparr> else r);
               c = c\<lparr>recov := r, mtu := mtu_probe_acks now (newly_acked outcome) (mtu c)\<rparr>;
               c = detect_and_handle_loss fp idx now c
           in c\<lparr>recov := set_loss_detection_timer (recov c)\<rparr>)"

section \<open>Sending\<close>

text \<open>
  The end of \<open>write_space_packet\<close>: the packet \<open>pn\<close> with \<open>frames\<close>, \<open>n\<close> bytes on the wire, is
  counted, charged to the congestion controller and recorded.
\<close>

definition kind_index :: "SpaceKind \<Rightarrow> nat" where
  "kind_index kind =
     space_as_usize (case kind of InitialSpace \<Rightarrow> InitialIdx | HandshakeSpace \<Rightarrow> HandshakeIdx
                                | ApplicationSpace \<Rightarrow> ApplicationIdx)"

definition is_mtu_probe :: "SentFrame list \<Rightarrow> bool" where
  "is_mtu_probe frames = list_ex (\<lambda>f. case f of SF_MtuProbe _ \<Rightarrow> True | _ \<Rightarrow> False) frames"

definition account_packet ::
    "instant \<Rightarrow> SpaceKind \<Rightarrow> u64 \<Rightarrow> SentFrame list \<Rightarrow> bool \<Rightarrow> nat \<Rightarrow> ('t, 's, 'x) Connection \<Rightarrow> ('t, 's, 'x) Connection" where
  "account_packet now kind pn frames eliciting n c =
     (let flying = (\<not> is_mtu_probe frames \<and> eliciting);
          c = c\<lparr>counters := (counters c)\<lparr>packets_sent := packets_sent (counters c) + 1,
                   bytes_sent := bytes_sent (counters c) + n\<rparr>\<rparr>;
          r = recov c;
          (sample, cc) = (if flying then cc_on_packet_sent n now (congestion r) else (None, congestion r));
          r = r\<lparr>congestion := cc\<rparr>;
          idx = kind_index kind
      in if eliciting \<or> frames \<noteq> []
         then c\<lparr>recov := r\<lparr>sent_packets := (sent_packets r)[idx :=
                  sp_on_packet_sent \<lparr>packet_number = pn, time_sent = now, ack_eliciting = eliciting,
                    in_flight = flying, sent_bytes = n, sent_frames = frames, rate_sample = sample\<rparr>
                    (sent_packets r ! idx)]\<rparr>\<rparr>
         else c\<lparr>recov := r\<rparr>)"

text \<open>\<^verbatim>\<open>next_pn\<close> of the space a packet is built in.\<close>

definition take_pn :: "SpaceKind \<Rightarrow> Spaces \<Rightarrow> u64 \<times> Spaces" where
  "take_pn kind s =
     (case kind of
        InitialSpace \<Rightarrow> let (pn, sp) = next_pn (initial s) in (pn, s\<lparr>initial := sp\<rparr>)
      | HandshakeSpace \<Rightarrow> let (pn, sp) = next_pn (handshake s) in (pn, s\<lparr>handshake := sp\<rparr>)
      | ApplicationSpace \<Rightarrow> let (pn, sp) = next_pn (application s) in (pn, s\<lparr>application := sp\<rparr>))"

section \<open>Bytes in flight\<close>

definition flight :: "SentPacket \<Rightarrow> nat" where
  "flight p = (if in_flight p then sent_bytes p else 0)"

definition flight_total :: "SentPackets list \<Rightarrow> nat" where
  "flight_total stores = sum_list (map (\<lambda>s. bmap_sum flight (sent s)) stores)"

definition pns :: "Spaces \<Rightarrow> u64 list" where
  "pns s = map sp_next_packet_number [initial s, handshake s, application s]"

text \<open>A store holds packet numbers below the next one of its space.\<close>

definition store_below :: "SentPackets \<Rightarrow> u64 \<Rightarrow> bool" where
  "store_below s n \<longleftrightarrow> bmap_ok (sent s) \<and> fst ` set (sent s) \<subseteq> {..<n}"

definition cc_ok :: "'x CongestionController \<Rightarrow> bool" where
  "cc_ok cc \<longleftrightarrow> cc_inv cc \<and> cc_datagram cc = MAX_DATAGRAM_SIZE"

definition flight_inv :: "'x RecoveryState \<Rightarrow> u64 list \<Rightarrow> bool" where
  "flight_inv r ns \<longleftrightarrow>
     list_all2 store_below (sent_packets r) ns
     \<and> cc_bytes_in_flight (congestion r) = flight_total (sent_packets r)
     \<and> cc_ok (congestion r)"

lemma cc_ok_ops:
  assumes "cc_ok cc"
  shows "cc_ok (snd (cc_on_packet_sent n t cc))" "cc_ok (cc_on_packets_acked fp xs t cc)"
    "cc_ok (cc_on_packets_lost fp n t t' cc)" "cc_ok (cc_on_persistent_congestion fp cc)"
  using assms controller.sent_laws [of n t cc] controller.acked_laws [of fp xs t cc]
    controller.lost_laws [of fp n t t' cc] controller.persistent_laws [of fp cc]
    controller.invar_sent [of cc] controller.invar_acked [of cc] controller.invar_lost [of cc]
    controller.invar_persistent [of cc]
  by (simp_all add: cc_ok_def)

lemma bmap_sum_remove:
  "bmap_ok m \<Longrightarrow> bmap_get k m = Some v \<Longrightarrow> bmap_sum f (bmap_remove k m) + f v = bmap_sum f m"
proof (induction m)
  case (Cons e m)
  obtain k' w where e: "e = (k', w)" by (cases e)
  have "bmap_remove k m = m" if "k' = k"
    using Cons.prems(1) that by (auto simp add: e bmap_remove_def filter_id_conv)
  then show ?case using Cons e by (auto simp add: bmap_sum_def bmap_get_def bmap_remove_def split: if_splits)
qed (simp add: bmap_get_def)

lemma bmap_sum_nonmember: "bmap_ok m \<Longrightarrow> k \<notin> fst ` set m \<Longrightarrow> bmap_sum f (bmap_insert k v m) = bmap_sum f m + f v"
  using bmap_sum_insert [of m f k v] bmap_get_None_iff [of k m] by simp

definition flights :: "SentPacket list \<Rightarrow> nat" where
  "flights ps = sum_list (map flight ps)"

lemma flights_simps [simp]:
  "flights [] = 0" "flights (p # ps) = flight p + flights ps" "flights (ps @ ps') = flights ps + flights ps'"
  by (simp_all add: flights_def)

text \<open>Taking packets out of a store moves their bytes from the store to the list taken.\<close>

lemma on_ack_pns_flight:
  assumes "on_ack_pns ks (m, out) = (m', out')" and "bmap_ok m"
  shows "bmap_sum flight m' + flights (newly_acked out') = bmap_sum flight m + flights (newly_acked out)
    \<and> bmap_ok m' \<and> fst ` set m' \<subseteq> fst ` set m"
  using assms
proof (induction ks arbitrary: m out)
  case (Cons k ks)
  show ?case
  proof (cases "bmap_get k m")
    case (Some p)
    then show ?thesis
      using Cons.IH [of "bmap_remove k m"] Cons.prems bmap_sum_remove [OF Cons.prems(2) Some, of flight]
      by fastforce
  qed (use Cons in auto)
qed simp

lemma on_ack_loop_flight:
  assumes "on_ack_loop rs (m, out) = (m', out')" and "bmap_ok m"
  shows "bmap_sum flight m' + flights (newly_acked out') = bmap_sum flight m + flights (newly_acked out)
    \<and> bmap_ok m' \<and> fst ` set m' \<subseteq> fst ` set m"
  using assms
proof (induction rs arbitrary: m out)
  case (Cons r rs)
  obtain l h where r: "r = (l, h)" by (cases r)
  obtain m1 out1 where 1: "on_ack_pns (range_keys l h m) (m, out) = (m1, out1)" by fastforce
  then show ?case
    using Cons.IH [of m1 out1] Cons.prems on_ack_pns_flight [OF 1] by (simp add: r) force
qed simp

lemma store_below_shrink:
  "store_below s n \<Longrightarrow> bmap_ok m \<Longrightarrow> fst ` set m \<subseteq> fst ` set (sent s) \<Longrightarrow> sent s' = m \<Longrightarrow> store_below s' n"
  unfolding store_below_def by (metis subset_trans)

lemma on_ack_flight:
  assumes "on_ack largest first ranges s = (out, s')" and "store_below s n"
  shows "bmap_sum flight (sent s') + flights (newly_acked out) = bmap_sum flight (sent s)" and "store_below s' n"
proof -
  obtain m where m: "on_ack_loop (ack_ranges largest first ranges) (sent s, AckOutcome_default) = (m, out)"
    and s': "sent s' = m"
    using assms(1) by (auto simp add: on_ack_def Let_def split: prod.splits)
  have *: "bmap_sum flight m + flights (newly_acked out) = bmap_sum flight (sent s)
      \<and> bmap_ok m \<and> fst ` set m \<subseteq> fst ` set (sent s)"
    using on_ack_loop_flight [OF m] assms(2) by (simp add: store_below_def AckOutcome_default_def)
  then show "bmap_sum flight (sent s') + flights (newly_acked out) = bmap_sum flight (sent s)" by (simp add: s')
  show "store_below s' n" using store_below_shrink [OF assms(2)] * s' by blast
qed

lemma detect_lost_loop_flight:
  assumes "detect_lost_loop la thr d ks (m, gone, t) = (m', gone', t')" and "bmap_ok m"
  shows "bmap_sum flight m' + flights gone' = bmap_sum flight m + flights gone
    \<and> bmap_ok m' \<and> fst ` set m' \<subseteq> fst ` set m"
  using assms
proof (induction ks arbitrary: m gone t)
  case (Cons k ks)
  show ?case
  proof (cases "bmap_get k m")
    case (Some p)
    show ?thesis
    proof (cases "la \<ge> k + K_PACKET_THRESHOLD \<or> (case thr of Some t \<Rightarrow> time_sent p \<le> t | None \<Rightarrow> False)")
      case True
      then show ?thesis
        using Cons.IH [of "bmap_remove k m" "gone @ [p]" t] Cons.prems
          bmap_sum_remove [OF Cons.prems(2) Some, of flight] Some by fastforce
    next
      case False
      then show ?thesis using Cons.IH Cons.prems Some by (auto simp add: Let_def)
    qed
  qed (use Cons in auto)
qed simp

lemma detect_lost_flight:
  assumes "detect_lost now d s = ((gone, t), s')" and "store_below s n"
  shows "bmap_sum flight (sent s') + flights gone = bmap_sum flight (sent s)" and "store_below s' n"
proof -
  have "bmap_sum flight (sent s') + flights gone = bmap_sum flight (sent s)
      \<and> bmap_ok (sent s') \<and> fst ` set (sent s') \<subseteq> fst ` set (sent s)"
  proof (cases "largest_acked s")
    case None
    then show ?thesis using assms by (simp add: detect_lost_def store_below_def)
  next
    case (Some la)
    obtain m gone' t' where m: "detect_lost_loop la (checked_sub now d) d (filter (\<lambda>k. k \<le> la) (bmap_keys (sent s)))
        (sent s, [], None) = (m, gone', t')" by (metis prod_cases3)
    then have "gone' = gone" "sent s' = m" using assms(1) Some by (auto simp add: detect_lost_def Let_def)
    then show ?thesis using detect_lost_loop_flight [OF m] assms(2) by (simp add: store_below_def)
  qed
  then show "bmap_sum flight (sent s') + flights gone = bmap_sum flight (sent s)" and "store_below s' n"
    using store_below_shrink [OF assms(2)] by blast+
qed

lemma flight_total_update:
  assumes "idx < length stores" and "bmap_sum flight (sent s) + n = bmap_sum flight (sent (stores ! idx))"
  shows "flight_total (stores[idx := s]) + n = flight_total stores"
  using assms
proof (induction stores arbitrary: idx)
  case (Cons x xs)
  then show ?case by (cases idx) (auto simp add: flight_total_def)
qed simp

section \<open>Every operation keeps the account\<close>

lemma requeue_frame_keeps [simp]:
  "recov (requeue_frame idx f c) = recov c"
  "pns (spaces (requeue_frame idx f c)) = pns (spaces c)"
  by (simp_all add: requeue_frame_def requeue_crypto_def pns_def split: SentFrame.split)

lemma handle_lost_frame_keeps [simp]:
  "recov (handle_lost_frame idx f c) = recov c"
  "pns (spaces (handle_lost_frame idx f c)) = pns (spaces c)"
  by (simp_all add: handle_lost_frame_def split: SentFrame.split)

lemma requeue_all_keeps [simp]:
  "recov (fold (requeue_frame idx) fs c) = recov c"
  "pns (spaces (fold (requeue_frame idx) fs c)) = pns (spaces c)"
  by (induction fs arbitrary: c) simp_all

lemma handle_lost_frames_keeps [simp]:
  "recov (fold (handle_lost_frame idx) fs c) = recov c"
  "pns (spaces (fold (handle_lost_frame idx) fs c)) = pns (spaces c)"
  by (induction fs arbitrary: c) simp_all

lemma handle_lost_keeps [simp]:
  "recov (fold (\<lambda>p. fold (handle_lost_frame idx) (sent_frames p)) ps c) = recov c"
  "pns (spaces (fold (\<lambda>p. fold (handle_lost_frame idx) (sent_frames p)) ps c)) = pns (spaces c)"
  by (induction ps arbitrary: c) simp_all

lemma requeue_for_probe_keeps [simp]:
  "recov (requeue_for_probe c) = recov c"
  "pns (spaces (requeue_for_probe c)) = pns (spaces c)"
  by (simp_all add: requeue_for_probe_def split: option.split)

lemma space_acked_pns [simp]: "pns (space_acked t n s) = pns s"
  by (simp add: space_acked_def pns_def on_ack_received_def split: PacketType.split)

lemma count_lost_totals:
  "fold count_lost ps (b, newest, oldest) = (b', newest', oldest') \<Longrightarrow>
     b' = b + flights ps \<and> (newest' = None \<longrightarrow> newest = None \<and> flights ps = 0)"
proof (induction ps arbitrary: b newest oldest)
  case (Cons p ps)
  show ?case
  proof (cases "in_flight p")
    case True
    then show ?thesis
      using Cons.IH [of "b + sent_bytes p" "max_opt newest (time_sent p)" "min_opt oldest (time_sent p)"] Cons.prems
      by (auto simp add: count_lost_def flight_def max_opt_def)
  next
    case False
    then show ?thesis using Cons.IH [of b newest oldest] Cons.prems by (simp add: count_lost_def flight_def)
  qed
qed simp

lemma congestion_on_loss_keeps [simp]:
  "sent_packets (congestion_on_loss fp now totals r) = sent_packets r"
  by (simp add: congestion_on_loss_def Let_def split: prod.split option.split)

lemma congestion_on_loss_ok: "cc_ok (congestion r) \<Longrightarrow> cc_ok (congestion (congestion_on_loss fp now totals r))"
  by (simp add: congestion_on_loss_def Let_def cc_ok_ops split: prod.split option.split)

lemma congestion_on_loss_flight:
  assumes "fold count_lost ps (0, None, None) = totals"
  shows "cc_bytes_in_flight (congestion (congestion_on_loss fp now totals r)) =
    cc_bytes_in_flight (congestion r) - flights ps"
proof -
  obtain b newest oldest where t: "totals = (b, newest, oldest)" by (cases totals)
  note totals = count_lost_totals [OF assms [unfolded t]]
  show ?thesis
  proof (cases newest)
    case None
    then show ?thesis using totals by (simp add: congestion_on_loss_def t)
  next
    case (Some n)
    then show ?thesis
      using totals controller.lost_laws [of fp b n now "congestion r"]
        controller.persistent_laws [of fp "cc_on_packets_lost fp b n now (congestion r)"]
      by (simp add: congestion_on_loss_def t Let_def split: option.split)
  qed
qed

lemma take_lost_flight:
  assumes inv: "flight_inv r ns" and idx: "idx < length (sent_packets r)"
    and gone: "take_lost idx now r = (gone, r')"
  shows "list_all2 store_below (sent_packets r') ns" and "congestion r' = congestion r"
    and "flight_total (sent_packets r') + flights gone = flight_total (sent_packets r)"
proof -
  obtain t store where d: "detect_lost now (loss_delay (rtt r)) (sent_packets r ! idx) = ((gone, t), store)"
    and r': "sent_packets r' = (sent_packets r)[idx := store]" "congestion r' = congestion r"
    using gone by (auto simp add: take_lost_def split: prod.splits)
  have all: "list_all2 store_below (sent_packets r) ns" using inv by (simp add: flight_inv_def)
  then have "store_below (sent_packets r ! idx) (ns ! idx)" using idx by (simp add: list_all2_nthD)
  note d = detect_lost_flight [OF d this]
  show "congestion r' = congestion r" by (rule r')
  show "flight_total (sent_packets r') + flights gone = flight_total (sent_packets r)"
    unfolding r' by (rule flight_total_update [OF idx d(1)])
  show "list_all2 store_below (sent_packets r') ns"
    unfolding r' using all d(2) list_all2_update_cong [of store_below "sent_packets r" ns store "ns ! idx" idx] by simp
qed

lemma detect_and_handle_loss_inv:
  assumes inv: "flight_inv (recov c) (pns (spaces c))" and idx: "idx < length (sent_packets (recov c))"
  shows "flight_inv (recov (detect_and_handle_loss fp idx now c)) (pns (spaces (detect_and_handle_loss fp idx now c)))"
proof -
  obtain gone r where t: "take_lost idx now (recov c) = (gone, r)" by fastforce
  note taken = take_lost_flight [OF inv idx t]
  have bytes: "cc_bytes_in_flight (congestion r) = flight_total (sent_packets r) + flights gone"
    using taken inv by (simp add: flight_inv_def)
  show ?thesis
  proof (cases "gone = []")
    case True
    then show ?thesis using taken bytes inv by (simp add: detect_and_handle_loss_def t flight_inv_def)
  next
    case False
    then show ?thesis
      using taken(1,2) bytes congestion_on_loss_flight [OF refl, of fp now gone r] inv congestion_on_loss_ok [of r]
      by (simp add: detect_and_handle_loss_def t flight_inv_def Let_def)
  qed
qed

lemma set_timer_inv [simp]: "flight_inv (set_loss_detection_timer r) ns = flight_inv r ns"
  by (simp add: flight_inv_def set_loss_detection_timer_def split: option.split)

lemma flight_inv_fields:
  "sent_packets r' = sent_packets r \<Longrightarrow> congestion r' = congestion r \<Longrightarrow> flight_inv r' ns = flight_inv r ns"
  by (simp add: flight_inv_def)

lemma congestion_on_ack_flight:
  "cc_bytes_in_flight (congestion (congestion_on_ack fp now ps r)) = cc_bytes_in_flight (congestion r) - flights ps"
  "sent_packets (congestion_on_ack fp now ps r) = sent_packets r"
proof -
  let ?xs = "map (\<lambda>p. (sent_bytes p, time_sent p, rate_sample p)) (filter in_flight ps)"
  have "sum_list (map fst ?xs) = flights ps"
    by (induction ps) (simp_all add: flight_def)
  moreover have "?xs = [] \<Longrightarrow> flights ps = 0" by (induction ps) (auto simp add: flight_def split: if_splits)
  ultimately show "cc_bytes_in_flight (congestion (congestion_on_ack fp now ps r)) = cc_bytes_in_flight (congestion r) - flights ps"
    using controller.acked_laws [of fp ?xs now "congestion r"] by (simp add: congestion_on_ack_def Let_def)
qed (simp add: congestion_on_ack_def Let_def)

lemma congestion_on_ack_ok: "cc_ok (congestion r) \<Longrightarrow> cc_ok (congestion (congestion_on_ack fp now ps r))"
  by (simp add: congestion_on_ack_def Let_def cc_ok_ops)

lemma space_index_3: "space_index t < 3"
  by (cases t) simp_all

lemma flight_inv_length: "flight_inv r (pns s) \<Longrightarrow> length (sent_packets r) = 3"
  by (auto simp add: flight_inv_def pns_def dest: list_all2_lengthD)

lemma process_ack_inv:
  assumes inv: "flight_inv (recov c) (pns (spaces c))"
    and c': "c' = process_ack fp now t largest delay first ranges c"
  shows "flight_inv (recov c') (pns (spaces c'))"
proof -
  let ?idx = "space_index t"
  have idx: "?idx < length (sent_packets (recov c))" using flight_inv_length [OF inv] space_index_3 by simp
  obtain out store where ack: "on_ack largest first (map (\<lambda>r. (ar_gap r, ar_range r)) ranges)
      (sent_packets (recov c) ! ?idx) = (out, store)" by fastforce
  let ?stores = "(sent_packets (recov c))[?idx := store]"
  have all: "list_all2 store_below (sent_packets (recov c)) (pns (spaces c))" using inv by (simp add: flight_inv_def)
  then have "store_below (sent_packets (recov c) ! ?idx) (pns (spaces c) ! ?idx)" using idx by (simp add: list_all2_nthD)
  note a = on_ack_flight [OF ack this]
  have stores: "list_all2 store_below ?stores (pns (spaces c))"
    using all a(2) list_all2_update_cong [of store_below "sent_packets (recov c)" "pns (spaces c)" store "pns (spaces c) ! ?idx" ?idx]
    by simp
  have bytes: "cc_bytes_in_flight (congestion (recov c)) = flight_total ?stores + flights (newly_acked out)"
    using inv flight_total_update [OF idx a(1)] by (simp add: flight_inv_def)
  show ?thesis
  proof (cases "newly_acked out = []")
    case True
    then show ?thesis using stores bytes inv by (simp add: c' process_ack_def ack Let_def flight_inv_def)
  next
    case False
    define r0 where "r0 = (recov c)\<lparr>sent_packets := ?stores, rtt := sample_rtt now largest
        (decode_ack_delay (peer_params (streams c)) delay)
        (if ?idx = space_as_usize ApplicationIdx \<and> handshake_done (hs c) then peer_max_ack_delay (recov c) else 0)
        out (rtt (recov c))\<rparr>"
    define r1 where "r1 = congestion_on_ack fp now (newly_acked out) r0"
    define r2 where "r2 = (if acked_ack_eliciting out then r1\<lparr>loss := reset_pto_count (loss r1), probes_owed := 0\<rparr> else r1)"
    define c1 where "c1 = c\<lparr>spaces := space_acked t largest (spaces c), recov := r2,
        mtu := mtu_probe_acks now (newly_acked out) (mtu c)\<rparr>"
    have "flight_inv r1 (pns (spaces c))"
      using stores bytes congestion_on_ack_flight [of fp now "newly_acked out" r0] congestion_on_ack_ok [of r0] inv
      by (simp add: r1_def flight_inv_def r0_def)
    then have "flight_inv r2 (pns (spaces c))"
      using flight_inv_fields [of r2 r1] by (simp add: r2_def)
    then have c1: "flight_inv (recov c1) (pns (spaces c1))" by (simp add: c1_def)
    have "c' = (let c = detect_and_handle_loss fp ?idx now c1 in c\<lparr>recov := set_loss_detection_timer (recov c)\<rparr>)"
      using False by (simp add: c' process_ack_def ack Let_def c1_def r2_def r1_def r0_def)
    then show ?thesis
      using detect_and_handle_loss_inv [OF c1, of ?idx] flight_inv_length [OF c1] space_index_3 [of t]
      by (simp add: Let_def)
  qed
qed

lemma pto_expired_inv:
  "flight_inv (recov c) (pns (spaces c)) \<Longrightarrow> flight_inv (recov (pto_expired c)) (pns (spaces (pto_expired c)))"
  using flight_inv_fields [of "(recov c)\<lparr>loss := increase_pto_count (loss (recov c)),
      probes_owed := min (probes_owed (recov c) + 2) 4\<rparr>" "recov c"]
  by (simp add: pto_expired_def Let_def)

lemma on_loss_timeout_inv:
  assumes inv: "flight_inv (recov c) (pns (spaces c))"
  shows "flight_inv (recov (on_loss_timeout fp now c)) (pns (spaces (on_loss_timeout fp now c)))"
proof -
  have "space_as_usize sp < 3" for sp by (cases sp) simp_all
  then show ?thesis
    using detect_and_handle_loss_inv [OF inv] flight_inv_length [OF inv] pto_expired_inv [OF inv]
    by (auto simp add: on_loss_timeout_def Let_def split: option.split)
qed

lemma handle_timeout_inv:
  assumes "flight_inv (recov c) (pns (spaces c))"
  shows "flight_inv (recov (handle_timeout fp now c)) (pns (spaces (handle_timeout fp now c)))"
  using assms on_loss_timeout_inv [of "c\<lparr>timers := keep_alive_due now (timers c)\<rparr>" fp now]
  by (simp add: handle_timeout_def Let_def)

text \<open>The packet sent carries the next number of its space, so it is new to the store.\<close>

lemma take_pn_pns:
  assumes "take_pn kind s = (pn, s')"
  shows "pn = pns s ! kind_index kind" and "pns s' = (pns s)[kind_index kind := Suc pn]"
  using assms
  by (auto simp add: take_pn_def pns_def kind_index_def next_pn_def Let_def numeral_2_eq_2 split: SpaceKind.splits prod.splits)

lemma kind_index_3: "kind_index kind < 3"
  by (cases kind) (simp_all add: kind_index_def)

lemma account_packet_inv:
  assumes inv: "flight_inv (recov c) (pns (spaces c))" and pn: "take_pn kind (spaces c) = (pn, s')"
    and c': "c' = account_packet now kind pn frames eliciting n (c\<lparr>spaces := s'\<rparr>)"
  shows "flight_inv (recov c') (pns (spaces c'))"
proof -
  let ?i = "kind_index kind" and ?r = "recov c"
  define flying where "flying = (\<not> is_mtu_probe frames \<and> eliciting)"
  define cc where "cc = snd (if flying then cc_on_packet_sent n now (congestion ?r) else (None, congestion ?r))"
  have i: "?i < length (sent_packets ?r)" using flight_inv_length [OF inv] kind_index_3 by simp
  have all: "list_all2 store_below (sent_packets ?r) (pns (spaces c))" using inv by (simp add: flight_inv_def)
  then have below: "store_below (sent_packets ?r ! ?i) pn" using i take_pn_pns(1) [OF pn] by (simp add: list_all2_nthD)
  have cc: "cc_bytes_in_flight cc = cc_bytes_in_flight (congestion ?r) + (if flying then n else 0)"
    using controller.sent_laws [of n now "congestion ?r"] by (simp add: cc_def)
  have ok: "cc_ok cc" using inv cc_ok_ops(1) [of "congestion ?r" n now] by (simp add: cc_def flight_inv_def)
  have grown: "store_below s n \<Longrightarrow> store_below s (Suc n)" for s n
    by (auto simp add: store_below_def)
  have pns': "pns (spaces c') = (pns (spaces c))[?i := Suc pn]"
    using take_pn_pns(2) [OF pn] by (simp add: c' account_packet_def Let_def split: prod.split)
  have same: "list_all2 store_below (sent_packets ?r) ((pns (spaces c))[?i := Suc pn])"
    using list_all2_update_cong [OF all grown [OF below], of ?i] by simp
  show ?thesis
  proof (cases "eliciting \<or> frames \<noteq> []")
    case True
    define p where "p = \<lparr>packet_number = pn, time_sent = now, ack_eliciting = eliciting, in_flight = flying,
      sent_bytes = n, sent_frames = frames,
      rate_sample = fst (if flying then cc_on_packet_sent n now (congestion ?r) else (None, congestion ?r))\<rparr>"
    let ?store = "sp_on_packet_sent p (sent_packets ?r ! ?i)"
    have r': "sent_packets (recov c') = (sent_packets ?r)[?i := ?store]" "congestion (recov c') = cc"
      using True by (simp_all add: c' account_packet_def Let_def p_def cc_def flying_def case_prod_unfold)
    have new: "pn \<notin> fst ` set (sent (sent_packets ?r ! ?i))" using below by (auto simp add: store_below_def)
    then have sum: "bmap_sum flight (sent ?store) = bmap_sum flight (sent (sent_packets ?r ! ?i)) + flight p"
      using bmap_sum_nonmember [of "sent (sent_packets ?r ! ?i)" pn flight p] below
      by (simp add: sp_on_packet_sent_def p_def store_below_def)
    have "store_below ?store (Suc pn)"
      using below set_bmap_insert [of pn p "sent (sent_packets ?r ! ?i)"]
      by (force simp add: store_below_def sp_on_packet_sent_def p_def)
    then have "list_all2 store_below (sent_packets (recov c')) (pns (spaces c'))"
      unfolding r' pns' by (rule list_all2_update_cong [OF all])
    moreover have "flight_total ((sent_packets ?r)[?i := ?store]) = flight_total (sent_packets ?r) + flight p"
      using flight_total_update [of ?i "(sent_packets ?r)[?i := ?store]" "sent_packets ?r ! ?i" "flight p"] i sum by simp
    ultimately show ?thesis using inv cc ok by (simp add: flight_inv_def r' p_def flight_def)
  next
    case False
    then have "\<not> flying" by (simp add: flying_def)
    then have "sent_packets (recov c') = sent_packets ?r" "congestion (recov c') = congestion ?r"
      using False by (simp_all add: c' account_packet_def Let_def flying_def)
    then show ?thesis using same inv by (simp add: flight_inv_def pns')
  qed
qed

section \<open>Properties\<close>

text \<open>
  A run of a connection, seen from its recovery state: packets are sent, acknowledgements arrive and timers
  fire, in any order.  Everything else the connection does leaves the stores and the controller alone and never
  lowers a packet number (\<open>other\<close>).
\<close>

inductive recovery_step :: "'x f64_ops \<Rightarrow> ('t, 's, 'x) Connection \<Rightarrow> ('t, 's, 'x) Connection \<Rightarrow> bool" for fp where
  send: "take_pn kind (spaces c) = (pn, s') \<Longrightarrow>
    recovery_step fp c (account_packet now kind pn frames eliciting n (c\<lparr>spaces := s'\<rparr>))"
| acked: "recovery_step fp c (process_ack fp now t largest delay first ranges c)"
| timeout: "recovery_step fp c (handle_timeout fp now c)"
| other: "sent_packets (recov c') = sent_packets (recov c) \<Longrightarrow> congestion (recov c') = congestion (recov c) \<Longrightarrow>
    list_all2 (\<le>) (pns (spaces c)) (pns (spaces c')) \<Longrightarrow> recovery_step fp c c'"

lemma store_below_mono: "store_below s n \<Longrightarrow> n \<le> n' \<Longrightarrow> store_below s n'"
  by (auto simp add: store_below_def)

lemma recovery_step_inv:
  assumes "recovery_step fp c c'" and "flight_inv (recov c) (pns (spaces c))"
  shows "flight_inv (recov c') (pns (spaces c'))"
  using assms
proof cases
  case other
  have "list_all2 store_below (sent_packets (recov c)) (pns (spaces c'))"
    using list_all2_trans [OF store_below_mono] assms(2) other(3) by (auto simp add: flight_inv_def)
  then show ?thesis using assms(2) other by (simp add: flight_inv_def)
qed (auto intro: account_packet_inv process_ack_inv handle_timeout_inv)

lemma new_inner_flight: "flight_inv (recov (new_inner fp hmac r t params secret now algo))
    (pns (spaces (new_inner fp hmac r t params secret now algo)))"
  by (simp add: new_inner_def Let_def flight_inv_def pns_def PacketSpace_new_def store_below_def SentPackets_new_def
      flight_total_def bmap_sum_def from_config_inv cc_ok_def numeral_3_eq_3)

text \<open>
  C5.  The bytes in flight of a connection are exact.  Whatever is sent, acknowledged, declared lost or
  probed, in whatever order and in all three packet-number spaces, the congestion controller counts
  exactly the bytes of the in-flight packets still outstanding; and a connection with nothing in flight may
  always send a full datagram, so it cannot stall on a count that was never released.
\<close>

theorem bytes_in_flight_exact:
  assumes "(recovery_step fp)\<^sup>*\<^sup>* (new_inner fp hmac r t params secret now algo) c"
  shows "cc_bytes_in_flight (congestion (recov c)) = flight_total (sent_packets (recov c))
    \<and> (flight_total (sent_packets (recov c)) = 0 \<longrightarrow> cc_can_send MAX_DATAGRAM_SIZE (congestion (recov c)))"
proof -
  from assms have inv: "flight_inv (recov c) (pns (spaces c))"
    by (induction rule: rtranclp_induct) (auto intro: new_inner_flight recovery_step_inv)
  then have "minimum_window MAX_DATAGRAM_SIZE \<le> cc_congestion_window (congestion (recov c))"
    using controller.invar_window [of "congestion (recov c)"] by (simp add: flight_inv_def cc_ok_def)
  then show ?thesis using inv by (simp add: flight_inv_def cc_can_send_iff minimum_window_def)
qed

text \<open>A client with NewReno, which computes without floating point, sends a first Initial packet of 1200 bytes.\<close>

definition demo_fp :: "nat f64_ops" where
  "demo_fp = \<lparr>f_add = (+), f_sub = (-), f_mul = (*), f_div = (div), f_min = min, f_max = max, f_le = (\<le>),
     f_lt = (<), f_cbrt = (\<lambda>x. x), f_lit = (\<lambda>n k. n div 10 ^ k), f_infinity = 2 ^ 64, f_is_finite = (\<lambda>x. x < 2 ^ 64),
     f_of_nat = (\<lambda>n. n), f_to_u64 = (\<lambda>x. x), as_secs_f64 = (\<lambda>d. d div 10 ^ 9)\<rparr>"

definition demo_params :: ConnectionParams where
  "demo_params = \<lparr>cp_local_cid = [1], cp_peer_cid = [2], cp_initial_dcid = [2], cp_peer_addr = demo_addr 7,
     cp_local_params = TransportParams_default, cp_mtu_config = MtuConfig_default, cp_datagram_recv_buffer_size = 0\<rparr>"

definition demo_conn :: "(unit, unit, nat) Connection" where
  "demo_conn = new_inner demo_fp (\<lambda>_ _. []) ClientRole () demo_params None 0 NewRenoAlgo"

definition demo_sent :: "(unit, unit, nat) Connection" where
  "demo_sent = account_packet 5 InitialSpace 0 [SF_Ping] True 1200
     (demo_conn\<lparr>spaces := snd (take_pn InitialSpace (spaces demo_conn))\<rparr>)"

lemma demo_sent_step: "recovery_step demo_fp demo_conn demo_sent"
  unfolding demo_sent_def
  by (rule recovery_step.send)
    (simp add: take_pn_def next_pn_def demo_conn_def new_inner_def Let_def PacketSpace_new_def)

lemma demo_sent_flight: "flight_total (sent_packets (recov demo_sent)) = 1200"
  by (simp add: demo_sent_def account_packet_def demo_conn_def new_inner_def Let_def is_mtu_probe_def kind_index_def
      flight_total_def sp_on_packet_sent_def SentPackets_new_def bmap_sum_def flight_def numeral_3_eq_3
      case_prod_unfold)

theorem bytes_in_flight_exact_witness:
  "(recovery_step demo_fp)\<^sup>*\<^sup>* (new_inner demo_fp (\<lambda>_ _. []) ClientRole () demo_params None 0 NewRenoAlgo) demo_sent
   \<and> cc_bytes_in_flight (congestion (recov demo_sent)) = 1200"
proof -
  have run: "(recovery_step demo_fp)\<^sup>*\<^sup>* (new_inner demo_fp (\<lambda>_ _. []) ClientRole () demo_params None 0 NewRenoAlgo) demo_sent"
    using demo_sent_step by (simp add: demo_conn_def r_into_rtranclp)
  show ?thesis using run bytes_in_flight_exact [OF run] demo_sent_flight by simp
qed

section \<open>Retry\<close>

text \<open>
  A Retry resets the packet numbers of the Initial space but not its store.  The next Initial packet takes number 0
  again and replaces the record of the first one, whose bytes are never released.
\<close>

lemma retry_leaks_bytes_in_flight:
  assumes inv: "flight_inv (recov c) (pns (spaces c))"
    and first: "bmap_get 0 (sent (sent_packets (recov c) ! 0)) = Some p" "in_flight p"
    and c1: "c1 = rekey_initial_for_retry ops dcid token c"
    and pn: "take_pn InitialSpace (spaces c1) = (pn, s')"
    and c2: "c2 = account_packet now InitialSpace pn [SF_Crypto off data] True n (c1\<lparr>spaces := s'\<rparr>)"
  shows "cc_bytes_in_flight (congestion (recov c2)) = flight_total (sent_packets (recov c2)) + sent_bytes p"
proof -
  let ?r = "recov c" and ?store = "sent_packets (recov c) ! 0"
  have pn0: "pn = 0" and r1: "recov c1 = ?r"
    using pn by (auto simp add: c1 rekey_initial_for_retry_def Let_def install_initial_keys_def take_pn_def next_pn_def
        set_keys_def PacketSpace_new_def)
  define q where "q = \<lparr>packet_number = 0, time_sent = now, ack_eliciting = True, in_flight = True, sent_bytes = n,
    sent_frames = [SF_Crypto off data], rate_sample = fst (cc_on_packet_sent n now (congestion ?r))\<rparr>"
  have r2: "sent_packets (recov c2) = (sent_packets ?r)[0 := sp_on_packet_sent q ?store]"
    "congestion (recov c2) = snd (cc_on_packet_sent n now (congestion ?r))"
    by (simp_all add: c2 account_packet_def Let_def r1 pn0 is_mtu_probe_def kind_index_def q_def case_prod_unfold)
  have i: "0 < length (sent_packets ?r)" using flight_inv_length [OF inv] by simp
  then have ok: "bmap_ok (sent ?store)"
    using inv list_all2_nthD [of store_below "sent_packets ?r" "pns (spaces c)" 0]
    by (auto simp add: flight_inv_def store_below_def)
  have "bmap_sum flight (bmap_insert 0 q (sent ?store)) + sent_bytes p = bmap_sum flight (sent ?store) + n"
    using bmap_sum_insert [OF ok, of flight 0 q] first by (simp add: flight_def q_def)
  then have "flight_total (sent_packets (recov c2)) + sent_bytes p = flight_total (sent_packets ?r) + n"
    using i unfolding r2 by (cases "sent_packets ?r") (auto simp add: flight_total_def sp_on_packet_sent_def q_def)
  then show ?thesis
    using inv controller.sent_laws [of n now "congestion ?r"] by (simp add: flight_inv_def r2)
qed

end
