(* ===== verification/Conn_Send.thy ===== *)
theory Conn_Send
  imports Conn_Recovery
begin

text \<open>
  \<^verbatim>\<open>oxiquic-transport/src/connection/send.rs\<close>: what a connection puts into its packets, and the
  datagrams it emits.  The stream, reset and flow-control writers are those of \<open>Conn_Streams\<close>; the
  packets are built by \<open>Packets\<close>.
\<close>

section \<open>Readiness\<close>

definition handshake_done_to_send :: "('t, 's, 'x) Connection \<Rightarrow> bool" where
  "handshake_done_to_send c \<longleftrightarrow>
     role (streams c) = ServerRole \<and> handshake_complete (hs c) \<and> \<not> handshake_done (hs c)"

text \<open>The pending output other than stream data that \<open>space_has_output\<close> and \<open>app_space_may_send\<close> both list.\<close>

definition control_output :: "('t, 's, 'x) Connection \<Rightarrow> bool" where
  "control_output c \<longleftrightarrow>
     sp_ack_pending (application (spaces c)) \<or> handshake_done_to_send c
     \<or> probes_owed (recov c) > 0 \<or> pending_keep_alive_ping (timers c) \<or> pending_mtu_probe (mtu c)
     \<or> pending_max_data (streams c) \<noteq> None \<or> pending_max_stream_data (streams c) \<noteq> []
     \<or> pending_data_blocked (streams c) \<noteq> None \<or> pending_stream_data_blocked (streams c) \<noteq> []
     \<or> pending_reset_streams (streams c) \<noteq> [] \<or> pending_stop_sending (streams c) \<noteq> []
     \<or> key_update_pending (key_upd c)
     \<or> pending_path_response (migration c) \<noteq> None \<or> pending_path_challenge_send (migration c)
     \<or> has_pending_new (local_cid_pool (cids c)) \<or> has_pending_retire (peer_cid_pool (cids c))
     \<or> pending_max_streams_bidi (streams c) \<noteq> None \<or> pending_max_streams_uni (streams c) \<noteq> None
     \<or> pending_streams_blocked_bidi (streams c) \<noteq> None \<or> pending_streams_blocked_uni (streams c) \<noteq> None
     \<or> pending_new_token (cids c) \<noteq> None \<or> datagram_send_queue (dgrams c) \<noteq> []"

definition space_has_output :: "SpaceKind \<Rightarrow> ('t, 's, 'x) Connection \<Rightarrow> bool" where
  "space_has_output kind c =
     (case kind of
        InitialSpace \<Rightarrow> has_send_data (initial_crypto (spaces c)) \<or> sp_ack_pending (initial (spaces c))
      | HandshakeSpace \<Rightarrow> has_send_data (handshake_crypto (spaces c)) \<or> sp_ack_pending (handshake (spaces c))
      | ApplicationSpace \<Rightarrow> control_output c \<or> has_pending_stream_data (streams c))"

definition app_space_may_send :: "('t, 's, 'x) Connection \<Rightarrow> bool" where
  "app_space_may_send c \<longleftrightarrow>
     space_has_output ApplicationSpace c
     \<and> (control_output c \<or> cc_can_send MAX_DATAGRAM_SIZE (congestion (recov c)))"

section \<open>Payloads\<close>

text \<open>The payload built so far, the retransmittable frames placed and whether it elicits an ACK.\<close>

record Fill =
  fl_payload :: bytes
  fl_frames :: "SentFrame list"
  fl_eliciting :: bool

type_synonym ('t, 's, 'x) stage = "Fill \<times> ('t, 's, 'x) Connection \<Rightarrow> Fill \<times> ('t, 's, 'x) Connection"

definition put :: "Frame \<Rightarrow> SentFrame list \<Rightarrow> Fill \<Rightarrow> Fill" where
  "put f record b =
     \<lparr>fl_payload = fl_payload b @ encode f, fl_frames = fl_frames b @ record, fl_eliciting = True\<rparr>"

definition room :: "nat \<Rightarrow> Fill \<Rightarrow> nat" where
  "room budget b = budget - length (fl_payload b)"

definition space_ack :: "SpaceKind \<Rightarrow> Spaces \<Rightarrow> Frame option \<times> Spaces" where
  "space_ack kind s =
     (case kind of
        InitialSpace \<Rightarrow> let (f, sp) = build_ack 0 (initial s) in (f, s\<lparr>initial := sp\<rparr>)
      | HandshakeSpace \<Rightarrow> let (f, sp) = build_ack 0 (handshake s) in (f, s\<lparr>handshake := sp\<rparr>)
      | ApplicationSpace \<Rightarrow> let (f, sp) = build_ack 0 (application s) in (f, s\<lparr>application := sp\<rparr>))"

definition fill_ack :: "SpaceKind \<Rightarrow> ('t, 's, 'x) stage" where
  "fill_ack kind st =
     (case st of (b, c) \<Rightarrow>
        let (ack, sp) = space_ack kind (spaces c)
        in ((case ack of Some f \<Rightarrow> b\<lparr>fl_payload := fl_payload b @ encode f\<rparr> | None \<Rightarrow> b), c\<lparr>spaces := sp\<rparr>))"

definition space_crypto :: "SpaceKind \<Rightarrow> nat \<Rightarrow> Spaces \<Rightarrow> (u64 \<times> bytes) option \<times> Spaces" where
  "space_crypto kind avail s =
     (case kind of
        InitialSpace \<Rightarrow> let (r, cs) = take_send avail (initial_crypto s) in (r, s\<lparr>initial_crypto := cs\<rparr>)
      | HandshakeSpace \<Rightarrow> let (r, cs) = take_send avail (handshake_crypto s) in (r, s\<lparr>handshake_crypto := cs\<rparr>)
      | ApplicationSpace \<Rightarrow> (None, s))"

definition fill_crypto :: "SpaceKind \<Rightarrow> nat \<Rightarrow> ('t, 's, 'x) stage" where
  "fill_crypto kind budget st =
     (case st of (b, c) \<Rightarrow>
        let (r, sp) = space_crypto kind (room budget b - 16) (spaces c); c = c\<lparr>spaces := sp\<rparr>
        in case r of
             Some (offset, data) \<Rightarrow> (put (Crypto offset data) [SF_Crypto offset data] b, c)
           | None \<Rightarrow> (b, c))"

definition fill_path_response :: "nat \<Rightarrow> ('t, 's, 'x) stage" where
  "fill_path_response budget st =
     (case st of (b, c) \<Rightarrow>
        (case pending_path_response (migration c) of
           Some data \<Rightarrow>
             if room budget b \<ge> 9
             then (put (PathResponse data) [] b, c\<lparr>migration := (migration c)\<lparr>pending_path_response := None\<rparr>\<rparr>)
             else (b, c)
         | None \<Rightarrow> (b, c)))"

definition fill_path_challenge :: "nat \<Rightarrow> ('t, 's, 'x) stage" where
  "fill_path_challenge budget st =
     (case st of (b, c) \<Rightarrow>
        if pending_path_challenge_send (migration c)
        then (case pending_path_challenge (migration c) of
                Some data \<Rightarrow>
                  if room budget b \<ge> 9
                  then (put (PathChallenge data) [] b,
                        c\<lparr>migration := (migration c)\<lparr>pending_path_challenge_send := False\<rparr>\<rparr>)
                  else (b, c)
              | None \<Rightarrow> (b, c))
        else (b, c))"

definition fill_handshake_done :: "('t, 's, 'x) stage" where
  "fill_handshake_done st =
     (case st of (b, c) \<Rightarrow>
        if handshake_done_to_send c
        then (put HandshakeDone [] b, c\<lparr>hs := (hs c)\<lparr>handshake_done := True\<rparr>\<rparr>) else (b, c))"

text \<open>The writers of \<open>Conn_Streams\<close> whose frames are not recorded.\<close>

definition fill_unrecorded ::
    "(bytes \<Rightarrow> nat \<Rightarrow> ConnStreams \<Rightarrow> bool \<times> bytes \<times> ConnStreams) \<Rightarrow> nat \<Rightarrow> ('t, 's, 'x) stage" where
  "fill_unrecorded writer budget st =
     (case st of (b, c) \<Rightarrow>
        let (placed, bs, s) = writer (fl_payload b) budget (streams c)
        in (b\<lparr>fl_payload := bs, fl_eliciting := fl_eliciting b \<or> placed\<rparr>, c\<lparr>streams := s\<rparr>))"

fun fill_new_cids :: "nat \<Rightarrow> IssuedCid list \<Rightarrow> Fill \<Rightarrow> Fill \<times> IssuedCid list" where
  "fill_new_cids budget [] b = (b, [])"
| "fill_new_cids budget (i # is) b =
     (if room budget b < 1 + 8 + 8 + 1 + length (ic_cid i) + 16 then (b, i # is)
      else fill_new_cids budget is
             (put (NewConnectionId (ic_seq i) 0 (ic_cid i) (ic_token i))
                [SF_NewConnectionId (ic_seq i) 0 (ic_cid i) (ic_token i)] b))"

fun fill_retirements :: "nat \<Rightarrow> u64 list \<Rightarrow> Fill \<Rightarrow> Fill \<times> u64 list" where
  "fill_retirements budget [] b = (b, [])"
| "fill_retirements budget (sq # sqs) b =
     (if room budget b < 9 then (b, sq # sqs)
      else fill_retirements budget sqs (put (RetireConnectionId sq) [SF_RetireConnectionId sq] b))"

definition fill_cids :: "nat \<Rightarrow> ('t, 's, 'x) stage" where
  "fill_cids budget st =
     (case st of (b, c) \<Rightarrow>
        let (b, news) = fill_new_cids budget (lp_pending_new (local_cid_pool (cids c))) b;
            (b, olds) = fill_retirements budget (pp_pending_retire (peer_cid_pool (cids c))) b
        in (b, c\<lparr>cids := (cids c)\<lparr>local_cid_pool := (local_cid_pool (cids c))\<lparr>lp_pending_new := news\<rparr>,
                    peer_cid_pool := (peer_cid_pool (cids c))\<lparr>pp_pending_retire := olds\<rparr>\<rparr>\<rparr>))"

text \<open>One pending limit: it is written when 16 bytes are left and stays pending otherwise.\<close>

definition fill_limit ::
    "nat \<Rightarrow> u64 option \<Rightarrow> (u64 \<Rightarrow> Frame) \<Rightarrow> (u64 \<Rightarrow> SentFrame) \<Rightarrow> Fill \<Rightarrow> Fill \<times> u64 option \<times> u64 option" where
  "fill_limit budget pending frame record b =
     (case pending of
        Some m \<Rightarrow> if room budget b \<ge> 16 then (put (frame m) [record m] b, None, Some m) else (b, pending, None)
      | None \<Rightarrow> (b, None, None))"

definition fill_stream_limits :: "nat \<Rightarrow> ('t, 's, 'x) stage" where
  "fill_stream_limits budget st =
     (case st of (b, c) \<Rightarrow>
        let s = streams c;
            (b, p, w) = fill_limit budget (pending_max_streams_bidi s) (MaxStreams Bidirectional)
                          (SF_MaxStreams Bidirectional) b;
            s = s\<lparr>pending_max_streams_bidi := p,
                  sent_max_streams_bidi := (case w of Some m \<Rightarrow> m | None \<Rightarrow> sent_max_streams_bidi s)\<rparr>;
            (b, p, w) = fill_limit budget (pending_max_streams_uni s) (MaxStreams Unidirectional)
                          (SF_MaxStreams Unidirectional) b;
            s = s\<lparr>pending_max_streams_uni := p,
                  sent_max_streams_uni := (case w of Some m \<Rightarrow> m | None \<Rightarrow> sent_max_streams_uni s)\<rparr>;
            (b, p, _) = fill_limit budget (pending_streams_blocked_bidi s) (StreamsBlocked Bidirectional)
                          (SF_StreamsBlocked Bidirectional) b;
            s = s\<lparr>pending_streams_blocked_bidi := p\<rparr>;
            (b, p, _) = fill_limit budget (pending_streams_blocked_uni s) (StreamsBlocked Unidirectional)
                          (SF_StreamsBlocked Unidirectional) b;
            s = s\<lparr>pending_streams_blocked_uni := p\<rparr>
        in (b, c\<lparr>streams := s\<rparr>))"

definition fill_new_token :: "nat \<Rightarrow> ('t, 's, 'x) stage" where
  "fill_new_token budget st =
     (case st of (b, c) \<Rightarrow>
        if role (streams c) = ServerRole
        then (case pending_new_token (cids c) of
                Some token \<Rightarrow>
                  if room budget b \<ge> 1 + varint_size (length token) + length token
                  then (put (NewToken token) [SF_NewToken token] b, c\<lparr>cids := (cids c)\<lparr>pending_new_token := None\<rparr>\<rparr>)
                  else (b, c)
              | None \<Rightarrow> (b, c))
        else (b, c))"

fun fill_datagrams :: "nat \<Rightarrow> bytes list \<Rightarrow> Fill \<Rightarrow> Fill \<times> bytes list" where
  "fill_datagrams budget [] b = (b, [])"
| "fill_datagrams budget (d # ds) b =
     (if room budget b < 1 + varint_size (length d) + length d then (b, d # ds)
      else fill_datagrams budget ds (put (Datagram d) [] b))"

definition fill_dgrams :: "nat \<Rightarrow> ('t, 's, 'x) stage" where
  "fill_dgrams budget st =
     (case st of (b, c) \<Rightarrow>
        let (b, q) = fill_datagrams budget (datagram_send_queue (dgrams c)) b
        in (b, c\<lparr>dgrams := (dgrams c)\<lparr>datagram_send_queue := q\<rparr>\<rparr>))"

definition fill_streams :: "nat \<Rightarrow> ('t, 's, 'x) stage" where
  "fill_streams budget st =
     (case st of (b, c) \<Rightarrow>
        let (placed, bs, s) = fill_stream_frames (fl_payload b) budget (streams c)
        in (\<lparr>fl_payload = bs, fl_frames = fl_frames b @ placed, fl_eliciting = (fl_eliciting b \<or> placed \<noteq> [])\<rparr>,
            c\<lparr>streams := s\<rparr>))"

definition fill_application :: "nat \<Rightarrow> ('t, 's, 'x) stage" where
  "fill_application budget st =
     (let st = fill_path_response budget st;
          st = fill_path_challenge budget st;
          st = fill_handshake_done st;
          st = fill_unrecorded fill_flow_control_frames budget st;
          st = fill_unrecorded fill_reset_stream_frames budget st;
          st = fill_unrecorded fill_stop_sending_frames budget st;
          st = fill_cids budget st;
          st = fill_stream_limits budget st;
          st = fill_new_token budget st;
          st = fill_dgrams budget st
      in fill_streams budget st)"

text \<open>The PINGs at the end: a probe owed, a keep-alive, and the carrier of a key update.\<close>

definition fill_probe_ping :: "('t, 's, 'x) stage" where
  "fill_probe_ping st =
     (case st of (b, c) \<Rightarrow>
        if probes_owed (recov c) > 0
        then (if fl_eliciting b then b else put Ping [SF_Ping] b,
              c\<lparr>recov := (recov c)\<lparr>probes_owed := probes_owed (recov c) - 1\<rparr>\<rparr>)
        else (b, c))"

definition fill_keep_alive :: "SpaceKind \<Rightarrow> ('t, 's, 'x) stage" where
  "fill_keep_alive kind st =
     (case st of (b, c) \<Rightarrow>
        if kind = ApplicationSpace \<and> pending_keep_alive_ping (timers c)
        then (put Ping [SF_Ping] b, c\<lparr>timers := (timers c)\<lparr>pending_keep_alive_ping := False\<rparr>\<rparr>)
        else (b, c))"

definition fill_key_update_ping :: "SpaceKind \<Rightarrow> ('t, 's, 'x) stage" where
  "fill_key_update_ping kind st =
     (case st of (b, c) \<Rightarrow>
        if kind = ApplicationSpace \<and> key_update_pending (key_upd c) \<and> \<not> fl_eliciting b
        then (put Ping [SF_Ping] b, c) else (b, c))"

text \<open>An MTU probe is a packet of its own: PING and padding up to the size probed.\<close>

definition fill_mtu_probe :: "nat \<Rightarrow> Fill \<Rightarrow> Fill" where
  "fill_mtu_probe probe_size b =
     (let b = put Ping [SF_MtuProbe probe_size] b
      in b\<lparr>fl_payload := fl_payload b
             @ replicate (probe_plaintext_len probe_size (length (fl_payload b)) - length (fl_payload b)) 0\<rparr>)"

definition fill_payload :: "SpaceKind \<Rightarrow> nat \<Rightarrow> ('t, 's, 'x) Connection \<Rightarrow> Fill \<times> ('t, 's, 'x) Connection" where
  "fill_payload kind budget c =
     (let (b, c) = fill_crypto kind budget
                     (fill_ack kind (\<lparr>fl_payload = [], fl_frames = [], fl_eliciting = False\<rparr>, c));
          (m, probe) = (if kind = ApplicationSpace then take_mtu_probe (mtu c) else (mtu c, None));
          c = c\<lparr>mtu := m\<rparr>
      in case probe of
           Some probe_size \<Rightarrow> (fill_mtu_probe probe_size b, c)
         | None \<Rightarrow>
             let st = (if kind = ApplicationSpace then fill_application budget (b, c) else (b, c))
             in fill_key_update_ping kind (fill_keep_alive kind (fill_probe_ping st)))"

section \<open>Packets\<close>

definition space_of :: "SpaceKind \<Rightarrow> Spaces \<Rightarrow> space" where
  "space_of kind s =
     (case kind of InitialSpace \<Rightarrow> initial s | HandshakeSpace \<Rightarrow> handshake s | ApplicationSpace \<Rightarrow> application s)"

definition space_budget :: "SpaceKind \<Rightarrow> MtuState \<Rightarrow> nat" where
  "space_budget kind m = (if kind = ApplicationSpace then app_budget m else MAX_DATAGRAM)"

text \<open>
  The packet itself: \<open>None\<close> without keys.  Otherwise the extended datagram, in which a failing builder leaves
  its header behind, and whether it was built.
\<close>

definition build_packet ::
    "SpaceKind \<Rightarrow> u64 \<Rightarrow> bytes \<Rightarrow> bytes \<Rightarrow> ('t, 's, 'x) Connection \<Rightarrow> (bytes \<times> bool) option" where
  "build_packet kind pn payload out c =
     (case local_keys (space_of kind (spaces c)) of
        None \<Rightarrow> None
      | Some ks \<Rightarrow>
          let largest = sp_largest_acked (space_of kind (spaces c));
              (out', r) =
                (if kind = ApplicationSpace
                 then build_short_packet out
                        \<lparr>bs_dcid = peer_cid (cids c), bs_packet_number = pn, bs_largest_acked = largest,
                         bs_key_phase = key_phase (key_upd c)\<rparr> payload (dk_packet ks) (dk_header ks)
                 else build_long_packet out
                        \<lparr>bl_long_type = (if kind = InitialSpace then LongInitial else LongHandshake),
                         bl_version = QUIC_V1, bl_dcid = peer_cid (cids c), bl_scid = local_cid (cids c),
                         bl_token = (if kind = InitialSpace
                                     then (case retry_token (retry c) of Some tk \<Rightarrow> tk | None \<Rightarrow> []) else []),
                         bl_packet_number = pn, bl_largest_acked = largest\<rparr>
                        payload (dk_packet ks) (dk_header ks))
          in Some (out', is_ok r))"

definition before_short_packet ::
    "('t, 's) tls_ops \<Rightarrow> instant \<Rightarrow> ('t, 's, 'x) Connection \<Rightarrow> ('t, 's, 'x) Connection" where
  "before_short_packet ops now c =
     (let c = (if key_update_pending (key_upd c) then initiate_key_update_now ops now c else c)
      in c\<lparr>key_upd := (key_upd c)\<lparr>key_update_received := False\<rparr>\<rparr>)"

text \<open>\<open>short\<close> is set exactly for the Application space, as its callers do.\<close>

definition write_space_packet ::
    "('t, 's) tls_ops \<Rightarrow> instant \<Rightarrow> SpaceKind \<Rightarrow> bytes \<Rightarrow> ('t, 's, 'x) Connection
      \<Rightarrow> bool \<times> bytes \<times> ('t, 's, 'x) Connection" where
  "write_space_packet ops now kind out c =
     (let left = space_budget kind (mtu c) - length out in
      if left < 64 then (False, out, c)
      else
        let (b, c) = fill_payload kind left c in
        if fl_payload b = [] then (False, out, c)
        else
          let c = (if kind = ApplicationSpace then before_short_packet ops now c else c);
              (pn, sp) = take_pn kind (spaces c);
              c = c\<lparr>spaces := sp\<rparr>
          in case build_packet kind pn (fl_payload b) out c of
               None \<Rightarrow> (False, out, c)
             | Some (out', built) \<Rightarrow>
                 if built
                 then (True, out',
                       account_packet now kind pn (fl_frames b) (fl_eliciting b) (length out' - length out) c)
                 else (False, out', c))"

definition early_payload :: "(StreamId \<times> bytes \<times> bool) list \<Rightarrow> bytes" where
  "early_payload buf = concat (map (\<lambda>(sid, data, fin). encode (Stream sid 0 fin data)) buf)"

definition write_zero_rtt_packet ::
    "bytes \<Rightarrow> ('t, 's, 'x) Connection \<Rightarrow> bool \<times> bytes \<times> ('t, 's, 'x) Connection" where
  "write_zero_rtt_packet out c =
     (if role (streams c) \<noteq> ClientRole \<or> one_rtt_ready (hs c) \<or> early_data_buf (early c) = []
         \<or> zero_rtt_sent (early c)
      then (False, out, c)
      else case zero_rtt_keys (early c) of
        None \<Rightarrow> (False, out, c)
      | Some ks \<Rightarrow>
          let payload = early_payload (early_data_buf (early c)) in
          if payload = [] then (False, out, c)
          else
            let (pn, sp) = take_pn ApplicationSpace (spaces c);
                c = c\<lparr>spaces := sp\<rparr>;
                (out', r) = build_long_packet out
                  \<lparr>bl_long_type = LongZeroRtt, bl_version = QUIC_V1, bl_dcid = peer_cid (cids c),
                   bl_scid = local_cid (cids c), bl_token = [], bl_packet_number = pn,
                   bl_largest_acked = sp_largest_acked (application (spaces c))\<rparr>
                  payload (dk_packet ks) (dk_header ks)
            in if is_ok r
               then (True, out',
                     c\<lparr>counters := (counters c)\<lparr>packets_sent := packets_sent (counters c) + 1,
                         bytes_sent := bytes_sent (counters c) + (length out' - length out)\<rparr>,
                       early := (early c)\<lparr>zero_rtt_sent := True\<rparr>\<rparr>)
               else (False, out', c))"

definition close_frame :: "Lifecycle \<Rightarrow> Frame option \<times> Lifecycle" where
  "close_frame l =
     (case pending_transport_close l of
        Some (code, reason) \<Rightarrow>
          (Some (ConnectionClose (error_to_u64 code) (Some 0) False reason), l\<lparr>pending_transport_close := None\<rparr>)
      | None \<Rightarrow>
          (case pending_close l of
             Some (code, reason) \<Rightarrow> (Some (ConnectionClose code None True reason), l\<lparr>pending_close := None\<rparr>)
           | None \<Rightarrow> (None, l)))"

definition close_kind :: "HandshakeState \<Rightarrow> SpaceKind" where
  "close_kind h =
     (if one_rtt_ready h then ApplicationSpace
      else if handshake_keys_ready h then HandshakeSpace else InitialSpace)"

text \<open>A close carries no Retry token, unlike the other Initial packets.\<close>

definition emit_close ::
    "bytes \<Rightarrow> ('t, 's, 'x) Connection \<Rightarrow> SocketAddr option \<times> bytes \<times> ('t, 's, 'x) Connection" where
  "emit_close out c =
     (let (frame, l) = close_frame (life c); c = c\<lparr>life := l\<rparr> in
      case frame of
        None \<Rightarrow> (None, out, c)
      | Some f \<Rightarrow>
          let kind = close_kind (hs c);
              (pn, sp) = take_pn kind (spaces c);
              c = c\<lparr>spaces := sp\<rparr>
          in case build_packet kind pn (encode f) out (c\<lparr>retry := (retry c)\<lparr>retry_token := None\<rparr>\<rparr>) of
               None \<Rightarrow> (None, out, c)
             | Some (out', built) \<Rightarrow> (if built then Some (peer_addr (migration c)) else None, out', c))"

section \<open>Datagrams\<close>

text \<open>The Initial, Handshake, 0-RTT and Application packets of one datagram, and whether any and an Initial one
  were written.\<close>

definition write_packets ::
    "('t, 's) tls_ops \<Rightarrow> instant \<Rightarrow> bytes \<Rightarrow> ('t, 's, 'x) Connection \<Rightarrow> bool \<times> bool \<times> bytes \<times> ('t, 's, 'x) Connection" where
  "write_packets ops now out c =
     (let (wrote_initial, out, c) =
            (if has_keys (initial (spaces c)) \<and> space_has_output InitialSpace c
             then write_space_packet ops now InitialSpace out c else (False, out, c));
          (w, out, c) =
            (if handshake_keys_ready (hs c) \<and> space_has_output HandshakeSpace c
             then write_space_packet ops now HandshakeSpace out c else (False, out, c));
          wrote = (wrote_initial \<or> w);
          (w, out, c) =
            (if wrote_initial \<and> \<not> one_rtt_ready (hs c) then write_zero_rtt_packet out c else (False, out, c));
          wrote = (wrote \<or> w);
          (w, out, c) =
            (if \<not> wrote_initial \<and> one_rtt_ready (hs c) \<and> app_space_may_send c
             then write_space_packet ops now ApplicationSpace out c else (False, out, c))
      in (wrote \<or> w, wrote_initial, out, c))"

definition pad_initial :: "Role \<Rightarrow> bool \<Rightarrow> bytes \<Rightarrow> bytes" where
  "pad_initial r wrote_initial packet =
     (if r = ClientRole \<and> wrote_initial
      then packet @ replicate (MIN_INITIAL_DATAGRAM - length packet) 0 else packet)"

text \<open>
  \<open>poll_transmit\<close> after it has driven the handshake; \<open>out\<close> is empty, as every caller passes it.
\<close>

definition transmit_data ::
    "('t, 's) tls_ops \<Rightarrow> instant \<Rightarrow> bytes \<Rightarrow> ('t, 's, 'x) Connection \<Rightarrow> SocketAddr option \<times> bytes \<times> ('t, 's, 'x) Connection" where
  "transmit_data ops now out c =
     (let c = c\<lparr>streams := advance_recv_flow (streams c)\<rparr>;
          start = length out;
          (wrote, wrote_initial, out, c) = write_packets ops now out c
      in if \<not> wrote then (None, take start out, c)
         else (Some (peer_addr (migration c)),
               take start out @ pad_initial (role (streams c)) wrote_initial (drop start out),
               c\<lparr>timers := arm_idle_timer now (timers c), recov := set_loss_detection_timer (recov c)\<rparr>))"

definition transmit ::
    "('t, 's) tls_ops \<Rightarrow> instant \<Rightarrow> ('t, 's, 'x) Connection \<Rightarrow> SocketAddr option \<times> bytes \<times> ('t, 's, 'x) Connection" where
  "transmit ops now c =
     (if state (life c) = Closed then (None, [], c)
      else if pending_transport_close (life c) \<noteq> None \<or> pending_close (life c) \<noteq> None
      then (case emit_close [] c of
              (Some addr, out, c) \<Rightarrow> (Some addr, out, c\<lparr>life := (life c)\<lparr>state := Closed\<rparr>\<rparr>)
            | (None, out, c) \<Rightarrow> transmit_data ops now out c)
      else transmit_data ops now [] c)"

definition poll_transmit ::
    "(bytes \<Rightarrow> bytes \<Rightarrow> bytes) \<Rightarrow> ('t, 's) tls_ops \<Rightarrow> (nat \<Rightarrow> bytes option) \<Rightarrow> instant \<Rightarrow> instant \<Rightarrow> ('t, 's, 'x) Connection
      \<Rightarrow> (SocketAddr option \<times> bytes \<times> ('t, 's, 'x) Connection) option" where
  "poll_transmit hmac ops rng wall now c = map_option (transmit ops now) (pump_write_hs hmac ops rng wall c)"

end
