(* ===== verification/Conn_Recv.thy ===== *)
theory Conn_Recv
  imports Conn_Send
begin

text \<open>
  \<^verbatim>\<open>oxiquic-transport/src/connection/recv.rs\<close>: frames, packets and datagrams on their way in.

  \<open>process_frames\<close> carries as fuel the bytes left of the payload; every frame takes at least one, so the fuel is
  never used up (\<open>process_loop_fuel\<close>).  A parser leaves the datagram as it was: the bytes of a packet it decrypts
  in place are not read again.
\<close>

section \<open>Frames\<close>

text \<open>
  \<^verbatim>\<open>String::from_utf8_lossy\<close>: every maximal part of the input that starts no valid UTF-8 sequence becomes the
  replacement character.  A string is the list of its UTF-8 bytes.
\<close>

definition continuation :: "u8 \<Rightarrow> bool" where
  "continuation b \<longleftrightarrow> b AND 0xc0 = 0x80"

definition second_ok :: "u8 \<Rightarrow> u8 \<Rightarrow> bool" where
  "second_ok a b \<longleftrightarrow>
     (if a = 0xe0 then 0xa0 \<le> b \<and> b \<le> 0xbf
      else if a = 0xed then 0x80 \<le> b \<and> b \<le> 0x9f
      else if a = 0xf0 then 0x90 \<le> b \<and> b \<le> 0xbf
      else if a = 0xf4 then 0x80 \<le> b \<and> b \<le> 0x8f
      else continuation b)"

definition utf8_width :: "u8 \<Rightarrow> nat" where
  "utf8_width a =
     (if a < 0x80 then 1 else if 0xc2 \<le> a \<and> a \<le> 0xdf then 2 else if 0xe0 \<le> a \<and> a \<le> 0xef then 3
      else if 0xf0 \<le> a \<and> a \<le> 0xf4 then 4 else 0)"

text \<open>How many bytes the sequence at the start takes, and whether it is complete.\<close>

definition utf8_next :: "bytes \<Rightarrow> nat \<times> bool" where
  "utf8_next bs =
     (let w = utf8_width (hd bs) in
      if w = 0 then (1, False)
      else if w = 1 then (1, True)
      else if \<not> (length bs > 1 \<and> second_ok (hd bs) (bs ! 1)) then (1, False)
      else if w = 2 then (2, True)
      else if \<not> (length bs > 2 \<and> continuation (bs ! 2)) then (2, False)
      else if w = 3 then (3, True)
      else if \<not> (length bs > 3 \<and> continuation (bs ! 3)) then (3, False)
      else (4, True))"

function from_utf8_lossy :: "bytes \<Rightarrow> bytes" where
  "from_utf8_lossy bs =
     (if bs = [] then []
      else let (n, ok) = utf8_next bs
           in (if ok then take n bs else [0xef, 0xbf, 0xbd]) @ from_utf8_lossy (drop n bs))"
  by pat_completeness auto
termination
  by (relation "measure length") (auto simp add: utf8_next_def Let_def split: if_splits)

declare from_utf8_lossy.simps [simp del]

definition lossy_string :: "bytes \<Rightarrow> string" where
  "lossy_string bs = map (\<lambda>b. char_of (unat b)) (from_utf8_lossy bs)"

definition protocol_violation :: "FrameType option \<Rightarrow> string \<Rightarrow> OxiQuicError" where
  "protocol_violation t reason = E_TransportError ProtocolViolation t reason"

definition recv_crypto ::
    "('t, 's) tls_ops \<Rightarrow> PacketType \<Rightarrow> u64 \<Rightarrow> bytes \<Rightarrow> ('t, 's, 'x) Connection
      \<Rightarrow> (OxiQuicError + unit) \<times> ('t, 's, 'x) Connection" where
  "recv_crypto ops packet_type offset data c =
     (let (delivered, sp) =
            (case packet_type of
               PT_Initial \<Rightarrow> let (d, cs) = crypto_recv offset data (initial_crypto (spaces c))
                             in (d, (spaces c)\<lparr>initial_crypto := cs\<rparr>)
             | PT_Handshake \<Rightarrow> let (d, cs) = crypto_recv offset data (handshake_crypto (spaces c))
                               in (d, (spaces c)\<lparr>handshake_crypto := cs\<rparr>)
             | _ \<Rightarrow> (None, spaces c));
          c = c\<lparr>spaces := sp\<rparr>
      in case delivered of
           None \<Rightarrow> (Inr (), c)
         | Some bs \<Rightarrow>
             (case read_hs ops bs (tls c) of
                (Inl e, t) \<Rightarrow> (Inl (E_Tls e), c\<lparr>tls := t\<rparr>)
              | (Inr _, t) \<Rightarrow> (Inr (), c\<lparr>tls := t\<rparr>)))"

definition on_path_response :: "bytes \<Rightarrow> Migration \<Rightarrow> Migration" where
  "on_path_response data m =
     (if pending_path_challenge m = Some data
      then
        let m = m\<lparr>path_validated := True, pending_path_challenge := None\<rparr>
        in case candidate_peer_addr m of
             Some addr \<Rightarrow> m\<lparr>candidate_peer_addr := None, peer_addr := addr\<rparr>
           | None \<Rightarrow> m
      else m)"

definition on_new_connection_id ::
    "PacketType \<Rightarrow> u64 \<Rightarrow> u64 \<Rightarrow> ConnectionId \<Rightarrow> bytes \<Rightarrow> Cids \<Rightarrow> (OxiQuicError + unit) \<times> Cids" where
  "on_new_connection_id packet_type sq retire_prior_to cid token p =
     (if packet_type \<noteq> PT_Short
      then (Inl (protocol_violation (Some FT_NewConnectionId) ''NEW_CONNECTION_ID received in non-1-RTT packet''), p)
      else case receive_new_cid sq retire_prior_to cid token (peer_cid_pool p) of
        (Inl e, pool) \<Rightarrow> (Inl e, p\<lparr>peer_cid_pool := pool\<rparr>)
      | (Inr _, pool) \<Rightarrow>
          (Inr (), p\<lparr>peer_cid_pool := pool, cids_issued_this_packet := sq # cids_issued_this_packet p\<rparr>))"

definition on_retire_connection_id ::
    "(bytes \<Rightarrow> bytes \<Rightarrow> bytes) \<Rightarrow> bytes option \<Rightarrow> PacketType \<Rightarrow> u64 \<Rightarrow> ('t, 's, 'x) Connection
      \<Rightarrow> (OxiQuicError + unit) \<times> ('t, 's, 'x) Connection" where
  "on_retire_connection_id hmac raw packet_type sq c =
     (if packet_type \<noteq> PT_Short
      then (Inl (protocol_violation (Some FT_RetireConnectionId) ''RETIRE_CONNECTION_ID received in non-1-RTT packet''), c)
      else if sq \<in> set (cids_issued_this_packet (cids c))
      then (Inl (protocol_violation (Some FT_RetireConnectionId) ''RETIRE_CONNECTION_ID for CID issued in same packet''), c)
      else case handle_peer_retirement sq (local_cid_pool (cids c)) of
        (None, pool) \<Rightarrow> (Inr (), c\<lparr>cids := (cids c)\<lparr>local_cid_pool := pool\<rparr>\<rparr>)
      | (Some retired, pool) \<Rightarrow>
          let c = c\<lparr>cids := (cids c)\<lparr>local_cid_pool := pool,
                      pending_cid_events := pending_cid_events (cids c) @ [Unregister retired]\<rparr>\<rparr>
          in (Inr (), snd (maybe_issue_new_cid hmac raw c)))"

definition on_connection_close :: "u64 \<Rightarrow> bool \<Rightarrow> bytes \<Rightarrow> Lifecycle \<Rightarrow> Lifecycle" where
  "on_connection_close error_code app reason l =
     l\<lparr>peer_closed := Some (if app then E_ApplicationClose error_code (lossy_string reason)
                            else E_TransportError (error_from_u64 error_code) None (lossy_string reason)),
       state := Closed\<rparr>"

definition on_new_token ::
    "PacketType \<Rightarrow> bytes \<Rightarrow> ('t, 's, 'x) Connection \<Rightarrow> (OxiQuicError + unit) \<times> ('t, 's, 'x) Connection" where
  "on_new_token packet_type token c =
     (if role (streams c) = ServerRole
      then (Inl (protocol_violation (Some FT_NewToken) ''server received NEW_TOKEN''), c)
      else if packet_type \<noteq> PT_Short
      then (Inl (protocol_violation (Some FT_NewToken) ''NEW_TOKEN in non-1-RTT packet''), c)
      else (Inr (), c\<lparr>cids := (cids c)\<lparr>received_token := Some token\<rparr>\<rparr>))"

definition on_datagram :: "bytes \<Rightarrow> Datagrams \<Rightarrow> (OxiQuicError + unit) \<times> Datagrams" where
  "on_datagram data d =
     (if local_max_datagram_frame_size d = 0
      then (Inl (protocol_violation None ''received DATAGRAM but local max_datagram_frame_size is 0''), d)
      else if length data > local_max_datagram_frame_size d
      then (Inl (protocol_violation None (''DATAGRAM '' @ decimal (length data) @ '' bytes exceeds local max ''
                                            @ decimal (local_max_datagram_frame_size d))), d)
      else
        let total = sum_list (map length (datagram_recv_queue d)) + length data;
            q = (if total > datagram_recv_buffer_limit d then tl (datagram_recv_queue d) else datagram_recv_queue d)
        in (Inr (), d\<lparr>datagram_recv_queue := q @ [data]\<rparr>))"

text \<open>What surrounds a connection: floating point, HMAC, rustls, random bytes, AES-GCM for Retry, and the wall
  clock that \<^verbatim>\<open>refresh_handshake_complete\<close> reads.  The random bytes for a connection ID are drawn under its
  sequence number.\<close>

record ('t, 's, 'x) conn_env =
  env_fp :: "'x f64_ops"
  env_hmac :: "bytes \<Rightarrow> bytes \<Rightarrow> bytes"
  env_tls :: "('t, 's) tls_ops"
  env_rng :: "nat \<Rightarrow> bytes option"
  env_gcm :: gcm
  env_wall :: instant

definition handle_frame ::
    "('t, 's, 'x) conn_env \<Rightarrow> instant \<Rightarrow> PacketType \<Rightarrow> Frame \<Rightarrow> ('t, 's, 'x) Connection
      \<Rightarrow> (OxiQuicError + unit) \<times> ('t, 's, 'x) Connection" where
  "handle_frame env now packet_type frame c =
     (case frame of
        Padding _ \<Rightarrow> (Inr (), c)
      | Ping \<Rightarrow> (Inr (), c)
      | Ack largest delay first_range ranges \<Rightarrow>
          (Inr (), process_ack (env_fp env) now packet_type largest delay first_range ranges c)
      | ResetStream sid code _ \<Rightarrow> (Inr (), c\<lparr>streams := recv_reset_stream sid code (streams c)\<rparr>)
      | StopSending sid code \<Rightarrow> (Inr (), c\<lparr>streams := recv_stop_sending sid code (streams c)\<rparr>)
      | Crypto offset data \<Rightarrow> recv_crypto (env_tls env) packet_type offset data c
      | Stream sid offset fin data \<Rightarrow>
          (let (r, s) = recv_stream sid offset fin data (streams c) in (r, c\<lparr>streams := s\<rparr>))
      | MaxData m \<Rightarrow> (Inr (), c\<lparr>streams := recv_max_data m (streams c)\<rparr>)
      | MaxStreamData sid m \<Rightarrow> (Inr (), c\<lparr>streams := recv_max_stream_data sid m (streams c)\<rparr>)
      | DataBlocked _ \<Rightarrow> (Inr (), c)
      | StreamDataBlocked _ _ \<Rightarrow> (Inr (), c)
      | PathChallenge data \<Rightarrow> (Inr (), c\<lparr>migration := (migration c)\<lparr>pending_path_response := Some data\<rparr>\<rparr>)
      | PathResponse data \<Rightarrow> (Inr (), c\<lparr>migration := on_path_response data (migration c)\<rparr>)
      | HandshakeDone \<Rightarrow>
          (Inr (), if role (streams c) = ClientRole then c\<lparr>hs := (hs c)\<lparr>handshake_done := True\<rparr>\<rparr> else c)
      | NewConnectionId sq retire_prior_to cid token \<Rightarrow>
          (let (r, p) = on_new_connection_id packet_type sq retire_prior_to cid token (cids c)
           in (r, c\<lparr>cids := p\<rparr>))
      | RetireConnectionId sq \<Rightarrow> on_retire_connection_id (env_hmac env) (env_rng env (lp_next_seq (local_cid_pool (cids c)))) packet_type sq c
      | ConnectionClose code _ app reason \<Rightarrow> (Inr (), c\<lparr>life := on_connection_close code app reason (life c)\<rparr>)
      | MaxStreams dir m \<Rightarrow> (Inr (), c\<lparr>streams := recv_max_streams dir m (streams c)\<rparr>)
      | StreamsBlocked dir _ \<Rightarrow> (Inr (), c\<lparr>streams := maybe_raise_max_streams dir (streams c)\<rparr>)
      | NewToken token \<Rightarrow> on_new_token packet_type token c
      | Datagram data \<Rightarrow> (let (r, d) = on_datagram data (dgrams c) in (r, c\<lparr>dgrams := d\<rparr>))
      | Unsupported _ \<Rightarrow> (Inr (), c))"

fun process_loop ::
    "nat \<Rightarrow> ('t, 's, 'x) conn_env \<Rightarrow> instant \<Rightarrow> PacketType \<Rightarrow> Buf \<Rightarrow> bool \<Rightarrow> ('t, 's, 'x) Connection
      \<Rightarrow> (OxiQuicError + bool) \<times> ('t, 's, 'x) Connection" where
  "process_loop 0 env now packet_type buf eliciting c = (Inr eliciting, c)"
| "process_loop (Suc fuel) env now packet_type buf eliciting c =
     (if buf_is_empty buf then (Inr eliciting, c)
      else case decode_frame buf of
        Inl e \<Rightarrow> (Inl (E_TransportError (fe_code e) None (fe_detail e)), c)
      | Inr (frame, buf) \<Rightarrow>
          (case handle_frame env now packet_type frame c of
             (Inl e, c) \<Rightarrow> (Inl e, c)
           | (Inr _, c) \<Rightarrow>
               process_loop fuel env now packet_type buf (eliciting \<or> is_ack_eliciting frame) c))"

definition process_frames ::
    "('t, 's, 'x) conn_env \<Rightarrow> instant \<Rightarrow> PacketType \<Rightarrow> bytes \<Rightarrow> ('t, 's, 'x) Connection
      \<Rightarrow> (OxiQuicError + bool) \<times> ('t, 's, 'x) Connection" where
  "process_frames env now packet_type payload c =
     process_loop (length payload) env now packet_type (Buf_new payload) False
       (c\<lparr>cids := (cids c)\<lparr>cids_issued_this_packet := []\<rparr>\<rparr>)"

section \<open>Packets\<close>

text \<open>
  The result of one packet: the offset of the next one in the datagram, or \<open>None\<close> to stop.  A packet that fails to
  open leaves the datagram as header protection left it: the AEADs check the tag before they touch the buffer.
\<close>

definition check_stateless_reset ::
    "bytes \<Rightarrow> nat \<Rightarrow> nat \<Rightarrow> PeerCidPool \<Rightarrow> OxiQuicError + nat option" where
  "check_stateless_reset datagram offset packet_len pool =
     (let stop = offset + packet_len in
      if packet_len \<ge> 21 \<and> stop \<le> length datagram
         \<and> matches_stateless_reset (slice (stop - 16) stop datagram) pool
      then Inl E_StatelessReset else Inr None)"

text \<open>Frames of a packet of one of the three spaces, and the record that it arrived.\<close>

definition receive_in ::
    "('t, 's, 'x) conn_env \<Rightarrow> instant \<Rightarrow> PacketType \<Rightarrow> (u64 \<Rightarrow> bool \<Rightarrow> Spaces \<Rightarrow> Spaces) \<Rightarrow> ParsedPacket
      \<Rightarrow> ('t, 's, 'x) Connection \<Rightarrow> (OxiQuicError + nat option) \<times> ('t, 's, 'x) Connection" where
  "receive_in env now packet_type note parsed c =
     (case process_frames env now packet_type (pp_payload parsed) c of
        (Inl e, c) \<Rightarrow> (Inl e, c)
      | (Inr eliciting, c) \<Rightarrow>
          (Inr (Some (pp_consumed parsed)), c\<lparr>spaces := note (pp_packet_number parsed) eliciting (spaces c)\<rparr>))"

definition note_application :: "u64 \<Rightarrow> bool \<Rightarrow> Spaces \<Rightarrow> Spaces" where
  "note_application pn eliciting sp = sp\<lparr>application := on_packet_received pn eliciting (application sp)\<rparr>"

definition note_long :: "PacketType \<Rightarrow> u64 \<Rightarrow> bool \<Rightarrow> Spaces \<Rightarrow> Spaces" where
  "note_long packet_type pn eliciting sp =
     (case packet_type of
        PT_Initial \<Rightarrow> sp\<lparr>initial := on_packet_received pn eliciting (initial sp)\<rparr>
      | PT_Handshake \<Rightarrow> sp\<lparr>handshake := on_packet_received pn eliciting (handshake sp)\<rparr>
      | _ \<Rightarrow> sp)"

definition recv_retry_packet ::
    "('t, 's, 'x) conn_env \<Rightarrow> bytes \<Rightarrow> nat \<Rightarrow> ('t, 's, 'x) Connection \<Rightarrow> ('t, 's, 'x) Connection" where
  "recv_retry_packet env datagram offset c =
     (let packet = drop offset datagram in
      if role (streams c) \<noteq> ClientRole \<or> state (life c) \<noteq> Handshaking \<or> retry_done (retry c)
         \<or> largest_received (initial (spaces c)) \<noteq> None
         \<or> \<not> verify_retry_integrity_tag (env_gcm env) (initial_dcid (cids c)) packet
      then c
      else case parse_retry_packet packet of
        None \<Rightarrow> c
      | Some (scid, _, token) \<Rightarrow>
          rekey_initial_for_retry (env_tls env) scid token
            (c\<lparr>cids := (cids c)\<lparr>peer_cid := scid\<rparr>, retry := (retry c)\<lparr>retry_done := True\<rparr>\<rparr>))"

definition recv_zero_rtt_packet ::
    "('t, 's, 'x) conn_env \<Rightarrow> instant \<Rightarrow> bytes \<Rightarrow> nat \<Rightarrow> ('t, 's, 'x) Connection
      \<Rightarrow> (OxiQuicError + nat option) \<times> ('t, 's, 'x) Connection" where
  "recv_zero_rtt_packet env now datagram offset c =
     (if role (streams c) \<noteq> ServerRole then (Inr None, c)
      else case zero_rtt_keys (early c) of
        None \<Rightarrow> (Inr None, c)
      | Some ks \<Rightarrow>
          (case parse_long_packet datagram offset QUIC_V1 (largest_received (application (spaces c)))
                  (dk_packet ks) (dk_header ks) of
             Inl _ \<Rightarrow> (Inr None, c)
           | Inr parsed \<Rightarrow> receive_in env now PT_ZeroRtt note_application parsed c))"

definition long_space :: "PacketType \<Rightarrow> Spaces \<Rightarrow> space option" where
  "long_space packet_type sp =
     (case packet_type of
        PT_Initial \<Rightarrow> Some (initial sp) | PT_Handshake \<Rightarrow> Some (handshake sp) | _ \<Rightarrow> None)"

text \<open>Whether the destination connection ID is ours, and the peer's connection ID learned from its Initial.\<close>

definition addressed_to_us :: "bytes \<Rightarrow> Cids \<Rightarrow> bool" where
  "addressed_to_us dcid p \<longleftrightarrow> dcid = [] \<or> dcid = local_cid p \<or> dcid = initial_dcid p"

definition adopt_peer_cid :: "ParsedPacket \<Rightarrow> ('t, 's, 'x) Connection \<Rightarrow> ('t, 's, 'x) Connection" where
  "adopt_peer_cid parsed c =
     (if role (streams c) = ClientRole \<and> pp_packet_type parsed = PT_Initial \<and> pp_scid parsed \<noteq> []
      then c\<lparr>cids := (cids c)\<lparr>peer_cid := pp_scid parsed\<rparr>\<rparr> else c)"

definition recv_protected_long ::
    "('t, 's, 'x) conn_env \<Rightarrow> instant \<Rightarrow> bytes \<Rightarrow> nat \<Rightarrow> PacketType \<Rightarrow> ('t, 's, 'x) Connection
      \<Rightarrow> (OxiQuicError + nat option) \<times> ('t, 's, 'x) Connection" where
  "recv_protected_long env now datagram offset packet_type c =
     (case long_space packet_type (spaces c) of
        None \<Rightarrow> (Inr None, c)
      | Some sp \<Rightarrow>
          (case remote_keys sp of
             None \<Rightarrow> (Inr None, c)
           | Some ks \<Rightarrow>
               (case parse_long_packet datagram offset QUIC_V1 (largest_received sp) (dk_packet ks) (dk_header ks) of
                  Inl _ \<Rightarrow> (Inr None, c)
                | Inr parsed \<Rightarrow>
                    if \<not> addressed_to_us (pp_dcid parsed) (cids c) then (Inr (Some (pp_consumed parsed)), c)
                    else receive_in env now (pp_packet_type parsed) (note_long (pp_packet_type parsed)) parsed
                           (adopt_peer_cid parsed c))))"

definition recv_long_packet ::
    "('t, 's, 'x) conn_env \<Rightarrow> instant \<Rightarrow> bytes \<Rightarrow> nat \<Rightarrow> ('t, 's, 'x) Connection
      \<Rightarrow> (OxiQuicError + nat option) \<times> ('t, 's, 'x) Connection" where
  "recv_long_packet env now datagram offset c =
     (case peek_dcid (drop offset datagram) LOCAL_CID_LEN of
        Inl _ \<Rightarrow> (Inr None, c)
      | Inr (packet_type, _) \<Rightarrow>
          if packet_type = PT_VersionNegotiation
          then if role (streams c) = ClientRole \<and> state (life c) = Handshaking
                  \<and> largest_received (initial (spaces c)) = None
               then (Inl (E_VersionNegotiation
                       (case decode_version_negotiation (drop offset datagram) of Some vs \<Rightarrow> vs | None \<Rightarrow> [])), c)
               else (Inr None, c)
          else if packet_type = PT_Retry then (Inr None, recv_retry_packet env datagram offset c)
          else if packet_type = PT_ZeroRtt then recv_zero_rtt_packet env now datagram offset c
          else recv_protected_long env now datagram offset packet_type c)"

text \<open>The payload of a packet in the current key phase: with the current keys, else with the previous ones.\<close>

definition open_current ::
    "instant \<Rightarrow> bytes \<Rightarrow> nat \<Rightarrow> u64 option \<Rightarrow> PacketKey \<Rightarrow> 's KeyUpdate \<Rightarrow> ParsedPacket option" where
  "open_current now d offset largest pk k =
     (case decrypt_short_packet_body d offset LOCAL_CID_LEN largest pk of
        Inr p \<Rightarrow> Some p
      | Inl _ \<Rightarrow>
          (case prev_1rtt_keys k of
             Some (prev_pk, retire_after) \<Rightarrow>
               if now \<le> retire_after
               then (case decrypt_short_packet_body d offset LOCAL_CID_LEN largest prev_pk of
                       Inr p \<Rightarrow> Some p | Inl _ \<Rightarrow> None)
               else None
           | None \<Rightarrow> None))"

definition open_next ::
    "bytes \<Rightarrow> nat \<Rightarrow> u64 option \<Rightarrow> 's KeyUpdate \<Rightarrow> ParsedPacket option" where
  "open_next d offset largest k =
     (case next_1rtt_keys k of
        None \<Rightarrow> None
      | Some next_keys \<Rightarrow>
          (case decrypt_short_packet_body d offset LOCAL_CID_LEN largest (ks_remote next_keys) of
             Inr p \<Rightarrow> Some p | Inl _ \<Rightarrow> None))"

definition recv_short_packet ::
    "('t, 's, 'x) conn_env \<Rightarrow> instant \<Rightarrow> bytes \<Rightarrow> nat \<Rightarrow> ('t, 's, 'x) Connection
      \<Rightarrow> (OxiQuicError + nat option) \<times> ('t, 's, 'x) Connection" where
  "recv_short_packet env now datagram offset c =
     (let packet_len = length datagram - offset;
          reset = (\<lambda>d. (check_stateless_reset d offset packet_len (peer_cid_pool (cids c)), c));
          largest = largest_received (application (spaces c))
      in case remote_keys (application (spaces c)) of
           None \<Rightarrow> reset datagram
         | Some ks \<Rightarrow>
             (case strip_short_header_protection datagram offset LOCAL_CID_LEN (dk_header ks) of
                Inl _ \<Rightarrow> reset datagram
              | Inr (d, incoming_key_phase, _) \<Rightarrow>
                  if incoming_key_phase = key_phase (key_upd c)
                  then (case open_current now d offset largest (dk_packet ks) (key_upd c) of
                          None \<Rightarrow> reset d
                        | Some parsed \<Rightarrow> receive_in env now PT_Short note_application parsed c)
                  else (case open_next d offset largest (key_upd c) of
                          None \<Rightarrow> reset d
                        | Some parsed \<Rightarrow>
                            receive_in env now PT_Short note_application parsed
                              (perform_key_update (env_tls env) now c))))"

section \<open>Datagrams\<close>

definition recv_packet ::
    "('t, 's, 'x) conn_env \<Rightarrow> instant \<Rightarrow> bytes \<Rightarrow> nat \<Rightarrow> ('t, 's, 'x) Connection
      \<Rightarrow> (OxiQuicError + nat option) \<times> ('t, 's, 'x) Connection" where
  "recv_packet env now datagram offset c =
     (if (datagram ! offset) AND 0x80 \<noteq> 0 then recv_long_packet env now datagram offset c
      else recv_short_packet env now datagram offset c)"

definition after_packet :: "('t, 's, 'x) conn_env \<Rightarrow> ('t, 's, 'x) Connection \<Rightarrow> ('t, 's, 'x) Connection option" where
  "after_packet env c =
     map_option
       (\<lambda>c. if \<not> handshake_complete (hs c) \<and> zero_rtt_keys (early c) = None
            then try_install_zero_rtt_keys (env_tls env) c else c)
       (pump_write_hs (env_hmac env) (env_tls env) (env_rng env) (env_wall env) c)"

text \<open>\<open>None\<close> is a TLS stack that keeps \<open>pump_write_hs\<close> running, not the end of the packets.\<close>

partial_function (option) recv_packets ::
    "('t, 's, 'x) conn_env \<Rightarrow> instant \<Rightarrow> bytes \<Rightarrow> nat \<Rightarrow> ('t, 's, 'x) Connection
      \<Rightarrow> ((OxiQuicError + unit) \<times> ('t, 's, 'x) Connection) option" where
  "recv_packets env now datagram offset c =
     (if offset \<ge> length datagram \<or> datagram ! offset = 0 then Some (Inr (), c)
      else case recv_packet env now datagram offset c of
        (Inl e, c) \<Rightarrow> Some (Inl e, c)
      | (Inr None, c) \<Rightarrow> Some (Inr (), c)
      | (Inr (Some stop), c) \<Rightarrow>
          Option.bind (after_packet env c) (\<lambda>c. recv_packets env now datagram stop c))"

definition note_arrival :: "instant \<Rightarrow> nat \<Rightarrow> ('t, 's, 'x) Connection \<Rightarrow> ('t, 's, 'x) Connection" where
  "note_arrival now n c =
     c\<lparr>timers := arm_idle_timer now (timers c),
       counters := (counters c)\<lparr>packets_recv := packets_recv (counters c) + 1,
                     bytes_recv := bytes_recv (counters c) + n\<rparr>\<rparr>"

definition handle_datagram ::
    "('t, 's, 'x) conn_env \<Rightarrow> instant \<Rightarrow> bytes \<Rightarrow> ('t, 's, 'x) Connection
      \<Rightarrow> ((OxiQuicError + unit) \<times> ('t, 's, 'x) Connection) option" where
  "handle_datagram env now datagram c = recv_packets env now datagram 0 (note_arrival now (length datagram) c)"

section \<open>The fuel of process_frames\<close>

text \<open>Any fuel that covers the bytes left gives the same result, so \<open>process_frames\<close> reads its payload to the end.\<close>

lemma process_loop_fuel:
  assumes "buf_ok buf" and "remaining buf \<le> n" and "remaining buf \<le> m"
  shows "process_loop n env now pt buf e c = process_loop m env now pt buf e c"
  using assms
proof (induction n arbitrary: m buf e c)
  case 0
  then show ?case by (cases m) (simp_all add: buf_is_empty_def)
next
  case (Suc n)
  show ?case
  proof (cases "buf_is_empty buf")
    case True
    then show ?thesis by (cases m) simp_all
  next
    case False
    then obtain m' where m: "m = Suc m'" using Suc.prems(3) by (cases m) (auto simp add: buf_is_empty_def)
    have "buf_ok b \<and> remaining b < remaining buf" if "decode_frame buf = Inr (f, b)" for f b
      using decode_frame_progress [OF Suc.prems(1) that] by (auto simp add: buf_ok_def remaining_def)
    then show ?thesis
      using Suc.prems(2,3) False unfolding m
      by (auto intro!: Suc.IH split: sum.splits prod.splits)
  qed
qed

end
