(* ===== verification/Channels.thy ===== *)
theory Channels
  imports Prelude
begin

text \<open>
  The bounded channels of \<^verbatim>\<open>tokio::sync::mpsc\<close> that the endpoint code uses between its tasks: the queued messages, the
  permits reserved and not yet used, whether the receiver is gone and whether every sender is.  The capacity is an
  argument of the operations.
\<close>

record 'm Chan =
  ch_queue :: "'m list"
  ch_permits :: nat
  ch_closed :: bool
  ch_done :: bool

definition Chan_new :: "'m Chan" where
  "Chan_new = \<lparr>ch_queue = [], ch_permits = 0, ch_closed = False, ch_done = False\<rparr>"

datatype 'a Poll = Ready 'a | Pending

datatype SendResult = SendOk | SendFull | SendClosed

definition chan_full :: "nat \<Rightarrow> 'm Chan \<Rightarrow> bool" where
  "chan_full cap ch \<longleftrightarrow> cap \<le> length (ch_queue ch) + ch_permits ch"

definition try_send :: "nat \<Rightarrow> 'm \<Rightarrow> 'm Chan \<Rightarrow> SendResult \<times> 'm Chan" where
  "try_send cap msg ch =
     (if ch_closed ch then (SendClosed, ch)
      else if chan_full cap ch then (SendFull, ch)
      else (SendOk, ch\<lparr>ch_queue := ch_queue ch @ [msg]\<rparr>))"

text \<open>One poll of a reservation, and the use of a permit.  The receiver's end may close between the two; a message
  sent then is lost with the channel.\<close>

definition poll_reserve :: "nat \<Rightarrow> 'm Chan \<Rightarrow> (bool \<times> 'm Chan) Poll" where
  "poll_reserve cap ch =
     (if ch_closed ch then Ready (False, ch)
      else if chan_full cap ch then Pending
      else Ready (True, ch\<lparr>ch_permits := ch_permits ch + 1\<rparr>))"

definition permit_send :: "'m \<Rightarrow> 'm Chan \<Rightarrow> 'm Chan" where
  "permit_send msg ch =
     (let ch = ch\<lparr>ch_permits := ch_permits ch - 1\<rparr>
      in if ch_closed ch then ch else ch\<lparr>ch_queue := ch_queue ch @ [msg]\<rparr>)"

text \<open>One poll of \<^verbatim>\<open>recv\<close>: a message, the end of the channel, or nothing yet.\<close>

definition poll_recv :: "'m Chan \<Rightarrow> 'm option Poll \<times> 'm Chan" where
  "poll_recv ch =
     (case ch_queue ch of
        m # ms \<Rightarrow> (Ready (Some m), ch\<lparr>ch_queue := ms\<rparr>)
      | [] \<Rightarrow> if ch_done ch then (Ready None, ch) else (Pending, ch))"

definition chan_inv :: "nat \<Rightarrow> 'm Chan \<Rightarrow> bool" where
  "chan_inv cap ch \<longleftrightarrow> length (ch_queue ch) + ch_permits ch \<le> cap"

lemma try_send_inv: "chan_inv cap ch \<Longrightarrow> chan_inv cap (snd (try_send cap msg ch))"
  by (auto simp add: chan_inv_def try_send_def chan_full_def)

lemma try_send_queue:
  "set (ch_queue (snd (try_send cap msg ch))) \<subseteq> insert msg (set (ch_queue ch))"
  by (auto simp add: try_send_def)

lemma try_send_ok: "fst (try_send cap msg ch) = SendOk \<Longrightarrow> ch_queue (snd (try_send cap msg ch)) = ch_queue ch @ [msg]"
  by (auto simp add: try_send_def split: if_splits)

lemma try_send_not_ok: "fst (try_send cap msg ch) \<noteq> SendOk \<Longrightarrow> snd (try_send cap msg ch) = ch"
  by (auto simp add: try_send_def split: if_splits)

lemma poll_reserve_inv: "poll_reserve cap ch = Ready (ok, ch') \<Longrightarrow> chan_inv cap ch \<Longrightarrow> chan_inv cap ch'"
  by (auto simp add: chan_inv_def poll_reserve_def chan_full_def split: if_splits)

lemma permit_send_inv: "0 < ch_permits ch \<Longrightarrow> chan_inv cap ch \<Longrightarrow> chan_inv cap (permit_send msg ch)"
  by (auto simp add: chan_inv_def permit_send_def Let_def)

lemma poll_recv_inv: "chan_inv cap ch \<Longrightarrow> chan_inv cap (snd (poll_recv ch))"
  by (auto simp add: chan_inv_def poll_recv_def split: list.splits)

end
