(* ===== verification/Endpoint.thy ===== *)
theory Endpoint
  imports Config Conn_Recv Channels
begin

text \<open>
  \<^verbatim>\<open>oxiquic-transport/src/endpoint/mod.rs\<close>: the server's demultiplexer, which routes the datagrams of one socket to
  the connections behind it, and the driver of one connection.

  The socket, the tasks and the clock are the surroundings: a datagram comes with its source address, what is sent is
  collected.  A connection's inbound channel is named by its position in the list of channels.
\<close>

text \<open>The capacity of a connection's inbound channel.\<close>

definition CHANNEL_CAPACITY :: nat where "CHANNEL_CAPACITY = 16384"

section \<open>Routes\<close>

record Routes =
  initial_map :: "bytes \<rightharpoonup> nat"
  local_cid_map :: "bytes \<rightharpoonup> nat"

record CidRouteUpdate =
  cu_event :: CidEvent
  cu_conn_tx :: nat

definition apply_cid_route_update :: "CidRouteUpdate \<Rightarrow> Routes \<Rightarrow> bool \<times> Routes" where
  "apply_cid_route_update u r =
     (case cu_event u of
        Register cid \<Rightarrow>
          if length cid = LOCAL_CID_LEN
          then (True, r\<lparr>local_cid_map := (local_cid_map r)(cid \<mapsto> cu_conn_tx u)\<rparr>) else (False, r)
      | Unregister cid \<Rightarrow>
          if length cid = LOCAL_CID_LEN
          then (True, r\<lparr>local_cid_map := (local_cid_map r)(cid := None)\<rparr>) else (False, r)
      | InitialRetired dcid \<Rightarrow> (True, r\<lparr>initial_map := (initial_map r)(dcid := None)\<rparr>))"

definition initial_id_fields :: "(codec_error, nat \<times> bytes \<times> bytes) decoder" where
  "initial_id_fields =
     bind_d get_u8 (\<lambda>_.
     bind_d get_u32 (\<lambda>version.
     bind_d get_u8 (\<lambda>dcid_len.
     bind_d (get_bytes (unat dcid_len)) (\<lambda>dcid.
     bind_d get_u8 (\<lambda>scid_len.
     bind_d (get_bytes (unat scid_len)) (\<lambda>scid.
       return_d (version, dcid, scid)))))))"

definition parse_client_initial_ids :: "bytes \<Rightarrow> (nat \<times> bytes \<times> bytes) option" where
  "parse_client_initial_ids datagram =
     (case datagram of
        [] \<Rightarrow> None
      | first # _ \<Rightarrow> if first AND 0x80 = 0 then None else ok_value (initial_id_fields (Buf_new datagram)))"

definition random_scid_for_retry :: "bytes option \<Rightarrow> nat \<Rightarrow> bytes" where
  "random_scid_for_retry raw nanos =
     (case raw of
        Some bs \<Rightarrow> bs
      | None \<Rightarrow> map (\<lambda>i. word_of_nat (nanos + i * 0x9e3779b9)) [0..<8])"

text \<open>The early-data size rustls is configured with: the transport's setting, unless that is zero.\<close>

definition apply_early_data_config :: "nat \<Rightarrow> TransportConfig \<Rightarrow> nat" where
  "apply_early_data_config config_size tc =
     (if tc_max_early_data_size tc = 0 then config_size else tc_max_early_data_size tc)"

section \<open>The demultiplexer\<close>

text \<open>
  \<open>dx_conns\<close> are the handshake tasks spawned so far: the channel, the connection and the client's first destination ID.
  \<open>dx_accept_errors\<close> are the failures delivered to the accept loop.
\<close>

record ('t, 's, 'x) Demux =
  dx_routes :: Routes
  dx_chans :: "(bytes \<times> SocketAddr) Chan list"
  dx_transport :: TransportConfig
  dx_conns :: "(nat \<times> ('t, 's, 'x) Connection \<times> bytes) list"
  dx_out :: "(bytes \<times> SocketAddr) list"
  dx_accept_errors :: "OxiQuicError list"

definition Demux_new :: "TransportConfig \<Rightarrow> ('t, 's, 'x) Demux" where
  "Demux_new tc =
     \<lparr>dx_routes = \<lparr>initial_map = Map.empty, local_cid_map = Map.empty\<rparr>, dx_chans = [], dx_transport = tc,
      dx_conns = [], dx_out = [], dx_accept_errors = []\<rparr>"

text \<open>What surrounds the handling of one datagram: the connection's surroundings, \<^verbatim>\<open>ServerConnection::new\<close> for an
  early-data size and encoded parameters, the configured early-data size, and the random bytes and clock value drawn
  for a Retry.\<close>

record ('t, 's, 'x) demux_env =
  de_conn :: "('t, 's, 'x) conn_env"
  de_server_tls :: "nat \<Rightarrow> bytes \<Rightarrow> string + 't"
  de_config_early :: nat
  de_scid :: "bytes option"
  de_secret :: "bytes option"
  de_nanos :: nat

definition forward_to :: "bytes \<times> SocketAddr \<Rightarrow> nat \<Rightarrow> ('t, 's, 'x) Demux \<Rightarrow> SendResult \<times> ('t, 's, 'x) Demux" where
  "forward_to msg i s =
     (let (r, ch) = try_send CHANNEL_CAPACITY msg (dx_chans s ! i) in (r, s\<lparr>dx_chans := (dx_chans s)[i := ch]\<rparr>))"

definition forward_local :: "bytes \<times> SocketAddr \<Rightarrow> bytes \<Rightarrow> nat \<Rightarrow> ('t, 's, 'x) Demux \<Rightarrow> ('t, 's, 'x) Demux" where
  "forward_local msg key i s =
     (let (r, s) = forward_to msg i s
      in if r = SendClosed
         then s\<lparr>dx_routes := (dx_routes s)\<lparr>local_cid_map := (local_cid_map (dx_routes s))(key := None)\<rparr>\<rparr> else s)"

definition forward_initial :: "bytes \<times> SocketAddr \<Rightarrow> bytes \<Rightarrow> nat \<Rightarrow> ('t, 's, 'x) Demux \<Rightarrow> ('t, 's, 'x) Demux" where
  "forward_initial msg dcid i s =
     (let (r, s) = forward_to msg i s
      in if r = SendClosed
         then s\<lparr>dx_routes := (dx_routes s)\<lparr>initial_map := (initial_map (dx_routes s))(dcid := None)\<rparr>\<rparr> else s)"

definition send_retry ::
    "('t, 's, 'x) demux_env \<Rightarrow> bytes \<Rightarrow> bytes \<Rightarrow> SocketAddr \<Rightarrow> ('t, 's, 'x) Demux \<Rightarrow> ('t, 's, 'x) Demux" where
  "send_retry env dcid scid peer s =
     (let retry_scid = random_scid_for_retry (de_scid env) (de_nanos env);
          (token, tc) = generate_retry_token (env_hmac (de_conn env)) (de_secret env) (de_nanos env) dcid peer
                          (dx_transport s);
          s = s\<lparr>dx_transport := tc\<rparr>
      in case encode_retry_packet (env_gcm (de_conn env)) retry_scid scid dcid token of
           Some pkt \<Rightarrow> s\<lparr>dx_out := dx_out s @ [(pkt, peer)]\<rparr>
         | None \<Rightarrow> s)"

text \<open>A new connection is registered under both IDs before its first datagram is forwarded.\<close>

definition create_connection ::
    "('t, 's, 'x) demux_env \<Rightarrow> bytes \<Rightarrow> bytes \<Rightarrow> bytes \<Rightarrow> SocketAddr \<Rightarrow> ('t, 's, 'x) Demux \<Rightarrow> ('t, 's, 'x) Demux" where
  "create_connection env dcid scid datagram peer s =
     (let tc = dx_transport s;
          params = to_transport_params tc;
          mtu_config = \<lparr>mc_max_mtu = tc_max_mtu tc, mc_discovery_enabled = True\<rparr>
      in case de_server_tls env (apply_early_data_config (de_config_early env) tc) (encode_transport_params params) of
           Inl e \<Rightarrow> s\<lparr>dx_accept_errors := dx_accept_errors s @ [E_Tls e]\<rparr>
         | Inr t \<Rightarrow>
             let ce = de_conn env;
                 conn = new_server (env_fp ce) (env_hmac ce) (env_tls ce) t (env_rng ce) dcid scid peer params mtu_config
                          (env_wall ce) (tc_congestion_controller tc) (tc_datagram_receive_buffer_size tc)
             in if length (local_cid (cids conn)) \<noteq> LOCAL_CID_LEN then s
                else
                  let i = length (dx_chans s); r = dx_routes s
                  in s\<lparr>dx_routes := r\<lparr>initial_map := (initial_map r)(dcid \<mapsto> i),
                                      local_cid_map := (local_cid_map r)(local_cid (cids conn) \<mapsto> i)\<rparr>,
                       dx_chans := dx_chans s @ [snd (try_send CHANNEL_CAPACITY (datagram, peer) Chan_new)],
                       dx_conns := dx_conns s @ [(i, conn, dcid)]\<rparr>)"

definition SUPPORTED_VERSIONS :: "nat list" where "SUPPORTED_VERSIONS = [QUIC_V1]"

text \<open>An Initial packet of a client that no connection knows.\<close>

definition accept_initial ::
    "('t, 's, 'x) demux_env \<Rightarrow> bytes \<Rightarrow> SocketAddr \<Rightarrow> ('t, 's, 'x) Demux \<Rightarrow> ('t, 's, 'x) Demux" where
  "accept_initial env datagram peer s =
     (case parse_client_initial_ids datagram of
        None \<Rightarrow> s
      | Some (version, dcid, scid) \<Rightarrow>
          if version \<noteq> QUIC_V1
          then s\<lparr>dx_out := dx_out s @ [(encode_version_negotiation scid dcid SUPPORTED_VERSIONS, peer)]\<rparr>
          else if tc_retry_enabled (dx_transport s)
          then
            let token = (case parse_initial_token datagram of Some tk \<Rightarrow> tk | None \<Rightarrow> []) in
            if token = [] then send_retry env dcid scid peer s
            else case validate_retry_token (env_hmac (de_conn env)) token peer (dx_transport s) of
              Some _ \<Rightarrow> create_connection env dcid scid datagram peer s
            | None \<Rightarrow> send_retry env dcid scid peer s
          else create_connection env dcid scid datagram peer s)"

definition demux_datagram ::
    "('t, 's, 'x) demux_env \<Rightarrow> bytes \<Rightarrow> SocketAddr \<Rightarrow> ('t, 's, 'x) Demux \<Rightarrow> ('t, 's, 'x) Demux" where
  "demux_datagram env datagram peer s =
     (case peek_dcid datagram LOCAL_CID_LEN of
        Inl _ \<Rightarrow> s
      | Inr (pkt_type, dcid) \<Rightarrow>
          if pkt_type = PT_Short
          then (case local_cid_map (dx_routes s) dcid of
                  Some i \<Rightarrow> forward_local (datagram, peer) dcid i s
                | None \<Rightarrow> s)
          else if length dcid = LOCAL_CID_LEN \<and> local_cid_map (dx_routes s) dcid \<noteq> None
          then forward_local (datagram, peer) dcid (the (local_cid_map (dx_routes s) dcid)) s
          else if pkt_type \<noteq> PT_Initial then s
          else case initial_map (dx_routes s) dcid of
            Some i \<Rightarrow> forward_initial (datagram, peer) dcid i s
          | None \<Rightarrow> accept_initial env datagram peer s)"

text \<open>One turn of the loop: the routing updates that have arrived, then one datagram.\<close>

definition drain_route_updates :: "CidRouteUpdate list \<Rightarrow> Routes \<Rightarrow> Routes" where
  "drain_route_updates us r = fold (\<lambda>u r. snd (apply_cid_route_update u r)) us r"

definition demux_turn ::
    "('t, 's, 'x) demux_env \<Rightarrow> CidRouteUpdate list \<Rightarrow> bytes \<Rightarrow> SocketAddr \<Rightarrow> ('t, 's, 'x) Demux \<Rightarrow> ('t, 's, 'x) Demux" where
  "demux_turn env us datagram peer s =
     demux_datagram env datagram peer (s\<lparr>dx_routes := drain_route_updates us (dx_routes s)\<rparr>)"

section \<open>The driver of a connection\<close>

text \<open>
  \<open>dr_routing\<close> is the connection's own inbound channel, when a demultiplexer routes for it.  An operation returns what
  it leaves behind: the routing updates for the demultiplexer, which takes those that fit its channel, and the
  datagrams sent.  The socket itself does not fail.
\<close>

record ('t, 's, 'x) Driver =
  dr_conn :: "('t, 's, 'x) Connection"
  dr_peer :: "SocketAddr option"
  dr_routing :: "nat option"

type_synonym effects = "CidRouteUpdate list \<times> (bytes \<times> SocketAddr) list"

definition also_effects :: "effects \<Rightarrow> effects \<Rightarrow> effects" where
  "also_effects e f = (fst e @ fst f, snd e @ snd f)"

type_synonym ('t, 's, 'x, 'r) outcome = "((OxiQuicError + 'r) \<times> effects \<times> ('t, 's, 'x) Driver) option"

text \<open>The \<^verbatim>\<open>?\<close> of the driver: the rest runs on success only; the effects stay in either case.\<close>

definition and_then ::
    "('t, 's, 'x, 'r) outcome \<Rightarrow> ('r \<Rightarrow> ('t, 's, 'x) Driver \<Rightarrow> ('t, 's, 'x, 'q) outcome) \<Rightarrow> ('t, 's, 'x, 'q) outcome" where
  "and_then o1 k =
     (case o1 of
        None \<Rightarrow> None
      | Some (Inl e, fx, d) \<Rightarrow> Some (Inl e, fx, d)
      | Some (Inr r, fx, d) \<Rightarrow> map_option (\<lambda>(q, fx', d). (q, also_effects fx fx', d)) (k r d))"

definition drain_cid_events :: "('t, 's, 'x) Driver \<Rightarrow> CidRouteUpdate list \<times> ('t, 's, 'x) Driver" where
  "drain_cid_events d =
     (let c = dr_conn d; es = pending_cid_events (cids c);
          d = d\<lparr>dr_conn := c\<lparr>cids := (cids c)\<lparr>pending_cid_events := []\<rparr>\<rparr>\<rparr>
      in case dr_routing d of
           Some i \<Rightarrow> (map (\<lambda>e. \<lparr>cu_event = e, cu_conn_tx = i\<rparr>) es, d)
         | None \<Rightarrow> ([], d))"

text \<open>The address a datagram comes from, before it is handled; \<open>raw\<close> is drawn for a path challenge.\<close>

definition note_source :: "bytes option \<Rightarrow> SocketAddr \<Rightarrow> ('t, 's, 'x) Driver \<Rightarrow> ('t, 's, 'x) Driver" where
  "note_source raw from d =
     (case dr_peer d of
        None \<Rightarrow> d\<lparr>dr_peer := Some from\<rparr>
      | Some p \<Rightarrow>
          if p \<noteq> from \<and> state (life (dr_conn d)) = Established
          then
            let c = dr_conn d; c = c\<lparr>migration := set_candidate_peer_addr from (migration c)\<rparr>
            in d\<lparr>dr_conn := snd (initiate_path_challenge raw c)\<rparr>
          else d)"

definition handle_inbound_datagram ::
    "('t, 's, 'x) conn_env \<Rightarrow> bytes option \<Rightarrow> instant \<Rightarrow> bytes \<Rightarrow> SocketAddr \<Rightarrow> ('t, 's, 'x) Driver
      \<Rightarrow> ('t, 's, 'x, unit) outcome" where
  "handle_inbound_datagram env raw now owned from d =
     (let d = note_source raw from d in
      case handle_datagram env now owned (dr_conn d) of
        None \<Rightarrow> None
      | Some (Inl e, c) \<Rightarrow> Some (Inl e, ([], []), d\<lparr>dr_conn := c\<rparr>)
      | Some (Inr _, c) \<Rightarrow>
          let d = d\<lparr>dr_conn := c\<rparr>;
              d = (if path_validated (migration c) then d\<lparr>dr_peer := Some (peer_addr (migration c))\<rparr> else d);
              (us, d) = drain_cid_events d
          in Some (Inr (), (us, []), d))"

text \<open>
  \<open>flush\<close> sends until there is nothing left to send; \<open>None\<close> is a connection that always has more.  The clock stands
  still while it runs.
\<close>

partial_function (option) flush ::
    "('t, 's, 'x) conn_env \<Rightarrow> instant \<Rightarrow> ('t, 's, 'x) Connection
      \<Rightarrow> ((bytes \<times> SocketAddr) list \<times> ('t, 's, 'x) Connection) option" where
  "flush env now c =
     (case poll_transmit (env_hmac env) (env_tls env) (env_rng env) (env_wall env) now c of
        None \<Rightarrow> None
      | Some (Some addr, out, c) \<Rightarrow>
          if out = [] then Some ([], c)
          else Option.bind (flush env now c) (\<lambda>(more_out, c). Some ((out, addr) # more_out, c))
      | Some (None, _, c) \<Rightarrow> Some ([], c))"

definition flush_driver ::
    "('t, 's, 'x) conn_env \<Rightarrow> instant \<Rightarrow> ('t, 's, 'x) Driver \<Rightarrow> ('t, 's, 'x, unit) outcome" where
  "flush_driver env now d =
     map_option (\<lambda>(out, c). (Inr (), ([], out), d\<lparr>dr_conn := c\<rparr>)) (flush env now (dr_conn d))"

text \<open>What ends the wait of \<open>pump_once\<close>: datagrams, the first and those queued behind it, or the timer.\<close>

definition BURST_DRAIN_LIMIT :: nat where "BURST_DRAIN_LIMIT = 128"

datatype Wake = Inbound "(bytes \<times> SocketAddr) list" | TimerFired

definition pump_deadline :: "instant \<Rightarrow> ('t, 's, 'x) Connection \<Rightarrow> instant" where
  "pump_deadline deadline c = (case next_timeout c of Some t \<Rightarrow> min t deadline | None \<Rightarrow> deadline)"

fun handle_burst ::
    "('t, 's, 'x) conn_env \<Rightarrow> bytes option \<Rightarrow> instant \<Rightarrow> (bytes \<times> SocketAddr) list \<Rightarrow> ('t, 's, 'x) Driver
      \<Rightarrow> ('t, 's, 'x, unit) outcome" where
  "handle_burst env raw now [] d = Some (Inr (), ([], []), d)"
| "handle_burst env raw now ((owned, from) # msgs) d =
     and_then (handle_inbound_datagram env raw now owned from d) (\<lambda>_ d. handle_burst env raw now msgs d)"

definition pump_once ::
    "('t, 's, 'x) conn_env \<Rightarrow> bytes option \<Rightarrow> instant \<Rightarrow> instant \<Rightarrow> Wake \<Rightarrow> ('t, 's, 'x) Driver
      \<Rightarrow> ('t, 's, 'x, unit) outcome" where
  "pump_once env raw now deadline wake d =
     (case wake of
        Inbound msgs \<Rightarrow>
          and_then (handle_burst env raw now (take (1 + BURST_DRAIN_LIMIT) msgs) d) (\<lambda>_ d. flush_driver env now d)
      | TimerFired \<Rightarrow>
          let d = d\<lparr>dr_conn := handle_timeout (env_fp env) now (dr_conn d)\<rparr> in
          if now \<ge> deadline \<and> \<not> handshake_complete (hs (dr_conn d)) then Some (Inl E_Timeout, ([], []), d)
          else flush_driver env now d)"

definition hex_digit :: "nat \<Rightarrow> char" where
  "hex_digit n = (if n < 10 then char_of (48 + n) else char_of (87 + n))"

fun hexadecimal :: "nat \<Rightarrow> string" where
  "hexadecimal n = (if n < 16 then [hex_digit n] else hexadecimal (n div 16) @ [hex_digit (n mod 16)])"

declare hexadecimal.simps [simp del]

definition hex_list :: "nat list \<Rightarrow> string" where
  "hex_list vs = ''['' @ concat (case vs of [] \<Rightarrow> [] | v # vs \<Rightarrow> hexadecimal v # map (\<lambda>v. '', '' @ hexadecimal v) vs) @ '']''"

text \<open>The text of an error other than the two closes, which \<open>close_error\<close> passes on.\<close>

definition other_error_text :: "OxiQuicError \<Rightarrow> string" where
  "other_error_text e =
     (case e of
        E_Io s \<Rightarrow> ''I/O error: '' @ s
      | E_Tls s \<Rightarrow> ''TLS configuration error: '' @ s
      | E_QuicCrypto s \<Rightarrow> ''QUIC crypto error: '' @ s
      | E_Connection s \<Rightarrow> ''connection error: '' @ s
      | E_Stream s \<Rightarrow> ''stream error: '' @ s
      | E_FrameEncoding s \<Rightarrow> ''frame encoding error: '' @ s
      | E_FlowControl s \<Rightarrow> ''flow control error: '' @ s
      | E_Protocol s \<Rightarrow> ''protocol violation: '' @ s
      | E_Timeout \<Rightarrow> ''operation timed out''
      | E_IdleTimeout \<Rightarrow> ''connection idle timeout''
      | E_VersionNegotiation vs \<Rightarrow> ''QUIC version negotiation failed; server supports: '' @ hex_list vs
      | E_StatelessReset \<Rightarrow> ''connection reset by peer (stateless reset)''
      | E_NotImplemented s \<Rightarrow> ''not implemented: '' @ s
      | _ \<Rightarrow> [])"

definition close_error :: "('t, 's, 'x) Connection \<Rightarrow> OxiQuicError" where
  "close_error c =
     (case peer_closed (life c) of
        Some (E_TransportError code ft reason) \<Rightarrow> E_TransportError code ft reason
      | Some (E_ApplicationClose code reason) \<Rightarrow> E_ApplicationClose code reason
      | Some other \<Rightarrow> E_Connection (other_error_text other)
      | None \<Rightarrow> E_Connection ''connection closed'')"

section \<open>The handshake\<close>

text \<open>
  The wakes that happen are given, each with its time and the random bytes drawn then.  A loop that outlives them is
  \<open>None\<close>.
\<close>

type_synonym wake_at = "instant \<times> bytes option \<times> Wake"

fun handshake_loop ::
    "('t, 's, 'x) conn_env \<Rightarrow> instant \<Rightarrow> wake_at list \<Rightarrow> ('t, 's, 'x) Driver \<Rightarrow> ('t, 's, 'x, unit) outcome" where
  "handshake_loop env deadline wakes d =
     (if handshake_complete (hs (dr_conn d)) then Some (Inr (), ([], []), d)
      else if state (life (dr_conn d)) = Closed then Some (Inl (close_error (dr_conn d)), ([], []), d)
      else case wakes of
        [] \<Rightarrow> None
      | (now, raw, wake) # wakes \<Rightarrow>
          and_then (pump_once env raw now deadline wake d) (\<lambda>_ d. handshake_loop env deadline wakes d))"

declare handshake_loop.simps [simp del]

definition HANDSHAKE_TIMEOUT :: duration where "HANDSHAKE_TIMEOUT = 10 * 10 ^ 9"

definition run_handshake ::
    "('t, 's, 'x) conn_env \<Rightarrow> instant \<Rightarrow> wake_at list \<Rightarrow> instant \<Rightarrow> ('t, 's, 'x) Driver \<Rightarrow> ('t, 's, 'x, unit) outcome" where
  "run_handshake env now wakes done_at d =
     and_then (flush_driver env now d) (\<lambda>_ d.
     and_then (handshake_loop env (now + HANDSHAKE_TIMEOUT) wakes d) (\<lambda>_ d. flush_driver env done_at d))"

definition set_keep_alive :: "duration option \<Rightarrow> ('t, 's, 'x) Driver \<Rightarrow> ('t, 's, 'x) Driver" where
  "set_keep_alive i d =
     (let c = dr_conn d in d\<lparr>dr_conn := c\<lparr>timers := set_keep_alive_interval i (timers c)\<rparr>\<rparr>)"

text \<open>The task of one accepted connection: on either result the first routing entry is retired.\<close>

definition run_server_handshake ::
    "('t, 's, 'x) conn_env \<Rightarrow> instant \<Rightarrow> wake_at list \<Rightarrow> instant \<Rightarrow> duration option \<Rightarrow> SocketAddr
      \<Rightarrow> nat \<times> ('t, 's, 'x) Connection \<times> bytes \<Rightarrow> ('t, 's, 'x, unit) outcome" where
  "run_server_handshake env now wakes done_at keep_alive peer task =
     (case task of (i, conn, dcid) \<Rightarrow>
        case run_handshake env now wakes done_at \<lparr>dr_conn = conn, dr_peer = Some peer, dr_routing = Some i\<rparr> of
          None \<Rightarrow> None
        | Some (r, fx, d) \<Rightarrow>
            let fx = also_effects fx ([\<lparr>cu_event = InitialRetired dcid, cu_conn_tx = i\<rparr>], []) in
            (case r of
               Inl e \<Rightarrow> Some (Inl e, fx, d)
             | Inr _ \<Rightarrow> Some (Inr (), fx, set_keep_alive keep_alive d)))"

text \<open>\<open>client_tls\<close> is \<^verbatim>\<open>ClientConnection::new\<close> for a name and encoded parameters, after the name is checked.\<close>

definition connect ::
    "('t, 's, 'x) conn_env \<Rightarrow> (bytes \<Rightarrow> OxiQuicError + 't) \<Rightarrow> TransportConfig \<Rightarrow> SocketAddr \<Rightarrow> instant \<Rightarrow> wake_at list
      \<Rightarrow> instant \<Rightarrow> OxiQuicError + ('t, 's, 'x, unit) outcome" where
  "connect env client_tls tc server_addr now wakes done_at =
     (let params = to_transport_params tc;
          mtu_config = \<lparr>mc_max_mtu = tc_max_mtu tc, mc_discovery_enabled = True\<rparr>
      in bind_result (client_tls (encode_transport_params params)) (\<lambda>t.
           let conn = new_client (env_fp env) (env_hmac env) (env_tls env) t (env_rng env) server_addr params mtu_config
                        (env_wall env) (tc_congestion_controller tc) (tc_datagram_receive_buffer_size tc)
           in Inr (and_then
                (run_handshake env now wakes done_at \<lparr>dr_conn = conn, dr_peer = Some server_addr, dr_routing = None\<rparr>)
                (\<lambda>_ d. Some (Inr (), ([], []), set_keep_alive (tc_keep_alive_interval tc) d)))))"

section \<open>The connection handle\<close>

text \<open>
  \<^verbatim>\<open>QuicConnection\<close>: the calls that wait are one loop with a different attempt each, \<open>None\<close> when there is nothing yet.
  Each wake also carries the time of the deadline check after it, at which the next attempt is made.
\<close>

fun pump_until ::
    "('t, 's, 'x) conn_env \<Rightarrow> instant \<Rightarrow> (instant \<Rightarrow> ('t, 's, 'x) Driver \<Rightarrow> ('t, 's, 'x, 'r option) outcome)
      \<Rightarrow> instant \<Rightarrow> (wake_at \<times> instant) list \<Rightarrow> ('t, 's, 'x) Driver \<Rightarrow> ('t, 's, 'x, 'r) outcome" where
  "pump_until env deadline attempt started wakes d =
     and_then (attempt started d) (\<lambda>r d.
       case r of
         Some v \<Rightarrow> Some (Inr v, ([], []), d)
       | None \<Rightarrow>
           if state (life (dr_conn d)) = Closed then Some (Inl (close_error (dr_conn d)), ([], []), d)
           else case wakes of
             [] \<Rightarrow> None
           | ((now, raw, wake), after) # wakes \<Rightarrow>
               and_then (pump_once env raw now deadline wake d) (\<lambda>_ d.
                 if after \<ge> deadline then Some (Inl E_Timeout, ([], []), d)
                 else pump_until env deadline attempt after wakes d))"

declare pump_until.simps [simp del]

definition on_streams ::
    "(ConnStreams \<Rightarrow> (OxiQuicError + 'r) \<times> ConnStreams) \<Rightarrow> ('t, 's, 'x) Driver \<Rightarrow> ('t, 's, 'x, 'r) outcome" where
  "on_streams f d =
     (let c = dr_conn d; (r, st) = f (streams c) in Some (r, ([], []), d\<lparr>dr_conn := c\<lparr>streams := st\<rparr>\<rparr>))"

definition try_read ::
    "('t, 's, 'x) conn_env \<Rightarrow> instant \<Rightarrow> StreamId \<Rightarrow> ('t, 's, 'x) Driver \<Rightarrow> ('t, 's, 'x, (bytes \<times> bool) option) outcome" where
  "try_read env now sid d =
     and_then (on_streams (read_stream sid) d) (\<lambda>(data, fin) d.
       if data \<noteq> [] \<or> fin
       then and_then (flush_driver env now d) (\<lambda>_ d. Some (Inr (Some (data, fin)), ([], []), d))
       else Some (Inr None, ([], []), d))"

definition read_with_deadline ::
    "('t, 's, 'x) conn_env \<Rightarrow> instant \<Rightarrow> instant \<Rightarrow> StreamId \<Rightarrow> (wake_at \<times> instant) list \<Rightarrow> ('t, 's, 'x) Driver
      \<Rightarrow> ('t, 's, 'x, bytes \<times> bool) outcome" where
  "read_with_deadline env now deadline sid = pump_until env deadline (\<lambda>now. try_read env now sid) now"

definition try_accept :: "('t, 's, 'x) Driver \<Rightarrow> ('t, 's, 'x, (StreamId \<times> bytes \<times> bool) option) outcome" where
  "try_accept d =
     and_then (on_streams (\<lambda>st. let (r, st) = poll_readable st in (Inr r, st)) d) (\<lambda>r d.
       case r of
         None \<Rightarrow> Some (Inr None, ([], []), d)
       | Some sid \<Rightarrow> and_then (on_streams (read_stream sid) d) (\<lambda>(data, fin) d. Some (Inr (Some (sid, data, fin)), ([], []), d)))"

definition accept_uni_or_bidi_data_with_deadline ::
    "('t, 's, 'x) conn_env \<Rightarrow> instant \<Rightarrow> instant \<Rightarrow> (wake_at \<times> instant) list \<Rightarrow> ('t, 's, 'x) Driver
      \<Rightarrow> ('t, 's, 'x, StreamId \<times> bytes \<times> bool) outcome" where
  "accept_uni_or_bidi_data_with_deadline env now deadline = pump_until env deadline (\<lambda>_. try_accept) now"

definition try_recv_datagram :: "('t, 's, 'x) Driver \<Rightarrow> ('t, 's, 'x, bytes option) outcome" where
  "try_recv_datagram d =
     (let c = dr_conn d; (r, dg) = recv_datagram (dgrams c) in Some (Inr r, ([], []), d\<lparr>dr_conn := c\<lparr>dgrams := dg\<rparr>\<rparr>))"

definition recv_datagram_until ::
    "('t, 's, 'x) conn_env \<Rightarrow> instant \<Rightarrow> (wake_at \<times> instant) list \<Rightarrow> ('t, 's, 'x) Driver \<Rightarrow> ('t, 's, 'x, bytes) outcome" where
  "recv_datagram_until env now = pump_until env (now + 10 * 10 ^ 9) (\<lambda>_. try_recv_datagram) now"

text \<open>The calls that queue and flush.\<close>

definition send_data ::
    "('t, 's, 'x) conn_env \<Rightarrow> instant \<Rightarrow> StreamId \<Rightarrow> bytes \<Rightarrow> bool \<Rightarrow> ('t, 's, 'x) Driver \<Rightarrow> ('t, 's, 'x, unit) outcome" where
  "send_data env now sid data fin d =
     and_then (on_streams (send_stream sid data fin) d) (\<lambda>_ d. flush_driver env now d)"

definition send_datagram_now ::
    "('t, 's, 'x) conn_env \<Rightarrow> instant \<Rightarrow> bytes \<Rightarrow> ('t, 's, 'x) Driver \<Rightarrow> ('t, 's, 'x, unit) outcome" where
  "send_datagram_now env now data d =
     (let c = dr_conn d; (r, dg) = send_datagram data (dgrams c)
      in and_then (Some (r, ([], []), d\<lparr>dr_conn := c\<lparr>dgrams := dg\<rparr>\<rparr>)) (\<lambda>_ d. flush_driver env now d))"

definition close_now ::
    "('t, 's, 'x) conn_env \<Rightarrow> instant \<Rightarrow> u64 \<Rightarrow> bytes \<Rightarrow> ('t, 's, 'x) Driver \<Rightarrow> ('t, 's, 'x, unit) outcome" where
  "close_now env now error_code reason d =
     (let c = dr_conn d
      in flush_driver env now (d\<lparr>dr_conn := c\<lparr>life := close_connection error_code reason (life c)\<rparr>\<rparr>))"

text \<open>Opening with retries: a stream-limit error is retried after a flush, whose own error is ignored.\<close>

fun open_bi_attempts ::
    "('t, 's, 'x) conn_env \<Rightarrow> instant list \<Rightarrow> ('t, 's, 'x) Driver \<Rightarrow> ('t, 's, 'x, StreamId) outcome" where
  "open_bi_attempts env [] d = on_streams open_bidi d"
| "open_bi_attempts env (now # nows) d =
     (case on_streams open_bidi d of
        Some (Inl (E_Stream _), _, d) \<Rightarrow> and_then (flush_driver env now d) (\<lambda>_ d. open_bi_attempts env nows d)
      | r \<Rightarrow> r)"

text \<open>\<open>nows\<close> are the times of the flushes; the number of attempts is one more than its length.\<close>

definition open_bi_reliable ::
    "('t, 's, 'x) conn_env \<Rightarrow> nat \<Rightarrow> (nat \<Rightarrow> instant) \<Rightarrow> ('t, 's, 'x) Driver \<Rightarrow> ('t, 's, 'x, StreamId) outcome" where
  "open_bi_reliable env max_attempts clock d = open_bi_attempts env (map clock [0..<max max_attempts 1 - 1]) d"

definition drive ::
    "('t, 's, 'x) conn_env \<Rightarrow> bytes option \<Rightarrow> instant \<Rightarrow> instant \<Rightarrow> Wake \<Rightarrow> ('t, 's, 'x) Driver \<Rightarrow> ('t, 's, 'x, unit) outcome" where
  "drive env raw started now wake d =
     map_option (\<lambda>(_, fx, d). (Inr (), fx, d)) (pump_once env raw now (started + 200 * 10 ^ 6) wake d)"

definition drop_connection :: "('t, 's, 'x) Driver \<Rightarrow> ('t, 's, 'x) Driver" where
  "drop_connection d =
     (let c = dr_conn d in
      if state (life c) = Closed then d else d\<lparr>dr_conn := c\<lparr>life := close_connection 0 [] (life c)\<rparr>\<rparr>)"

end
