(* ===== verification/Packet_Roundtrip.thy ===== *)
theory Packet_Roundtrip
  imports Packets
begin

text \<open>
  What a peer reads back from the packets of \<^verbatim>\<open>packet.rs\<close>: a built packet parses to the
  fields and the payload it was built from, Version Negotiation and Retry packets decode to
  what was encoded, and the routing fields agree with the builders.
\<close>

section \<open>Short packets\<close>

lemma effective_payload_16:
  "hk_sample_len hk = 16 \<Longrightarrow> effective_payload hk len payload = payload @ replicate (4 - len - length payload) 0"
  by (auto simp add: effective_payload_def min_plaintext_def HP_SAMPLE_OFFSET_def Let_def)

text \<open>The bytes of a built short packet, with its clear first byte \<open>f\<close> and packet number field
  \<open>pnb\<close>.\<close>

lemma build_short_image:
  assumes pk: "packet_key_ok pk" and hk: "header_key_ok hk"
    and built: "build_short_packet pre p payload pk hk = (out, Inr n)"
    and window: "pn_in_window (bs_largest_acked p) largest (bs_packet_number p)"
  defines "len \<equiv> packet_number_len (bs_packet_number p) (bs_largest_acked p)"
  obtains f pnb f' pnb' body where "out = pre @ f' # bs_dcid p @ pnb' @ body"
    and "length pnb' = length pnb" and "length pnb = unat (f AND 0x03) + 1" and "length pnb \<le> 4"
    and "protected_packet pk hk (bs_packet_number p) f (bs_dcid p) pnb (effective_payload hk len payload) f' pnb' body"
    and "decode_packet_number largest (be_value pnb) (length pnb) = bs_packet_number p"
    and "(f AND 0x04 \<noteq> 0) = bs_key_phase p"
    and "length out = length pre + 1 + length (bs_dcid p) + length pnb + length body"
proof (rule build_short_protects [OF pk hk built])
  fix f' pnb' body
  assume out: "out = pre @ f' # bs_dcid p @ pnb' @ body"
    and len': "length pnb' = packet_number_len (bs_packet_number p) (bs_largest_acked p)"
    and prot: "protected_packet pk hk (bs_packet_number p)
        (short_first p (packet_number_len (bs_packet_number p) (bs_largest_acked p))) (bs_dcid p)
        (encode_packet_number (bs_packet_number p) (packet_number_len (bs_packet_number p) (bs_largest_acked p)))
        (effective_payload hk (packet_number_len (bs_packet_number p) (bs_largest_acked p)) payload) f' pnb' body"
  define pnb where "pnb = encode_packet_number (bs_packet_number p) len"
  have pnb: "length pnb = len" by (simp add: pnb_def len_def)
  show thesis
  proof (rule that [of f' pnb' body pnb "short_first p len"])
    show "out = pre @ f' # bs_dcid p @ pnb' @ body" by (rule out)
    show "length pnb' = length pnb" by (simp add: len' pnb len_def)
    show "length pnb = unat (short_first p len AND 0x03) + 1"
      using short_first_bits(1) [of p "bs_packet_number p" "bs_largest_acked p"] by (simp add: pnb len_def)
    show "length pnb \<le> 4" using packet_number_len_bounds(2) by (simp add: pnb len_def)
    show "protected_packet pk hk (bs_packet_number p) (short_first p len) (bs_dcid p) pnb
        (effective_payload hk len payload) f' pnb' body"
      using prot by (simp add: pnb_def len_def)
    show "decode_packet_number largest (be_value pnb) (length pnb) = bs_packet_number p"
      using pn_in_window_decodes [OF window] by (simp add: pnb pnb_def len_def)
    show "(short_first p len AND 0x04 \<noteq> 0) = bs_key_phase p"
      unfolding len_def by (rule short_first_bits(3))
    show "length out = length pre + 1 + length (bs_dcid p) + length pnb + length body"
      using len' by (simp add: out pnb len_def)
  qed
qed

lemma get_slice_dcid:
  "get_slice (length pre + 1) (length pre + 1 + length dcid) (pre @ x # dcid @ y) = Some dcid"
  using slice_append [of "pre @ [x]" dcid y] by (simp add: get_slice_def)

text \<open>What \<open>parse_short_packet\<close> gives for a packet built from \<open>p\<close> and \<open>payload\<close>.\<close>

definition short_packet_result :: "BuildShort \<Rightarrow> HeaderProtectionKey \<Rightarrow> bytes \<Rightarrow> bytes \<Rightarrow> ParsedPacket" where
  "short_packet_result p hk payload out =
     \<lparr>pp_packet_type = PT_Short, pp_scid = [], pp_dcid = bs_dcid p, pp_packet_number = bs_packet_number p,
      pp_payload = effective_payload hk (packet_number_len (bs_packet_number p) (bs_largest_acked p)) payload,
      pp_consumed = length out, pp_key_phase = bs_key_phase p\<rparr>"

lemma parse_short_inverts:
  assumes pk: "packet_key_ok pk" and hk: "header_key_ok hk"
    and "build_short_packet pre p payload pk hk = (out, Inr n)"
    and "pn_in_window (bs_largest_acked p) largest (bs_packet_number p)"
  shows "parse_short_packet out (length pre) (length (bs_dcid p)) largest pk hk
    = Inr (short_packet_result p hk payload out)"
proof (rule build_short_image [OF assms])
  fix f pnb f' pnb' body
  assume out: "out = pre @ f' # bs_dcid p @ pnb' @ body" and len': "length pnb' = length pnb"
    and bits: "length pnb = unat (f AND 0x03) + 1" "length pnb \<le> 4" "(f AND 0x04 \<noteq> 0) = bs_key_phase p"
    and prot: "protected_packet pk hk (bs_packet_number p) f (bs_dcid p) pnb (effective_payload hk
      (packet_number_len (bs_packet_number p) (bs_largest_acked p)) payload) f' pnb' body"
    and dec: "decode_packet_number largest (be_value pnb) (length pnb) = bs_packet_number p"
    and whole: "length out = length pre + 1 + length (bs_dcid p) + length pnb + length body"
  have "get_slice (length pre + 1) (length pre + 1 + length (bs_dcid p)) out = Some (bs_dcid p)"
    unfolding out by (rule get_slice_dcid)
  moreover note unprotect_inverts [OF pk hk bits(1,2) prot len' dec whole, of "[]"]
  ultimately show ?thesis
    using bits(3) whole unfolding parse_short_packet_def short_packet_result_def
    by (simp add: ok_or_def flip: out)
qed

lemma key_update_path_inverts:
  assumes pk: "packet_key_ok pk" and hk: "header_key_ok hk"
    and "build_short_packet pre p payload pk hk = (out, Inr n)"
    and "pn_in_window (bs_largest_acked p) largest (bs_packet_number p)"
  shows "\<exists>d first. strip_short_header_protection out (length pre) (length (bs_dcid p)) hk
            = Inr (d, bs_key_phase p, first)
          \<and> decrypt_short_packet_body d (length pre) (length (bs_dcid p)) largest pk
            = Inr (short_packet_result p hk payload out)"
proof (rule build_short_image [OF assms])
  fix f pnb f' pnb' body
  assume out: "out = pre @ f' # bs_dcid p @ pnb' @ body" and len': "length pnb' = length pnb"
    and bits: "length pnb = unat (f AND 0x03) + 1" "length pnb \<le> 4" "(f AND 0x04 \<noteq> 0) = bs_key_phase p"
    and prot: "protected_packet pk hk (bs_packet_number p) f (bs_dcid p) pnb (effective_payload hk
      (packet_number_len (bs_packet_number p) (bs_largest_acked p)) payload) f' pnb' body"
    and dec: "decode_packet_number largest (be_value pnb) (length pnb) = bs_packet_number p"
    and whole: "length out = length pre + 1 + length (bs_dcid p) + length pnb + length body"
  define d where "d = pre @ f # bs_dcid p @ pnb @ body"
  have d: "length d = length out" "d ! length pre = f" by (simp_all add: d_def whole)
  have "4 - length pnb + hk_sample_len hk \<le> length body"
    using prot by (simp add: protected_packet_def)
  then have "length pre + 1 + length (bs_dcid p) + 4 + hk_sample_len hk \<le> length out"
    using bits(2) whole by simp
  from remove_protection_inverts [OF hk bits(1,2) prot len' this, of "[]"]
  have "strip_short_header_protection out (length pre) (length (bs_dcid p)) hk = Inr (d, bs_key_phase p, f)"
    using d(2) bits(3) whole by (simp add: strip_short_header_protection_def out d_def)
  moreover have "get_slice (length pre + 1) (length pre + 1 + length (bs_dcid p)) d = Some (bs_dcid p)"
    unfolding d_def by (rule get_slice_dcid)
  then have "decrypt_short_packet_body d (length pre) (length (bs_dcid p)) largest pk
      = Inr (short_packet_result p hk payload out)"
    using open_payload_inverts [OF pk bits(1) prot dec, of pre "[]"] d bits(1,3) whole
    unfolding decrypt_short_packet_body_def short_packet_result_def
    by (simp add: ok_or_def Let_def flip: d_def)
  ultimately show ?thesis by blast
qed

section \<open>Long packets\<close>

definition long_encodable :: "BuildLong \<Rightarrow> bool" where
  "long_encodable p \<longleftrightarrow> 0 < bl_version p \<and> bl_version p < 2 ^ 32
     \<and> length (bl_dcid p) \<le> 20 \<and> length (bl_scid p) \<le> 20 \<and> length (bl_token p) \<le> VARINT_MAX"

lemma reads_long_header_fields:
  assumes ok: "long_encodable p" and len: "len \<le> VARINT_MAX"
    and type: "from_first_byte_and_version f (bl_version p) = packet_type_of (bl_long_type p)"
  shows "reads (long_header_fields f) (f # long_mid p len)
    (packet_type_of (bl_long_type p), bl_version p, bl_dcid p, bl_scid p, len)"
proof -
  have last: "reads (bind_d (pe get_varint) (\<lambda>len. return_d (t, v, dcid, scid, len))) (put_varint len)
      (t, v, dcid, scid, len)" for t :: PacketType and v :: nat and dcid scid :: bytes
    using reads_pe_varint [OF len reads_return] by simp
  show ?thesis
  proof (cases "bl_long_type p = LongInitial")
    case True
    have token: "reads (bind_d (pe get_varint) (\<lambda>token_len. bind_d (pe (get_bytes token_len)) (\<lambda>_. return_d ())))
        (put_varint (length (bl_token p)) @ bl_token p) ()"
    proof (rule reads_pe_varint)
      show "length (bl_token p) \<le> VARINT_MAX" using ok by (simp add: long_encodable_def)
      show "reads (bind_d (pe (get_bytes (length (bl_token p)))) (\<lambda>_. return_d ())) (bl_token p) ()"
        using reads_pe_bytes [OF refl reads_return, of "bl_token p" "\<lambda>_. ()"] by simp
    qed
    show ?thesis
      using True type ok reads_bind [OF token last]
      unfolding long_header_fields_def long_mid_def long_encodable_def
      by (auto intro!: reads_pe_u8 reads_pe_u32 reads_pe_bytes)
  next
    case False
    then have "packet_type_of (bl_long_type p) \<noteq> PT_Initial" by (cases "bl_long_type p") simp_all
    then show ?thesis
      using False type ok reads_bind [OF reads_return last]
      unfolding long_header_fields_def long_mid_def long_encodable_def
      by (auto intro!: reads_pe_u8 reads_pe_u32 reads_pe_bytes)
  qed
qed

lemma parse_long_header_reads:
  assumes "long_encodable p" and "len \<le> VARINT_MAX"
    and "from_first_byte_and_version f (bl_version p) = packet_type_of (bl_long_type p)"
    and d: "d = pre @ f # long_mid p len @ tail" and "len \<le> length tail" and "length d \<le> U64_MAX"
  shows "parse_long_header d (length pre) f =
    Inr \<lparr>lh_packet_type = packet_type_of (bl_long_type p), lh_version = bl_version p,
         lh_scid = bl_scid p, lh_dcid = bl_dcid p,
         lh_pn_offset = length pre + 1 + length (long_mid p len),
         lh_packet_end = length pre + 1 + length (long_mid p len) + len\<rparr>"
proof -
  have "long_header_fields f (Buf_new (f # long_mid p len @ tail)) =
      Inr ((packet_type_of (bl_long_type p), bl_version p, bl_dcid p, bl_scid p, len),
           advance (1 + length (long_mid p len)) (Buf_new (f # long_mid p len @ tail)))"
    using reads_long_header_fields [OF assms(1-3)] assms(6) unfolding reads_def
    by (auto simp add: d)
  then show ?thesis
    using assms(5,6)
    by (simp add: parse_long_header_def d advance_def Buf_new_def Let_def checked_add_def ok_or_def)
qed

lemma build_long_image:
  assumes pk: "packet_key_ok pk" and hk: "header_key_ok hk"
    and built: "build_long_packet pre p payload pk hk = (out, Inr n)"
    and window: "pn_in_window (bl_largest_acked p) largest (bl_packet_number p)"
    and version: "0 < bl_version p"
  defines "len \<equiv> packet_number_len (bl_packet_number p) (bl_largest_acked p)"
  defines "mid \<equiv> long_mid p (len + length payload + 16)"
  obtains f pnb f' pnb' body where "out = pre @ f' # mid @ pnb' @ body"
    and "length pnb = len" and "length pnb' = length pnb"
    and "length pnb = unat (f AND 0x03) + 1" and "length pnb \<le> 4"
    and "protected_packet pk hk (bl_packet_number p) f mid pnb (effective_payload hk len payload) f' pnb' body"
    and "decode_packet_number largest (be_value pnb) (length pnb) = bl_packet_number p"
    and "from_first_byte_and_version f' (bl_version p) = packet_type_of (bl_long_type p)"
    and "n = length out - length pre"
proof -
  define pnb where "pnb = encode_packet_number (bl_packet_number p) len"
  define f where "f = long_first p len"
  have pnb: "length pnb = len" by (simp add: pnb_def len_def)
  have bits: "length pnb = unat (f AND 0x03) + 1" "f AND 0x80 = 0x80" and len4: "length pnb \<le> 4"
    using long_first_bits(1,2) [of p "bl_packet_number p" "bl_largest_acked p"]
      packet_number_len_bounds(2) by (simp_all add: pnb f_def len_def)
  have "pk_tag_len pk = 16" using pk by (simp add: packet_key_ok_def)
  then have run: "finish_packet (pre @ f # mid @ pnb) \<lparr>pl_start = length pre,
        pl_pn_offset = length pre + 1 + length mid, pl_pn_len = length pnb,
        pl_packet_number = bl_packet_number p\<rparr> payload pk hk = (out, Inr ())"
    and n: "n = length out - length pre"
    using built by (auto simp add: build_long_packet_def Let_def pnb_def f_def len_def mid_def
        bind_result_def split: prod.splits sum.splits if_splits)
  obtain f' pnb' body where out: "out = pre @ f' # mid @ pnb' @ body" and len': "length pnb' = length pnb"
    and prot: "protected_packet pk hk (bl_packet_number p) f mid pnb (effective_payload hk len payload) f' pnb' body"
    using finish_packet_protects [OF pk hk bits(1) len4 run] pnb by metis
  have "f' AND 0xf0 = f AND 0xf0"
    using prot hk bits unfolding protected_packet_def header_key_ok_def by blast
  then have "from_first_byte_and_version f' (bl_version p) = packet_type_of (bl_long_type p)"
    using masked_long_type version by (simp add: f_def len_def)
  moreover have "decode_packet_number largest (be_value pnb) (length pnb) = bl_packet_number p"
    using pn_in_window_decodes [OF window] by (simp add: pnb pnb_def len_def)
  ultimately show thesis using that out pnb len' bits(1) len4 prot n by blast
qed

lemma parse_built_header:
  assumes ok: "long_encodable p" and size: "length (out @ post) \<le> VARINT_MAX"
    and type: "from_first_byte_and_version f (bl_version p) = packet_type_of (bl_long_type p)"
    and out: "out = pre @ f # long_mid p len @ field @ body" and len: "len \<le> length field + length body"
  shows "parse_long_header (out @ post) (length pre) f =
    Inr \<lparr>lh_packet_type = packet_type_of (bl_long_type p), lh_version = bl_version p,
         lh_scid = bl_scid p, lh_dcid = bl_dcid p,
         lh_pn_offset = length pre + 1 + length (long_mid p len),
         lh_packet_end = length pre + 1 + length (long_mid p len) + len\<rparr>"
proof (rule parse_long_header_reads [OF ok _ type])
  show "len \<le> VARINT_MAX" using len size by (simp add: out)
  show "out @ post = pre @ f # long_mid p len @ field @ body @ post" by (simp add: out)
  show "len \<le> length (field @ body @ post)" using len by simp
  show "length (out @ post) \<le> U64_MAX" using size by (simp add: VARINT_MAX_def U64_MAX_def)
qed

lemma parse_long_inverts:
  assumes pk: "packet_key_ok pk" and hk: "header_key_ok hk" and sample: "hk_sample_len hk = 16"
    and built: "build_long_packet pre p payload pk hk = (out, Inr n)"
    and window: "pn_in_window (bl_largest_acked p) largest (bl_packet_number p)"
    and ok: "long_encodable p" and size: "length (out @ post) \<le> VARINT_MAX"
    and enough: "4 \<le> packet_number_len (bl_packet_number p) (bl_largest_acked p) + length payload"
  shows "parse_long_packet (out @ post) (length pre) (bl_version p) largest pk hk =
    Inr \<lparr>pp_packet_type = packet_type_of (bl_long_type p), pp_scid = bl_scid p, pp_dcid = bl_dcid p,
         pp_packet_number = bl_packet_number p, pp_payload = payload, pp_consumed = length out,
         pp_key_phase = False\<rparr>"
proof -
  have version: "0 < bl_version p" using ok by (simp add: long_encodable_def)
  define len where "len = packet_number_len (bl_packet_number p) (bl_largest_acked p)"
  define mid where "mid = long_mid p (len + length payload + 16)"
  show ?thesis
  proof (rule build_long_image [OF pk hk built window version], unfold len_def [symmetric] mid_def [symmetric])
    fix f pnb f' pnb' body
    assume out: "out = pre @ f' # mid @ pnb' @ body" and pnb: "length pnb = len"
      and len': "length pnb' = length pnb" and bits: "length pnb = unat (f AND 0x03) + 1" "length pnb \<le> 4"
      and prot: "protected_packet pk hk (bl_packet_number p) f mid pnb (effective_payload hk len payload) f' pnb' body"
      and dec: "decode_packet_number largest (be_value pnb) (length pnb) = bl_packet_number p"
      and type: "from_first_byte_and_version f' (bl_version p) = packet_type_of (bl_long_type p)"
    have plain: "effective_payload hk len payload = payload"
      using effective_payload_16 [OF sample] enough by (simp add: len_def)
    have body: "length body = length payload + 16"
      using prot plain by (simp add: protected_packet_def)
    have whole: "length out = length pre + 1 + length mid + length pnb + length body"
      using len' by (simp add: out)
    have pend: "length pre + 1 + length mid + (len + length payload + 16) = length out"
      using whole pnb body by simp
    have "len + length payload + 16 \<le> length pnb' + length body" using len' pnb body by simp
    from parse_built_header [OF ok size type out [unfolded mid_def] this, folded mid_def, unfolded pend]
    have header: "parse_long_header (out @ post) (length pre) f' =
        Inr \<lparr>lh_packet_type = packet_type_of (bl_long_type p), lh_version = bl_version p,
             lh_scid = bl_scid p, lh_dcid = bl_dcid p, lh_pn_offset = length pre + 1 + length mid,
             lh_packet_end = length out\<rparr>" .
    have first: "(out @ post) ! length pre = f'" and inside: "length pre < length (out @ post)"
      by (simp_all add: out)
    have "unprotect_and_decrypt (out @ post) (length pre) (length pre + 1 + length mid) (length out)
        largest pk hk = Inr (bl_packet_number p, payload, f)"
      using unprotect_inverts [OF pk hk bits prot len' dec whole, of post] plain by (simp add: out)
    then show ?thesis
      using header first inside unfolding parse_long_packet_def by simp
  qed
qed

lemma parse_long_too_short:
  assumes pk: "packet_key_ok pk" and hk: "header_key_ok hk" and sample: "hk_sample_len hk = 16"
    and built: "build_long_packet pre p payload pk hk = (out, Inr n)"
    and window: "pn_in_window (bl_largest_acked p) largest (bl_packet_number p)"
    and ok: "long_encodable p" and size: "length (out @ post) \<le> VARINT_MAX"
    and short: "packet_number_len (bl_packet_number p) (bl_largest_acked p) + length payload < 4"
  shows "parse_long_packet (out @ post) (length pre) (bl_version p) largest pk hk = Inl Truncated"
proof -
  have version: "0 < bl_version p" using ok by (simp add: long_encodable_def)
  define len where "len = packet_number_len (bl_packet_number p) (bl_largest_acked p)"
  define mid where "mid = long_mid p (len + length payload + 16)"
  show ?thesis
  proof (rule build_long_image [OF pk hk built window version], unfold len_def [symmetric] mid_def [symmetric])
    fix f pnb f' pnb' body
    assume out: "out = pre @ f' # mid @ pnb' @ body" and pnb: "length pnb = len"
      and len': "length pnb' = length pnb"
      and prot: "protected_packet pk hk (bl_packet_number p) f mid pnb (effective_payload hk len payload) f' pnb' body"
      and type: "from_first_byte_and_version f' (bl_version p) = packet_type_of (bl_long_type p)"
    have body: "length body = length (effective_payload hk len payload) + 16"
      using prot by (simp add: protected_packet_def)
    then have body': "length payload + 16 \<le> length body"
      by (simp add: effective_payload_16 [OF sample])
    have "len + length payload + 16 \<le> length pnb' + length body" using len' pnb body' by simp
    from parse_built_header [OF ok size type out [unfolded mid_def] this, folded mid_def]
    have "parse_long_header (out @ post) (length pre) f' =
        Inr \<lparr>lh_packet_type = packet_type_of (bl_long_type p), lh_version = bl_version p,
             lh_scid = bl_scid p, lh_dcid = bl_dcid p, lh_pn_offset = length pre + 1 + length mid,
             lh_packet_end = length pre + 1 + length mid + (len + length payload + 16)\<rparr>" .
    moreover have "(out @ post) ! length pre = f'" "length pre < length out" by (simp_all add: out)
    ultimately show ?thesis
      using short sample
      by (simp add: parse_long_packet_def unprotect_and_decrypt_def remove_protection_def
          HP_SAMPLE_OFFSET_def len_def)
  qed
qed

section \<open>Version Negotiation and Retry\<close>

interpretation be32: wire_codec to_be_bytes32 "pe get_u32" "\<lambda>v. v < 2 ^ 32"
  by unfold_locales (simp add: reads_map_err reads_get_u32)

lemma concat_be32_length: "length (concat (map to_be_bytes32 vs)) = 4 * length vs"
  by (induction vs) simp_all

lemma reads_versions:
  assumes "list_all (\<lambda>v. v < 2 ^ 32) vs" and "buf_ok b" and "rest b = concat (map to_be_bytes32 vs)"
  shows "repeat_d (remaining b div 4) (pe get_u32) b = Inr (vs, advance (4 * length vs) b)"
    and "remaining b mod 4 = 0"
proof -
  have "remaining b = 4 * length vs"
    using length_rest [OF assms(2)] assms(3) by (simp add: concat_be32_length)
  then show "remaining b mod 4 = 0" "repeat_d (remaining b div 4) (pe get_u32) b = Inr (vs, advance (4 * length vs) b)"
    using be32.reads_repeat [OF assms(1)] assms(2,3) unfolding reads_def
    by (simp_all add: concat_be32_length)
qed

text \<open>A decoder whose last step reads the remaining bytes of the datagram.\<close>

definition finishes :: "('e, 'a) decoder \<Rightarrow> bytes \<Rightarrow> 'a \<Rightarrow> bool" where
  "finishes p enc x \<longleftrightarrow> (\<forall>b. buf_ok b \<longrightarrow> rest b = enc \<longrightarrow> (\<exists>b'. p b = Inr (x, b')))"

lemma finishes_bind:
  assumes "reads p enc x" and "finishes (f x) enc' y"
  shows "finishes (bind_d p f) (enc @ enc') y"
  unfolding finishes_def
proof (intro allI impI)
  fix b
  assume b: "buf_ok b" "rest b = enc @ enc'"
  then have "p b = Inr (x, advance (length enc) b)" using assms(1) by (auto simp add: reads_def)
  moreover have "\<exists>b'. f x (advance (length enc) b) = Inr (y, b')"
    using assms(2) buf_ok_advance [OF b] rest_advance [OF b(2)] by (simp add: finishes_def)
  ultimately show "\<exists>b'. bind_d p f b = Inr (y, b')" by (auto simp add: bind_d_def)
qed

lemma finishes_u8: "finishes (f x) enc y \<Longrightarrow> finishes (bind_d (pe get_u8) f) (x # enc) y"
  using finishes_bind [OF reads_map_err [OF reads_get_u8]] by fastforce

lemma finishes_u32: "v < 2 ^ 32 \<Longrightarrow> finishes (f v) enc y \<Longrightarrow> finishes (bind_d (pe get_u32) f) (to_be_bytes32 v @ enc) y"
  by (rule finishes_bind [OF reads_map_err [OF reads_get_u32]])

lemma finishes_bytes:
  "n = length data \<Longrightarrow> finishes (f data) enc y \<Longrightarrow> finishes (bind_d (pe (get_bytes n)) f) (data @ enc) y"
  by (simp add: finishes_bind [OF reads_map_err [OF reads_get_bytes]])

lemma finishes_versions:
  assumes "list_all (\<lambda>v. v < 2 ^ 32) vs"
  shows "finishes (\<lambda>buf. if remaining buf mod 4 \<noteq> 0 then Inl Truncated
       else repeat_d (remaining buf div 4) (pe get_u32) buf) (concat (map to_be_bytes32 vs)) vs"
  using reads_versions [OF assms] by (simp add: finishes_def)

lemma version_negotiation_finishes:
  assumes "list_all (\<lambda>v. v < 2 ^ 32) vs" and "length scid \<le> 255" and "length dcid \<le> 255"
  shows "finishes version_negotiation_fields (encode_version_negotiation scid dcid vs) vs"
  using assms finishes_versions [OF assms(1)] finishes_u32 [of 0]
  unfolding version_negotiation_fields_def encode_version_negotiation_def
  by (auto intro!: finishes_u8 finishes_u32 [of 0, simplified] finishes_bytes)

lemma reads_vn_dcid:
  assumes "length scid \<le> 255"
  shows "reads (long_dcid_fields 0x80) ([0x80] @ to_be_bytes32 0 @ [word_of_nat (length scid)] @ scid)
    (PT_VersionNegotiation, scid)"
proof -
  have last: "reads (bind_d (pe (get_bytes (length scid))) (\<lambda>dcid. return_d (PT_VersionNegotiation, dcid)))
      scid (PT_VersionNegotiation, scid)"
    using reads_pe_bytes [OF refl reads_return, of scid "\<lambda>dcid. (PT_VersionNegotiation, dcid)"] by simp
  have "from_first_byte_and_version 0x80 0 = PT_VersionNegotiation"
    by (simp add: from_first_byte_and_version_def)
  then show ?thesis
    unfolding long_dcid_fields_def using assms last
    by (auto intro!: reads_pe_u8 reads_pe_u32 [of 0, simplified] reads_pe_bytes)
qed

lemma diff_fold_zero:
  "length xs = length ys \<Longrightarrow>
   foldl (\<lambda>diff (a, b). diff OR (a XOR b)) d (zip xs ys) = (0 :: u8) \<longleftrightarrow> d = 0 \<and> xs = ys"
proof (induction xs ys arbitrary: d rule: list_induct2)
  case (Cons x xs y ys)
  have "d OR (x XOR y) = 0 \<longleftrightarrow> d = 0 \<and> x = y"
    by (metis or_eq_0_iff xor_self_eq xor.assoc xor.right_neutral xor.left_neutral)
  then show ?case using Cons.IH [of "d OR (x XOR y)"] by auto
qed simp

lemma verify_retry_iff:
  "verify_retry_integrity_tag gcm odcid pkt \<longleftrightarrow>
     16 \<le> length pkt \<and>
     compute_retry_integrity_tag gcm odcid (take (length pkt - 16) pkt) = Some (drop (length pkt - 16) pkt)"
proof (cases "compute_retry_integrity_tag gcm odcid (take (length pkt - 16) pkt)")
  case (Some tag)
  then have "length tag = 16"
    by (auto simp add: compute_retry_integrity_tag_def Let_def split: option.splits if_splits)
  then show ?thesis
    using Some diff_fold_zero [of tag "drop (length pkt - 16) pkt" 0]
    by (auto simp add: verify_retry_integrity_tag_def Let_def)
qed (simp add: verify_retry_integrity_tag_def Let_def)

lemma reads_retry_fields:
  assumes "length scid \<le> 255" and "length dcid \<le> 255"
  shows "reads retry_fields ([0xf1] @ to_be_bytes32 1 @ [word_of_nat (length dcid)] @ dcid
       @ [word_of_nat (length scid)] @ scid) (dcid, scid)"
proof -
  have last: "reads (bind_d (pe (get_bytes (length scid))) (\<lambda>scid. return_d (dcid, scid))) scid (dcid, scid)"
    using reads_pe_bytes [OF refl reads_return, of scid "\<lambda>scid. (dcid, scid)"] by simp
  show ?thesis
    unfolding retry_fields_def using assms
    by (auto intro!: reads_pe_u8 reads_pe_u32 [of 1, simplified] reads_pe_bytes last)
qed

lemma parse_retry_encoded:
  assumes "length scid \<le> 255" and "length dcid \<le> 255"
    and enc: "encode_retry_packet gcm scid dcid odcid token = Some pkt" and "length pkt \<le> U64_MAX"
  shows "parse_retry_packet pkt = Some (scid, dcid, token)" and "verify_retry_integrity_tag gcm odcid pkt"
proof -
  define hdr where "hdr = [0xf1] @ to_be_bytes32 1 @ [word_of_nat (length dcid)] @ dcid
       @ [word_of_nat (length scid)] @ scid"
  obtain tag where pkt: "pkt = hdr @ token @ tag"
    and tag: "compute_retry_integrity_tag gcm odcid (hdr @ token) = Some tag"
    using enc by (auto simp add: encode_retry_packet_def hdr_def Let_def split: option.splits)
  then have len: "length tag = 16"
    by (auto simp add: compute_retry_integrity_tag_def Let_def split: option.splits if_splits)
  then show "verify_retry_integrity_tag gcm odcid pkt"
    using tag by (simp add: verify_retry_iff pkt)
  have "retry_fields (Buf_new pkt) = Inr ((dcid, scid), advance (length hdr) (Buf_new pkt))"
    using reads_retry_fields [OF assms(1,2)] assms(4) unfolding reads_def hdr_def [symmetric]
    by (auto simp add: pkt)
  moreover have "7 \<le> length hdr" by (simp add: hdr_def)
  ultimately show "parse_retry_packet pkt = Some (scid, dcid, token)"
    using len by (simp add: parse_retry_packet_def Let_def pkt advance_def Buf_new_def slice_def)
qed

section \<open>Properties\<close>

text \<open>
  Primitives for the witnesses: the block ciphers return their input, the keystream is constant,
  and sealing flips the bits of the payload under an all-zero tag.
\<close>

definition demo_tag :: bytes where
  "demo_tag = [0, 0, 0, 0, 0, 0, 0, 0, 0, 0, 0, 0, 0, 0, 0, 0]"

definition demo_primitives :: primitives where
  "demo_primitives =
     \<lparr>aes128_encrypt_block = (\<lambda>k s. if length s = 16 then Some s else None),
      aes256_encrypt_block = (\<lambda>k s. if length s = 16 then Some s else None),
      chacha20_keystream_block = (\<lambda>k c s n. Some (replicate n 0x5a)),
      key_valid = (\<lambda>kind key. length key = 16),
      encrypt_detached = (\<lambda>kind key n h p. Some (map (\<lambda>b. b XOR 0x55) p, demo_tag)),
      decrypt_detached = (\<lambda>kind key n h ct tag.
        if tag = demo_tag then Some (map (\<lambda>b. b XOR 0x55) ct) else None),
      nonce_new = (\<lambda>iv pn. iv)\<rparr>"

definition demo_short :: BuildShort where
  "demo_short = \<lparr>bs_dcid = [1, 2, 3], bs_packet_number = 70000, bs_largest_acked = Some 69990, bs_key_phase = True\<rparr>"

definition demo_long :: BuildLong where
  "demo_long = \<lparr>bl_long_type = LongInitial, bl_version = 1, bl_dcid = [1, 2, 3], bl_scid = [4, 5],
     bl_token = [9], bl_packet_number = 0, bl_largest_acked = None\<rparr>"

definition demo_pk :: PacketKey where
  "demo_pk = algorithm_packet_key demo_primitives AES128_GCM (replicate 16 7) (replicate 12 3)"

definition demo_hk :: HeaderProtectionKey where
  "demo_hk = algorithm_header_key demo_primitives AES128_GCM (replicate 16 8)"

definition demo_gcm :: gcm where
  "demo_gcm key nonce msg aad = Some (msg @ replicate 16 (foldr (\<lambda>a b. a XOR b) aad 0))"

lemma demo_primitives_ok: "primitives_ok demo_primitives"
  by (auto simp add: primitives_ok_def demo_primitives_def demo_tag_def SAMPLE_LEN_def TAG_LEN_def xor.assoc comp_def
      split: if_splits)

lemmas demo_eval = demo_tag_def demo_short_def demo_long_def demo_pk_def demo_hk_def demo_primitives_def
  algorithm_packet_key_def algorithm_header_key_def packet_key_of_def header_protection_key_def
  QuicPacketKey_new_def AES128_GCM_def seal_def hp_mask_def xor_in_place_def
  SAMPLE_LEN_def MASK_LEN_def TAG_LEN_def

lemmas build_eval = build_short_packet_def build_long_packet_def finish_packet_def protect_header_def
  effective_payload_def min_plaintext_def HP_SAMPLE_OFFSET_def get_slice_def slice_def overwrite_def
  encode_packet_number_def short_first_def long_first_def long_mid_def
  to_be_bytes32_def put_varint_def varint_size_def VARINT_MAX_def

lemmas pn_len_eval = packet_number_len_def sat_mul_def sat_add_def U64_MAX_def Let_def

lemma demo_short_len: "packet_number_len (bs_packet_number demo_short) (bs_largest_acked demo_short) = 1"
  by (simp add: pn_len_eval demo_short_def)

lemma demo_short_built:
  "\<exists>out. build_short_packet [0xff] demo_short [1] demo_pk demo_hk = (out, Inr 24) \<and> length out = 25"
  unfolding build_short_packet_def demo_short_len
  by (simp add: demo_eval build_eval Let_def numeral_2_eq_2)

lemma demo_long_len: "packet_number_len (bl_packet_number demo_long) (bl_largest_acked demo_long) = 1"
  by (simp add: pn_len_eval demo_long_def)

lemma demo_long_built:
  "\<exists>out. build_long_packet [0xff] demo_long [6, 1, 2, 3] demo_pk demo_hk = (out, Inr 36) \<and> length out = 37"
  unfolding build_long_packet_def demo_long_len
  by (simp add: demo_eval build_eval Let_def)

lemma replicate_2: "replicate 2 x = [x, x]"
  by (simp add: numeral_2_eq_2)

lemma demo_ping_built:
  "\<exists>out. build_long_packet [] demo_long [1] demo_pk demo_hk = (out, Inr 35) \<and> length out = 35"
  unfolding build_long_packet_def demo_long_len
  by (simp add: demo_eval build_eval Let_def replicate_2)

text \<open>
  C13.  A short-header packet built with the keys of a cipher suite parses to what it was built
  from, in one step (\<open>parse_short_packet\<close>) and on the key-update path (strip the header
  protection, choose the key by the key phase bit, decrypt): the packet number, the connection
  ID, the key phase, and the payload followed by the PADDING that makes the header protection
  sample fit.
\<close>

theorem short_packet_roundtrip:
  assumes "primitives_ok prims"
    and "build_short_packet pre p payload (algorithm_packet_key prims a key iv) (algorithm_header_key prims a hp)
           = (out, Inr n)"
    and "pn_in_window (bs_largest_acked p) largest (bs_packet_number p)"
  shows "let pk = algorithm_packet_key prims a key iv;
             hk = algorithm_header_key prims a hp;
             len = packet_number_len (bs_packet_number p) (bs_largest_acked p);
             result = \<lparr>pp_packet_type = PT_Short, pp_scid = [], pp_dcid = bs_dcid p,
               pp_packet_number = bs_packet_number p,
               pp_payload = payload @ replicate (4 - len - length payload) 0,
               pp_consumed = length out, pp_key_phase = bs_key_phase p\<rparr>
         in parse_short_packet out (length pre) (length (bs_dcid p)) largest pk hk = Inr result
          \<and> (\<exists>d first. strip_short_header_protection out (length pre) (length (bs_dcid p)) hk
                = Inr (d, bs_key_phase p, first)
              \<and> decrypt_short_packet_body d (length pre) (length (bs_dcid p)) largest pk = Inr result)"
  using parse_short_inverts [OF key_laws_from_primitives(1,2) [OF assms(1)] assms(2,3)]
    key_update_path_inverts [OF key_laws_from_primitives(1,2) [OF assms(1)] assms(2,3)]
  unfolding Let_def short_packet_result_def
    effective_payload_16 [OF key_laws_from_primitives(3) [OF assms(1)]] by simp

theorem short_packet_roundtrip_witness:
  "\<exists>out. build_short_packet [0xff] demo_short [1] demo_pk demo_hk = (out, Inr 24)
     \<and> parse_short_packet out 1 3 (Some 69999) demo_pk demo_hk
       = Inr \<lparr>pp_packet_type = PT_Short, pp_scid = [], pp_dcid = [1, 2, 3], pp_packet_number = 70000,
              pp_payload = [1, 0, 0], pp_consumed = 25, pp_key_phase = True\<rparr>"
proof -
  obtain out where built: "build_short_packet [0xff] demo_short [1] demo_pk demo_hk = (out, Inr 24)"
    and "length out = 25"
    using demo_short_built by blast
  moreover have "pn_in_window (bs_largest_acked demo_short) (Some 69999) (bs_packet_number demo_short)"
    unfolding pn_in_window_def demo_short_len
    by (simp add: demo_short_def expected_pn_def VARINT_MAX_def)
  ultimately show ?thesis
    using short_packet_roundtrip [OF demo_primitives_ok built [unfolded demo_pk_def demo_hk_def], of "Some 69999"]
      built unfolding Let_def demo_short_len demo_pk_def [symmetric] demo_hk_def [symmetric]
    by (auto simp add: demo_short_def numeral_2_eq_2 numeral_3_eq_3)
qed



text \<open>
  C15.  A long-header packet whose packet number and payload have fewer than four bytes together
  is padded after its Length field is written, so the field does not cover the padding and the
  receiver rejects the packet as truncated: a PING on its own with a one-byte packet number
  cannot be read.
\<close>

theorem padded_long_packet_rejected:
  assumes "primitives_ok prims" and "long_encodable p"
    and "build_long_packet pre p payload (algorithm_packet_key prims a key iv) (algorithm_header_key prims a hp)
           = (out, Inr n)"
    and "pn_in_window (bl_largest_acked p) largest (bl_packet_number p)"
    and "packet_number_len (bl_packet_number p) (bl_largest_acked p) + length payload < 4"
    and "length (out @ post) \<le> VARINT_MAX"
  shows "parse_long_packet (out @ post) (length pre) (bl_version p) largest
      (algorithm_packet_key prims a key iv) (algorithm_header_key prims a hp) = Inl Truncated"
  by (rule parse_long_too_short [OF key_laws_from_primitives [OF assms(1)] assms(3,4,2,6,5)])

theorem padded_long_packet_rejected_witness:
  "\<exists>out. build_long_packet [] demo_long [1] demo_pk demo_hk = (out, Inr 35)
     \<and> parse_long_packet out 0 1 None demo_pk demo_hk = Inl Truncated"
proof -
  obtain out where built: "build_long_packet [] demo_long [1] demo_pk demo_hk = (out, Inr 35)"
    and len: "length out = 35"
    using demo_ping_built by blast
  have window: "pn_in_window (bl_largest_acked demo_long) None (bl_packet_number demo_long)"
    unfolding pn_in_window_def demo_long_len
    by (simp add: demo_long_def expected_pn_def VARINT_MAX_def)
  have ok: "long_encodable demo_long"
    by (simp add: long_encodable_def demo_long_def VARINT_MAX_def)
  have short: "packet_number_len (bl_packet_number demo_long) (bl_largest_acked demo_long)
      + length [1 :: u8] < 4" and size: "length (out @ []) \<le> VARINT_MAX"
    using len by (simp_all add: demo_long_len VARINT_MAX_def)
  show ?thesis
    using padded_long_packet_rejected [OF demo_primitives_ok ok built [unfolded demo_pk_def demo_hk_def] window short size]
      built by (auto simp add: demo_long_def demo_pk_def demo_hk_def)
qed

text \<open>
  C16.  A Retry packet verifies against the original destination connection ID it was made for
  and parses to the connection IDs and token it was made from; a packet verifies only when its
  last sixteen bytes are the tag of the rest, so no other tag passes.
\<close>

theorem retry_packet_roundtrip:
  assumes "length scid \<le> 255" and "length dcid \<le> 255"
    and "encode_retry_packet gcm scid dcid odcid token = Some pkt" and "length pkt \<le> U64_MAX"
  shows "parse_retry_packet pkt = Some (scid, dcid, token)
    \<and> verify_retry_integrity_tag gcm odcid pkt
    \<and> (\<forall>tag. verify_retry_integrity_tag gcm odcid (take (length pkt - 16) pkt @ tag) \<and> length tag = 16
          \<longrightarrow> tag = drop (length pkt - 16) pkt)"
  using parse_retry_encoded [OF assms] by (auto simp add: verify_retry_iff)

lemma demo_retry_built:
  "\<exists>pkt. encode_retry_packet demo_gcm [1] [2, 3] [4] [5] = Some pkt \<and> length pkt = 27"
  by (simp add: encode_retry_packet_def compute_retry_integrity_tag_def demo_gcm_def Let_def to_be_bytes32_def)

theorem retry_packet_roundtrip_witness:
  "\<exists>pkt. encode_retry_packet demo_gcm [1] [2, 3] [4] [5] = Some pkt \<and> parse_retry_packet pkt = Some ([1], [2, 3], [5])
     \<and> verify_retry_integrity_tag demo_gcm [4] pkt"
proof -
  obtain pkt where built: "encode_retry_packet demo_gcm [1] [2, 3] [4] [5] = Some pkt" and len: "length pkt = 27"
    using demo_retry_built by blast
  have "length [1 :: u8] \<le> 255" "length [2, 3 :: u8] \<le> 255" "length pkt \<le> U64_MAX"
    using len by (simp_all add: U64_MAX_def)
  from retry_packet_roundtrip [OF this(1,2) built this(3)] show ?thesis using built by blast
qed

text \<open>
  A Version Negotiation packet decodes to the versions it was built from, and the endpoint
  that receives it routes it by the client's source connection ID.
\<close>

theorem version_negotiation_roundtrip:
  assumes "list_all (\<lambda>v. v < 2 ^ 32) versions" and "length scid \<le> 255" and "length dcid \<le> 255"
    and "length (encode_version_negotiation scid dcid versions) \<le> U64_MAX"
  shows "decode_version_negotiation (encode_version_negotiation scid dcid versions) = Some versions
    \<and> peek_dcid (encode_version_negotiation scid dcid versions) n = Inr (PT_VersionNegotiation, scid)"
proof -
  define pkt where "pkt = encode_version_negotiation scid dcid versions"
  have "\<exists>b. version_negotiation_fields (Buf_new pkt) = Inr (versions, b)"
    using version_negotiation_finishes [OF assms(1-3)] assms(4) by (simp add: finishes_def pkt_def)
  then have "decode_version_negotiation pkt = Some versions"
    by (auto simp add: decode_version_negotiation_def ok_value_def)
  moreover have "\<exists>b. long_dcid_fields 0x80 (Buf_new pkt) = Inr ((PT_VersionNegotiation, scid), b)"
    using reads_vn_dcid [OF assms(2)] assms(4) unfolding reads_def pkt_def encode_version_negotiation_def
    by auto
  then have "peek_dcid pkt n = Inr (PT_VersionNegotiation, scid)"
    by (auto simp add: peek_dcid_def pkt_def encode_version_negotiation_def)
  ultimately show ?thesis by (simp add: pkt_def)
qed

theorem version_negotiation_roundtrip_witness:
  "decode_version_negotiation (encode_version_negotiation [1] [2, 3] [1, 0x6b3343cf]) = Some [1, 0x6b3343cf]
   \<and> peek_dcid (encode_version_negotiation [1] [2, 3] [1, 0x6b3343cf]) 0 = Inr (PT_VersionNegotiation, [1])"
  using version_negotiation_roundtrip [of "[1, 0x6b3343cf]" "[1]" "[2, 3]" 0]
  by (simp add: encode_version_negotiation_def U64_MAX_def)

end
