(* ===== verification/Conn_Exchange.thy ===== *)
theory Conn_Exchange
  imports Conn_Recv Packet_Roundtrip
begin

text \<open>
  Two connections and the 1-RTT packets between them: a packet that one end builds is opened by the other, in the
  current key phase and across a key update, and an application close reaches the peer.
\<close>

section \<open>Links\<close>

text \<open>Keys whose sealing never fails and that the other end can undo, as every suite of \<^verbatim>\<open>quic.rs\<close> gives for a key
  of the right length.\<close>

definition keys_ok :: "dir_keys \<Rightarrow> bool" where
  "keys_ok ks \<longleftrightarrow> packet_key_ok (dk_packet ks) \<and> header_key_ok (dk_header ks) \<and> hk_sample_len (dk_header ks) = 16
     \<and> (\<forall>pn h p. pk_encrypt (dk_packet ks) pn h p \<noteq> None)
     \<and> (\<forall>smp f field. length smp = 16 \<longrightarrow> length field \<le> 4 \<longrightarrow> hk_encrypt (dk_header ks) smp f field \<noteq> None)"

text \<open>\<open>link ks a b\<close>: \<open>a\<close> seals with \<open>ks\<close>, which \<open>b\<close> opens with, and addresses \<open>b\<close> by an ID of the length \<open>b\<close> issues.\<close>

definition link :: "dir_keys \<Rightarrow> ('t, 's, 'x) Connection \<Rightarrow> ('u, 'v, 'y) Connection \<Rightarrow> bool" where
  "link ks a b \<longleftrightarrow> local_keys (application (spaces a)) = Some ks
     \<and> remote_keys (application (spaces b)) = Some ks \<and> length (peer_cid (cids a)) = LOCAL_CID_LEN"

text \<open>The receiver can tell the full packet number from the bytes the sender puts in the packet.\<close>

definition number_known :: "u64 \<Rightarrow> ('t, 's, 'x) Connection \<Rightarrow> ('u, 'v, 'y) Connection \<Rightarrow> bool" where
  "number_known pn a b \<longleftrightarrow>
     pn_in_window (sp_largest_acked (application (spaces a))) (largest_received (application (spaces b))) pn"

section \<open>One packet\<close>

text \<open>What the other end reads from a packet \<open>pn\<close> with \<open>payload\<close>.\<close>

definition read_as :: "dir_keys \<Rightarrow> u64 \<Rightarrow> bytes \<Rightarrow> bytes \<Rightarrow> ('t, 's, 'x) Connection \<Rightarrow> ParsedPacket" where
  "read_as ks pn payload out a =
     short_packet_result
       \<lparr>bs_dcid = peer_cid (cids a), bs_packet_number = pn, bs_largest_acked = sp_largest_acked (application (spaces a)),
        bs_key_phase = key_phase (key_upd a)\<rparr> (dk_header ks) payload out"

lemma read_as_simps [simp]:
  "pp_packet_number (read_as ks pn payload out a) = pn" "pp_consumed (read_as ks pn payload out a) = length out"
  by (simp_all add: read_as_def short_packet_result_def)

lemma read_as_payload:
  assumes "keys_ok ks" and "3 \<le> length payload"
  shows "pp_payload (read_as ks pn payload out a) = payload"
  using assms packet_number_len_bounds(1) [of pn "sp_largest_acked (application (spaces a))"]
  by (simp add: read_as_def short_packet_result_def keys_ok_def effective_payload_16)

lemma build_packet_short:
  assumes "local_keys (application (spaces a)) = Some ks"
    and "build_packet ApplicationSpace pn payload pre a = Some (out, True)"
  obtains n where "build_short_packet pre
      \<lparr>bs_dcid = peer_cid (cids a), bs_packet_number = pn, bs_largest_acked = sp_largest_acked (application (spaces a)),
       bs_key_phase = key_phase (key_upd a)\<rparr> payload (dk_packet ks) (dk_header ks) = (out, Inr n)"
  using assms by (auto simp add: build_packet_def space_of_def is_ok_def Let_def split: prod.splits sum.splits)

text \<open>The first byte of a short packet is neither padding nor a long header.\<close>

lemma short_first_byte:
  assumes "packet_key_ok pk" and hk: "header_key_ok hk" and "build_short_packet pre p payload pk hk = (out, Inr n)"
  shows "length pre < length out \<and> out ! length pre \<noteq> 0 \<and> out ! length pre AND 0x80 = 0"
proof (rule build_short_protects [OF assms])
  let ?len = "packet_number_len (bs_packet_number p) (bs_largest_acked p)"
  fix f' pnb' body
  assume out: "out = pre @ f' # bs_dcid p @ pnb' @ body"
    and prot: "protected_packet pk hk (bs_packet_number p) (short_first p ?len) (bs_dcid p)
      (encode_packet_number (bs_packet_number p) ?len) (effective_payload hk ?len payload) f' pnb' body"
  have len: "length (encode_packet_number (bs_packet_number p) ?len) = unat (short_first p ?len AND 0x03) + 1"
    using short_first_bits(1) [of p "bs_packet_number p" "bs_largest_acked p"] by simp
  have "f' AND 0x80 = short_first p ?len AND 0x80 \<and> f' AND 0x40 = short_first p ?len AND 0x40"
    using prot hk len unfolding protected_packet_def header_key_ok_def by blast
  moreover have "short_first p ?len AND 0x80 = 0 \<and> short_first p ?len AND 0x40 = 0x40"
    by (cases rule: pn_len_cases [of "bs_packet_number p" "bs_largest_acked p"]; cases "bs_key_phase p")
      (simp_all add: short_first_def)
  ultimately show ?thesis by (auto simp add: out)
qed

text \<open>A packet that is built is opened: in the current key phase with the current keys, in the other one with the
  keys of the next phase, which become current.\<close>

lemma recv_built_current:
  assumes ks: "keys_ok ks" and lk: "link ks a b" and num: "number_known pn a b"
    and phase: "key_phase (key_upd a) = key_phase (key_upd b)"
    and built: "build_packet ApplicationSpace pn payload [] a = Some (out, True)"
  shows "recv_short_packet env now out 0 b
    = receive_in env now PT_Short note_application (read_as ks pn payload out a) b"
proof -
  have keys: "packet_key_ok (dk_packet ks)" "header_key_ok (dk_header ks)" using ks by (simp_all add: keys_ok_def)
  have lkeys: "local_keys (application (spaces a)) = Some ks" using lk by (simp add: link_def)
  obtain n where b: "build_short_packet []
      \<lparr>bs_dcid = peer_cid (cids a), bs_packet_number = pn, bs_largest_acked = sp_largest_acked (application (spaces a)),
       bs_key_phase = key_phase (key_upd a)\<rparr> payload (dk_packet ks) (dk_header ks) = (out, Inr n)"
    using build_packet_short [OF lkeys built] .
  from key_update_path_inverts [OF keys b, of "largest_received (application (spaces b))"] num lk
  show ?thesis
    by (auto simp add: recv_short_packet_def Let_def link_def number_known_def phase open_current_def read_as_def)
qed

lemma recv_built_next:
  assumes ks: "keys_ok ks" and lkeys: "local_keys (application (spaces a)) = Some ks"
    and cid: "length (peer_cid (cids a)) = LOCAL_CID_LEN" and num: "number_known pn a b"
    and old: "remote_keys (application (spaces b)) = Some old" "dk_header old = dk_header ks"
    and nxt: "next_1rtt_keys (key_upd b) = Some nk" "ks_remote nk = dk_packet ks"
    and phase: "key_phase (key_upd a) \<noteq> key_phase (key_upd b)"
    and built: "build_packet ApplicationSpace pn payload [] a = Some (out, True)"
  shows "recv_short_packet env now out 0 b
    = receive_in env now PT_Short note_application (read_as ks pn payload out a)
        (perform_key_update (env_tls env) now b)"
proof -
  have keys: "packet_key_ok (dk_packet ks)" "header_key_ok (dk_header ks)" using ks by (simp_all add: keys_ok_def)
  obtain n where b: "build_short_packet []
      \<lparr>bs_dcid = peer_cid (cids a), bs_packet_number = pn, bs_largest_acked = sp_largest_acked (application (spaces a)),
       bs_key_phase = key_phase (key_upd a)\<rparr> payload (dk_packet ks) (dk_header ks) = (out, Inr n)"
    using build_packet_short [OF lkeys built] .
  from key_update_path_inverts [OF keys b, of "largest_received (application (spaces b))"] num cid
  show ?thesis using phase
    by (auto simp add: recv_short_packet_def Let_def number_known_def old nxt open_next_def read_as_def)
qed

section \<open>Closing\<close>

lemma finish_packet_total:
  assumes ks: "keys_ok ks" and "n = length pnb" "n \<le> 4" and "pl = \<lparr>pl_start = st, pl_pn_offset = length d,
      pl_pn_len = n, pl_packet_number = pn\<rparr>"
  shows "\<exists>out. finish_packet (d @ pnb) pl payload (dk_packet ks) (dk_header ks) = (out, Inr ())"
proof -
  let ?plain = "effective_payload (dk_header ks) n payload"
  obtain sealed tag where enc: "pk_encrypt (dk_packet ks) pn (drop st (d @ pnb)) ?plain = Some (sealed, tag)"
    using ks unfolding keys_ok_def by (metis not_None_eq surj_pair)
  then have "length sealed = length ?plain \<and> length tag = 16"
    using ks by (auto simp add: keys_ok_def packet_key_ok_def)
  moreover have "4 \<le> n + length ?plain" using ks by (simp add: keys_ok_def effective_payload_16)
  ultimately obtain smp where smp: "get_slice (length d + 4) (length d + 4 + 16) (d @ pnb @ sealed @ tag) = Some smp"
    and "length smp = 16"
    using assms(2,3) by (simp add: get_slice_def slice_def)
  moreover have "length (slice (length d) (length d + n) (d @ pnb @ sealed @ tag)) \<le> 4"
    using assms(2,3) by (simp add: slice_def)
  ultimately obtain r where "hk_encrypt (dk_header ks) smp ((d @ pnb @ sealed @ tag) ! st)
      (slice (length d) (length d + n) (d @ pnb @ sealed @ tag)) = Some r"
    using ks unfolding keys_ok_def by (metis not_None_eq)
  then show ?thesis
    using enc smp ks
    by (cases r) (simp add: finish_packet_def protect_header_def assms(4) Let_def HP_SAMPLE_OFFSET_def keys_ok_def)
qed

lemma build_packet_total:
  assumes "keys_ok ks" and "local_keys (application (spaces a)) = Some ks"
  shows "\<exists>out. build_packet ApplicationSpace pn payload pre a = Some (out, True)"
proof -
  let ?len = "packet_number_len pn (sp_largest_acked (application (spaces a)))"
  obtain out where "finish_packet ((pre @ [short_first \<lparr>bs_dcid = peer_cid (cids a), bs_packet_number = pn,
        bs_largest_acked = sp_largest_acked (application (spaces a)), bs_key_phase = key_phase (key_upd a)\<rparr> ?len]
        @ peer_cid (cids a)) @ encode_packet_number pn ?len)
      \<lparr>pl_start = length pre, pl_pn_offset = length (pre @ [short_first \<lparr>bs_dcid = peer_cid (cids a),
        bs_packet_number = pn, bs_largest_acked = sp_largest_acked (application (spaces a)),
        bs_key_phase = key_phase (key_upd a)\<rparr> ?len] @ peer_cid (cids a)), pl_pn_len = ?len, pl_packet_number = pn\<rparr>
      payload (dk_packet ks) (dk_header ks) = (out, Inr ())"
    using finish_packet_total [OF assms(1) length_encode_packet_number [symmetric] packet_number_len_bounds(2) refl]
    by blast
  then show ?thesis
    using assms(2) by (auto simp add: build_packet_def space_of_def build_short_packet_def Let_def is_ok_def)
qed

text \<open>The sender: a close is the only packet of its datagram, and the last one.\<close>

lemma transmit_close:
  assumes ks: "keys_ok ks" "local_keys (application (spaces a)) = Some ks" and ready: "one_rtt_ready (hs a)"
    and pending: "state (life a) \<noteq> Closed" "pending_transport_close (life a) = None" "pending_close (life a) = Some (code, reason)"
  obtains out a' where "transmit ops now a = (Some (peer_addr (migration a)), out, a')"
    and "state (life a') = Closed"
    and "build_packet ApplicationSpace (sp_next_packet_number (application (spaces a)))
           (encode (ConnectionClose code None True reason)) [] a = Some (out, True)"
proof -
  let ?pn = "sp_next_packet_number (application (spaces a))"
  obtain out where out: "build_packet ApplicationSpace ?pn (encode (ConnectionClose code None True reason)) [] a = Some (out, True)"
    using build_packet_total [OF ks] by blast
  have same: "build_packet ApplicationSpace pn payload pre (c\<lparr>retry := x\<rparr>) = build_packet ApplicationSpace pn payload pre c"
    "build_packet ApplicationSpace pn payload pre (c\<lparr>life := l\<rparr>) = build_packet ApplicationSpace pn payload pre c"
    "sp = (spaces c)\<lparr>application := (application (spaces c))\<lparr>sp_next_packet_number := m\<rparr>\<rparr>
      \<Longrightarrow> build_packet ApplicationSpace pn payload pre (c\<lparr>spaces := sp\<rparr>) = build_packet ApplicationSpace pn payload pre c"
    for pn payload pre and c :: "('a, 'b, 'c) Connection" and x l m sp
    by (simp_all add: build_packet_def space_of_def local_keys_def Let_def split: option.splits)
  have "emit_close [] a = (Some (peer_addr (migration a)), out,
      a\<lparr>life := (life a)\<lparr>pending_close := None\<rparr>,
        spaces := (spaces a)\<lparr>application := (application (spaces a))\<lparr>sp_next_packet_number := ?pn + 1\<rparr>\<rparr>\<rparr>)"
    using out pending ready
    by (simp add: emit_close_def close_frame_def close_kind_def take_pn_def next_pn_def same Let_def del: encode.simps)
  then show thesis
    using that out pending by (simp add: transmit_def del: encode.simps)
qed

text \<open>The receiver: one frame, then the end of the payload.\<close>

lemma process_one_frame:
  assumes ok: "frame_ok f" and "0 < length (encode f)" and "length (encode f) \<le> U64_MAX"
    and handled: "handle_frame env now pt f (c\<lparr>cids := (cids c)\<lparr>cids_issued_this_packet := []\<rparr>\<rparr>) = (Inr (), c')"
  shows "process_frames env now pt (encode f) c = (Inr (is_ack_eliciting f), c')"
proof -
  obtain n where n: "length (encode f) = Suc n" using assms(2) by (cases "length (encode f)") simp_all
  have dec: "decode_frame (Buf_new (encode f)) = Inr (f, advance (length (encode f)) (Buf_new (encode f)))"
    using frame_codec.round_trip [OF ok, of "[]"] assms(3) by simp
  have empty: "buf_is_empty (advance (length (encode f)) (Buf_new (encode f)))"
    by (simp add: buf_is_empty_def remaining_def advance_def Buf_new_def)
  have "\<not> buf_is_empty (Buf_new (encode f))"
    using assms(2) by (simp add: buf_is_empty_def remaining_def Buf_new_def del: encode.simps)
  with dec empty handled show ?thesis
    unfolding process_frames_def n by (cases n) (simp_all del: encode.simps)
qed

text \<open>Driving the handshake leaves a closed connection closed.\<close>

lemma queue_hs_bytes_life [simp]: "life (queue_hs_bytes ops bs c) = life c"
  by (simp add: queue_hs_bytes_def try_install_zero_rtt_keys_def Let_def split: HandshakeLevel.splits)

lemma refresh_life:
  assumes "state (life c) \<noteq> Handshaking"
  shows "life (refresh_handshake_complete hmac ops rng now c) = life c"
proof -
  have "life (become_established hmac rng now c) = life c" if "state (life c) \<noteq> Handshaking" for c :: "('a, 'b, 'c) Connection"
    using that by (simp add: become_established_def)
  moreover have "life (capture_peer_params ops c) = life c" for c :: "('a, 'b, 'c) Connection"
    by (simp add: capture_peer_params_def apply_peer_params_def split: option.splits sum.splits)
  moreover have "life (settle_early_data ops c) = life c" for c :: "('a, 'b, 'c) Connection"
    by (simp add: settle_early_data_def replay_early_data_def Let_def)
  moreover have "life (schedule_new_token c) = life c" for c :: "('a, 'b, 'c) Connection"
    by (simp add: schedule_new_token_def Let_def)
  ultimately show ?thesis using assms by (simp add: refresh_handshake_complete_def Let_def)
qed

lemma after_packet_quiet:
  assumes "snd (fst (write_hs (env_tls env) (tls c))) = None" and "state (life c) \<noteq> Handshaking"
  obtains c' where "after_packet env c = Some c'" and "life c' = life c"
proof -
  let ?c = "queue_hs_bytes (env_tls env) (fst (fst (write_hs (env_tls env) (tls c)))) (c\<lparr>tls := snd (write_hs (env_tls env) (tls c))\<rparr>)"
  have "pump_loop (env_tls env) c = Some ?c"
    using assms(1) by (subst pump_loop.simps) (simp add: case_prod_unfold)
  then have "after_packet env c = Some (let d = refresh_handshake_complete (env_hmac env) (env_tls env) (env_rng env) (env_wall env) ?c
      in if \<not> handshake_complete (hs d) \<and> zero_rtt_keys (early d) = None then try_install_zero_rtt_keys (env_tls env) d else d)"
    by (simp add: after_packet_def pump_write_hs_def Let_def)
  then show thesis
    using that assms(2) by (simp add: refresh_life try_install_zero_rtt_keys_def Let_def)
qed

lemma handle_one_short:
  assumes out: "0 < length out" "out ! 0 \<noteq> 0" "out ! 0 AND 0x80 = 0"
    and recv: "recv_short_packet env now out 0 (note_arrival now (length out) c) = (Inr (Some (length out)), c1)"
    and pump: "after_packet env c1 = Some c2"
  shows "handle_datagram env now out c = Some (Inr (), c2)"
proof -
  have end_of: "recv_packets env now out (length out) d = Some (Inr (), d)" for d :: "('a, 'b, 'c) Connection"
    by (subst recv_packets.simps) simp
  show ?thesis
    unfolding handle_datagram_def
    by (subst recv_packets.simps) (use out recv pump end_of in \<open>simp add: recv_packet_def\<close>)
qed

lemma close_encoding:
  assumes "length reason \<le> VARINT_MAX"
  shows "3 \<le> length (encode (ConnectionClose code None True reason))"
    and "length (encode (ConnectionClose code None True reason)) \<le> U64_MAX"
proof -
  have size: "length (encode (ConnectionClose code None True reason))
      = length (put_varint 0x1d) + length (put_varint code) + length (put_varint (length reason)) + length reason"
    by simp
  have pos: "1 \<le> length (put_varint v)" for v by (simp add: length_put_varint varint_size_def)
  show "3 \<le> length (encode (ConnectionClose code None True reason))"
    unfolding size using pos [of "0x1d"] pos [of code] pos [of "length reason"] by linarith
  have "length reason + 24 \<le> U64_MAX" using assms by (simp add: U64_MAX_def VARINT_MAX_def)
  then show "length (encode (ConnectionClose code None True reason)) \<le> U64_MAX"
    unfolding size
    using length_put_varint_le [of "0x1d"] length_put_varint_le [of code] length_put_varint_le [of "length reason"]
    by linarith
qed

lemma close_received:
  assumes ks: "keys_ok ks" and lk: "link ks a b" and phase: "key_phase (key_upd a) = key_phase (key_upd b)"
    and num: "number_known pn a b" and fits: "code \<le> VARINT_MAX" "length reason \<le> VARINT_MAX"
    and tls: "snd (fst (write_hs (env_tls env) (tls b))) = None"
    and built: "build_packet ApplicationSpace pn (encode (ConnectionClose code None True reason)) [] a = Some (out, True)"
  shows "\<exists>b'. handle_datagram env now out b = Some (Inr (), b')
    \<and> life b' = on_connection_close code True reason (life b)"
proof -
  let ?f = "ConnectionClose code None True reason"
  have keys: "local_keys (application (spaces a)) = Some ks" using lk by (simp add: link_def)
  have first: "0 < length out" "out ! 0 \<noteq> 0" "out ! 0 AND 0x80 = 0"
    using build_packet_short [OF keys built] short_first_byte ks unfolding keys_ok_def by (metis list.size(3))+
  define b0 where "b0 = note_arrival now (length out) b"
  have b0: "key_upd b0 = key_upd b" "cids b0 = cids b" "life b0 = life b" "tls b0 = tls b" "spaces b0 = spaces b"
    by (simp_all add: b0_def note_arrival_def)
  have recv: "recv_short_packet env now out 0 b0
      = receive_in env now PT_Short note_application (read_as ks pn (encode ?f) out a) b0"
    by (rule recv_built_current [OF ks]) (use lk num phase built in \<open>simp_all add: link_def number_known_def b0\<close>)
  define c1 where "c1 = b0\<lparr>cids := (cids b)\<lparr>cids_issued_this_packet := []\<rparr>,
      life := on_connection_close code True reason (life b), spaces := note_application pn False (spaces b)\<rparr>"
  have "process_frames env now PT_Short (encode ?f) b0
      = (Inr False, b0\<lparr>cids := (cids b)\<lparr>cids_issued_this_packet := []\<rparr>,
          life := on_connection_close code True reason (life b)\<rparr>)"
    using process_one_frame [of ?f env now PT_Short b0] close_encoding [OF fits(2), of code] fits
    by (fastforce simp add: handle_frame_def b0 simp del: encode.simps)
  then have recv1: "recv_short_packet env now out 0 b0 = (Inr (Some (length out)), c1)"
    unfolding recv receive_in_def read_as_payload [OF ks close_encoding(1) [OF fits(2)]] by (simp add: c1_def b0)
  obtain c2 where "after_packet env c1 = Some c2" "life c2 = life c1"
    using after_packet_quiet [of env c1] tls by (auto simp add: c1_def on_connection_close_def b0)
  then show ?thesis
    using handle_one_short [OF first recv1 [unfolded b0_def]] by (simp add: c1_def)
qed

section \<open>Key update\<close>

text \<open>The two ends agree on the key phase, on the current and on the next keys, each sealing with what the other opens
  with, and on the secrets up to \<open>R\<close>.\<close>

definition mirrored :: "PacketKey PacketKeySet \<Rightarrow> PacketKey PacketKeySet \<Rightarrow> bool" where
  "mirrored x y \<longleftrightarrow> ks_local x = ks_remote y \<and> ks_remote x = ks_local y"

definition in_step :: "('s \<Rightarrow> 'v \<Rightarrow> bool) \<Rightarrow> ('t, 's, 'x) Connection \<Rightarrow> ('u, 'v, 'y) Connection \<Rightarrow> bool" where
  "in_step R a b \<longleftrightarrow> key_phase (key_upd a) = key_phase (key_upd b)
     \<and> (\<exists>x y. sp_keys (application (spaces a)) = Some x \<and> sp_keys (application (spaces b)) = Some y
           \<and> key_local x = key_remote y \<and> key_remote x = key_local y)
     \<and> (\<exists>x y. next_1rtt_keys (key_upd a) = Some x \<and> next_1rtt_keys (key_upd b) = Some y \<and> mirrored x y)
     \<and> (\<exists>x y. one_rtt_secrets (key_upd a) = Some x \<and> one_rtt_secrets (key_upd b) = Some y \<and> R x y)"

text \<open>What rustls promises of the secrets of the two ends: deriving the next keys gives mirrored ones.\<close>

definition ratchets :: "('t, 's) tls_ops \<Rightarrow> ('u, 'v) tls_ops \<Rightarrow> ('s \<Rightarrow> 'v \<Rightarrow> bool) \<Rightarrow> bool" where
  "ratchets ops ops' R \<longleftrightarrow>
     (\<forall>x y. R x y \<longrightarrow> mirrored (fst (next_packet_keys ops x)) (fst (next_packet_keys ops' y))
        \<and> R (snd (next_packet_keys ops x)) (snd (next_packet_keys ops' y)))"

text \<open>One rotation moves the keys of an end one epoch on.\<close>

lemma rotate_keys_simps:
  assumes "one_rtt_secrets (key_upd c) = Some x" and "next_1rtt_keys (key_upd c) = Some nk"
    and "sp_keys (application (spaces c)) = Some ks"
  shows "one_rtt_secrets (key_upd (rotate_keys ops now c)) = Some (snd (next_packet_keys ops x))"
    and "next_1rtt_keys (key_upd (rotate_keys ops now c)) = Some (fst (next_packet_keys ops x))"
    and "sp_keys (application (spaces (rotate_keys ops now c)))
      = Some (ks\<lparr>key_remote := (key_remote ks)\<lparr>dk_packet := ks_remote nk\<rparr>,
                 key_local := (key_local ks)\<lparr>dk_packet := ks_local nk\<rparr>\<rparr>)"
    and "prev_1rtt_keys (key_upd (rotate_keys ops now c))
      = Some (dk_packet (key_remote ks), now + conn_pto c * 3)"
  using assms by (simp_all add: rotate_keys_def rotate_to_next_epoch_def conn_pto_def case_prod_unfold Let_def)

lemma rotate_keys_phase [simp]: "key_phase (key_upd (rotate_keys ops now c)) = key_phase (key_upd c)"
  by (simp add: rotate_keys_def rotate_to_next_epoch_def case_prod_unfold Let_def split: option.splits)

lemma rotate_keys_frame [simp]:
  "cids (rotate_keys ops now c) = cids c"
  "sp_largest_acked (application (spaces (rotate_keys ops now c))) = sp_largest_acked (application (spaces c))"
  "largest_received (application (spaces (rotate_keys ops now c))) = largest_received (application (spaces c))"
  by (simp_all add: rotate_keys_def rotate_to_next_epoch_def largest_received_def case_prod_unfold Let_def
      split: option.splits)

lemma rotations_in_step:
  assumes R: "ratchets ops ops' R" and "in_step R a b"
  shows "in_step R (rotate_keys ops now a) (rotate_keys ops' now' b)"
proof -
  obtain x y nx ny kx ky where "one_rtt_secrets (key_upd a) = Some x" "one_rtt_secrets (key_upd b) = Some y" "R x y"
    "next_1rtt_keys (key_upd a) = Some nx" "next_1rtt_keys (key_upd b) = Some ny" "mirrored nx ny"
    "sp_keys (application (spaces a)) = Some kx" "sp_keys (application (spaces b)) = Some ky"
    "key_local kx = key_remote ky" "key_remote kx = key_local ky"
    using assms(2) unfolding in_step_def by blast
  then show ?thesis
    using assms(2) R unfolding in_step_def ratchets_def
    by (simp add: rotate_keys_simps mirrored_def)
qed

lemma initiate_as_rotation:
  "in_step R (initiate_key_update_now ops now a) (perform_key_update ops' now' b)
    \<longleftrightarrow> in_step R (rotate_keys ops now (a\<lparr>key_upd := (key_upd a)\<lparr>key_update_pending := False\<rparr>\<rparr>)) (rotate_keys ops' now' b)"
  by (simp add: in_step_def initiate_key_update_now_def perform_key_update_def Let_def)

text \<open>The frames of a packet do not touch the keys.\<close>

definition key_state :: "('t, 's, 'x) Connection \<Rightarrow> 's KeyUpdate \<times> all_keys option" where
  "key_state c = (key_upd c, sp_keys (application (spaces c)))"

lemma key_state_update [simp]:
  "key_state (c\<lparr>recov := v1\<rparr>) = key_state c" "key_state (c\<lparr>counters := v2\<rparr>) = key_state c"
  "key_state (c\<lparr>mtu := v3\<rparr>) = key_state c" "key_state (c\<lparr>cids := v4\<rparr>) = key_state c"
  "key_state (c\<lparr>streams := v5\<rparr>) = key_state c"
  "key_state (c\<lparr>spaces := v6\<rparr>) = (key_upd c, sp_keys (application v6))"
  by (simp_all add: key_state_def)

lemma fold_key_state:
  "(\<And>x c. key_state (f x c) = key_state c) \<Longrightarrow> key_state (fold f xs c) = key_state c"
  by (induction xs arbitrary: c) simp_all

lemma requeue_frame_keys [simp]: "key_state (requeue_frame idx f c) = key_state c"
  by (simp add: requeue_frame_def requeue_crypto_def key_state_def split: SentFrame.splits)

lemma handle_lost_frame_keys [simp]: "key_state (handle_lost_frame idx f c) = key_state c"
  by (simp add: handle_lost_frame_def split: SentFrame.splits)

lemma lost_frames_keys [simp]:
  "key_state (fold (\<lambda>p. fold (handle_lost_frame idx) (sent_frames p)) ps c) = key_state c"
  by (intro fold_key_state handle_lost_frame_keys)

lemma detect_and_handle_loss_keys [simp]: "key_state (detect_and_handle_loss fp idx now c) = key_state c"
  by (simp add: detect_and_handle_loss_def Let_def case_prod_unfold)

lemma process_ack_keys: "key_state (process_ack fp now pt largest delay fr ranges c) = key_state c"
proof -
  have "sp_keys (application (space_acked pt largest sp)) = sp_keys (application sp)" for sp
    by (simp add: space_acked_def on_ack_received_def split: PacketType.splits)
  then have "key_state (c\<lparr>spaces := space_acked pt largest (spaces c)\<rparr>) = key_state c" by (simp add: key_state_def)
  then show ?thesis by (simp add: process_ack_def Let_def case_prod_unfold)
qed

lemma handle_frame_keys: "key_state (snd (handle_frame env now pt f c)) = key_state c"
proof (cases f)
  case (Ack largest delay fr ranges)
  then show ?thesis by (simp add: handle_frame_def process_ack_keys)
next
  case (Crypto offset data)
  then show ?thesis
    by (simp add: handle_frame_def recv_crypto_def key_state_def Let_def case_prod_unfold
        split: PacketType.splits option.splits sum.splits)
next
  case (RetireConnectionId sq)
  then show ?thesis
    by (simp add: handle_frame_def on_retire_connection_id_def maybe_issue_new_cid_def key_state_def Let_def
        case_prod_unfold split: option.splits sum.splits)
qed (simp_all add: handle_frame_def on_new_token_def key_state_def Let_def case_prod_unfold)

lemma process_loop_keys: "key_state (snd (process_loop n env now pt buf e c)) = key_state c"
proof (induction n arbitrary: buf e c)
  case (Suc n)
  have "key_state c' = key_state c" if "handle_frame env now pt f c = (r, c')" for f r c'
    using handle_frame_keys [of env now pt f c] that by simp
  then show ?case by (auto simp add: Suc split: sum.splits prod.splits)
qed simp

lemma receive_in_keys: "key_state (snd (receive_in env now pt note_application p c)) = key_state c"
proof -
  have "key_state (snd (process_frames env now pt payload c)) = key_state c" for payload
    unfolding process_frames_def process_loop_keys by (simp add: key_state_def)
  then show ?thesis
    by (auto simp add: receive_in_def note_application_def on_packet_received_def key_state_def Let_def
        split: prod.splits sum.splits) (metis fst_conv snd_conv)+
qed

lemma in_step_keys: "key_state a = key_state a' \<Longrightarrow> key_state b = key_state b' \<Longrightarrow> in_step R a b = in_step R a' b'"
  by (simp add: in_step_def key_state_def)

section \<open>Two demonstration ends\<close>

definition demo_dir :: dir_keys where
  "demo_dir = \<lparr>dk_header = demo_hk, dk_packet = demo_pk\<rparr>"

definition demo_tls :: "(unit, unit) tls_ops" where
  "demo_tls = \<lparr>write_hs = (\<lambda>t. (([], None), t)), read_hs = (\<lambda>_ t. (Inr (), t)), is_handshaking = (\<lambda>_. False),
     quic_transport_parameters = (\<lambda>_. None), tls_zero_rtt_keys = (\<lambda>_. None), is_early_data_accepted = (\<lambda>_. False),
     next_packet_keys = (\<lambda>s. (\<lparr>ks_local = demo_pk, ks_remote = demo_pk\<rparr>, s)),
     initial_keys = (\<lambda>_ _. \<lparr>key_local = demo_dir, key_remote = demo_dir\<rparr>)\<rparr>"

definition demo_env :: "(unit, unit, nat) conn_env" where
  "demo_env = \<lparr>env_fp = demo_fp, env_hmac = (\<lambda>_ _. []), env_tls = demo_tls, env_rng = (\<lambda>_. None), env_gcm = demo_gcm,
     env_wall = 0\<rparr>"

definition demo_end :: "(unit, unit, nat) Connection" where
  "demo_end = demo_conn\<lparr>
     spaces := (spaces demo_conn)\<lparr>application :=
       PacketSpace_new\<lparr>sp_keys := Some \<lparr>key_local = demo_dir, key_remote = demo_dir\<rparr>\<rparr>\<rparr>,
     hs := (hs demo_conn)\<lparr>one_rtt_ready := True\<rparr>, life := (life demo_conn)\<lparr>state := Established\<rparr>,
     cids := (cids demo_conn)\<lparr>peer_cid := replicate 8 9\<rparr>,
     key_upd := (key_upd demo_conn)\<lparr>one_rtt_secrets := Some (),
       next_1rtt_keys := Some \<lparr>ks_local = demo_pk, ks_remote = demo_pk\<rparr>\<rparr>\<rparr>"

lemma demo_dir_ok: "keys_ok demo_dir"
proof -
  have "pk_encrypt demo_pk pn h p \<noteq> None" for pn h p by (simp add: demo_eval)
  moreover have "hk_encrypt demo_hk smp f field \<noteq> None" if len: "length smp = 16" "length field \<le> 4" for smp f field
  proof -
    obtain m ms where "take 5 smp = m # ms" "length ms = 4"
      using len(1) by (cases smp) auto
    then show ?thesis using len by (simp add: demo_eval Let_def)
  qed
  ultimately show ?thesis
    using key_laws_from_primitives [OF demo_primitives_ok]
    by (simp add: keys_ok_def demo_dir_def demo_pk_def demo_hk_def)
qed

lemma demo_end_simps:
  "local_keys (application (spaces demo_end)) = Some demo_dir"
  "remote_keys (application (spaces demo_end)) = Some demo_dir"
  "peer_cid (cids demo_end) = replicate 8 9" "one_rtt_ready (hs demo_end)" "state (life demo_end) = Established"
  "pending_transport_close (life demo_end) = None" "sp_next_packet_number (application (spaces demo_end)) = 0"
  "sp_largest_acked (application (spaces demo_end)) = None" "largest_received (application (spaces demo_end)) = None"
  "peer_addr (migration demo_end) = demo_addr 7" "\<not> key_phase (key_upd demo_end)"
  "sp_keys (application (spaces demo_end)) = Some \<lparr>key_local = demo_dir, key_remote = demo_dir\<rparr>"
  "next_1rtt_keys (key_upd demo_end) = Some \<lparr>ks_local = demo_pk, ks_remote = demo_pk\<rparr>"
  "one_rtt_secrets (key_upd demo_end) = Some ()"
  by (simp_all add: demo_end_def local_keys_def remote_keys_def PacketSpace_new_def largest_received_def rp_largest_def
      demo_conn_def new_inner_def demo_params_def Let_def)

lemma demo_link: "link demo_dir demo_end demo_end"
  by (simp add: link_def demo_end_simps LOCAL_CID_LEN_def)

lemma demo_number: "number_known 0 demo_end demo_end"
proof -
  have "packet_number_len 0 None = 1" by (simp add: pn_len_eval)
  then show ?thesis
    by (simp add: number_known_def pn_in_window_def demo_end_simps expected_pn_def VARINT_MAX_def)
qed

lemma demo_reason: "lossy_string [98, 121, 101] = ''bye''"
  by (simp add: lossy_string_def from_utf8_lossy.simps utf8_next_def utf8_width_def Let_def char_of_def bit_Suc_0_iff)

section \<open>Properties\<close>

text \<open>
  C8.  An application that closes an established connection ends it at both ends.  The next transmission is one
  datagram to the peer's address with a CONNECTION_CLOSE, after which the connection is closed and sends nothing
  more; a peer that shares the keys and key phase, and whose TLS stack has no further keys to install, closes with
  the application's error code and reason.
\<close>

theorem close_delivered:
  assumes ks: "keys_ok ks" and lk: "link ks a b" and phase: "key_phase (key_upd a) = key_phase (key_upd b)"
    and num: "number_known (sp_next_packet_number (application (spaces a))) a b"
    and ready: "one_rtt_ready (hs a)" and open_: "state (life a) \<noteq> Closed" "pending_transport_close (life a) = None"
    and fits: "code \<le> VARINT_MAX" "length reason \<le> VARINT_MAX"
    and tls: "snd (fst (write_hs (env_tls env) (tls b))) = None"
  shows "\<exists>out a' b'. transmit ops now (a\<lparr>life := close_connection code reason (life a)\<rparr>)
            = (Some (peer_addr (migration a)), out, a')
          \<and> (\<forall>t. transmit ops t a' = (None, [], a'))
          \<and> handle_datagram env later out b = Some (Inr (), b')
          \<and> state (life b') = Closed
          \<and> peer_closed (life b') = Some (E_ApplicationClose code (lossy_string reason))"
proof -
  let ?a = "a\<lparr>life := close_connection code reason (life a)\<rparr>"
  have keys: "local_keys (application (spaces ?a)) = Some ks" using lk by (simp add: link_def)
  obtain out a' where sent: "transmit ops now ?a = (Some (peer_addr (migration a)), out, a')"
    and closed: "state (life a') = Closed"
    and built: "build_packet ApplicationSpace (sp_next_packet_number (application (spaces a)))
      (encode (ConnectionClose code None True reason)) [] ?a = Some (out, True)"
    using transmit_close [OF ks keys, of code reason ops now] ready open_
    by (auto simp add: close_connection_def simp del: encode.simps)
  have "link ks ?a b" "number_known (sp_next_packet_number (application (spaces a))) ?a b"
    using lk num by (simp_all add: link_def number_known_def)
  then obtain b' where "handle_datagram env later out b = Some (Inr (), b')"
    "life b' = on_connection_close code True reason (life b)"
    using close_received [OF ks _ _ _ fits tls built] phase by auto
  moreover have "transmit ops t a' = (None, [], a')" for t
    using closed by (simp add: transmit_def)
  ultimately show ?thesis
    using sent by (auto simp add: on_connection_close_def)
qed

theorem close_delivered_witness:
  "\<exists>out a' b'. transmit demo_tls 5 (demo_end\<lparr>life := close_connection 7 [98, 121, 101] (life demo_end)\<rparr>) 
      = (Some (demo_addr 7), out, a')
     \<and> handle_datagram demo_env 9 out demo_end = Some (Inr (), b')
     \<and> peer_closed (life b') = Some (E_ApplicationClose 7 ''bye'')"
proof -
  have "snd (fst (write_hs (env_tls demo_env) (tls demo_end))) = None" by (simp add: demo_env_def demo_tls_def)
  from close_delivered [OF demo_dir_ok demo_link refl, of 7 "[98, 121, 101]" demo_env demo_tls 5 9, OF _ _ _ _ _ _ this]
  show ?thesis
    using demo_number by (auto simp add: demo_end_simps VARINT_MAX_def demo_reason)
qed

text \<open>
  C7.  A key update keeps the two ends in step.  When one end rotates its keys and seals a packet in the new phase,
  the other end opens it with the keys it had prepared, processes its frames, and from then on agrees with the first
  end on the phase, the current keys and the next keys; it keeps the key of the old phase for packets still on their
  way.
\<close>

theorem key_update_agreement:
  assumes R: "ratchets ops (env_tls env) R" and step: "in_step R a b"
    and a': "a' = initiate_key_update_now ops now a"
    and ks: "local_keys (application (spaces a')) = Some ks" "keys_ok ks"
    and cid: "length (peer_cid (cids a)) = LOCAL_CID_LEN" and num: "number_known pn a b"
    and built: "build_packet ApplicationSpace pn payload [] a' = Some (out, True)"
    and recv: "recv_short_packet env later out 0 b = (r, b')"
  shows "(r, b') = receive_in env later PT_Short note_application (read_as ks pn payload out a')
           (perform_key_update (env_tls env) later b)
    \<and> in_step R a' b' \<and> key_phase (key_upd b') = (\<not> key_phase (key_upd b))
    \<and> map_option fst (prev_1rtt_keys (key_upd b')) = map_option dk_packet (remote_keys (application (spaces b)))"
proof -
  let ?b = "perform_key_update (env_tls env) later b"
  obtain nx ny kx ky y where b: "next_1rtt_keys (key_upd a) = Some nx" "next_1rtt_keys (key_upd b) = Some ny"
    "mirrored nx ny" "sp_keys (application (spaces a)) = Some kx" "sp_keys (application (spaces b)) = Some ky"
    "key_local kx = key_remote ky" "one_rtt_secrets (key_upd b) = Some y"
    using step unfolding in_step_def by blast
  obtain x where "one_rtt_secrets (key_upd a) = Some x" using step unfolding in_step_def by blast
  then have "ks = (key_local kx)\<lparr>dk_packet := ks_local nx\<rparr>"
    using ks(1) b(1,4) by (simp add: a' initiate_key_update_now_def local_keys_def rotate_keys_simps Let_def)
  then have nxt: "ks_remote ny = dk_packet ks" "dk_header (key_remote ky) = dk_header ks"
    using b(3,6) by (simp_all add: mirrored_def)
  have res: "(r, b') = receive_in env later PT_Short note_application (read_as ks pn payload out a') ?b"
    unfolding recv [symmetric]
  proof (rule recv_built_next [OF ks(2,1) _ _ _ nxt(2) b(2) nxt(1) _ built])
    show "length (peer_cid (cids a')) = LOCAL_CID_LEN"
      using cid by (simp add: a' initiate_key_update_now_def Let_def)
    show "number_known pn a' b" using num by (simp add: a' initiate_key_update_now_def number_known_def Let_def)
    show "remote_keys (application (spaces b)) = Some (key_remote ky)" using b(5) by (simp add: remote_keys_def)
    show "key_phase (key_upd a') \<noteq> key_phase (key_upd b)"
      using step by (simp add: a' initiate_key_update_now_def in_step_def Let_def)
  qed
  then have same: "key_state b' = key_state ?b" using receive_in_keys by (metis snd_conv)
  have "in_step R (a\<lparr>key_upd := (key_upd a)\<lparr>key_update_pending := False\<rparr>\<rparr>) b" using step by (simp add: in_step_def)
  then have "in_step R a' ?b" unfolding a' initiate_as_rotation by (rule rotations_in_step [OF R])
  then have "in_step R a' b'" using in_step_keys [OF refl same] by metis
  moreover have "key_phase (key_upd b') = (\<not> key_phase (key_upd b))"
    using same by (simp add: key_state_def perform_key_update_def Let_def)
  moreover have "map_option fst (prev_1rtt_keys (key_upd b')) = map_option dk_packet (remote_keys (application (spaces b)))"
    using same b by (simp add: key_state_def perform_key_update_def Let_def rotate_keys_simps remote_keys_def)
  ultimately show ?thesis using res by blast
qed

theorem key_update_agreement_witness:
  "\<exists>out r b'. build_packet ApplicationSpace 0 [1] [] (initiate_key_update_now demo_tls 5 demo_end) = Some (out, True)
     \<and> recv_short_packet demo_env 9 out 0 demo_end = (r, b')
     \<and> in_step (=) (initiate_key_update_now demo_tls 5 demo_end) b' \<and> key_phase (key_upd b')"
proof -
  let ?a = "initiate_key_update_now demo_tls 5 demo_end"
  have "local_keys (application (spaces ?a)) = Some demo_dir"
    by (simp add: initiate_key_update_now_def Let_def local_keys_def rotate_keys_simps demo_end_simps demo_dir_def)
  moreover from this obtain out where "build_packet ApplicationSpace 0 [1] [] ?a = Some (out, True)"
    using build_packet_total [OF demo_dir_ok] by blast
  moreover have "ratchets demo_tls (env_tls demo_env) (=)"
    by (simp add: ratchets_def mirrored_def demo_env_def demo_tls_def)
  moreover have "in_step (=) demo_end demo_end" by (simp add: in_step_def demo_end_simps mirrored_def)
  moreover obtain r b' where "recv_short_packet demo_env 9 out 0 demo_end = (r, b')" by (metis surj_pair)
  ultimately show ?thesis
    using key_update_agreement [where R = "(=)" and a = demo_end and b = demo_end and ops = demo_tls and env = demo_env
        and now = 5 and later = 9 and pn = 0 and payload = "[1]" and ks = demo_dir] demo_dir_ok demo_number
    by (auto simp add: demo_end_simps LOCAL_CID_LEN_def)
qed

end
