(* ===== verification/Endpoint_Routing.thy ===== *)
theory Endpoint_Routing
  imports Endpoint Conn_Exchange
begin

text \<open>
  What the demultiplexer of \<^verbatim>\<open>endpoint/mod.rs\<close> guarantees over any run: a connection receives only datagrams addressed
  to an ID registered for it, and with Retry enabled a connection exists only for an address that returned a token of
  this server.
\<close>

section \<open>Runs\<close>

text \<open>IDs registered for a channel: by a \<^verbatim>\<open>Register\<close> update, or when a connection is opened on it.\<close>

definition announced :: "CidRouteUpdate list \<Rightarrow> (bytes \<times> nat) set" where
  "announced us = {(cid, cu_conn_tx u) |u cid. u \<in> set us \<and> cu_event u = Register cid}"

definition opened :: "('t, 's, 'x) Demux \<Rightarrow> ('t, 's, 'x) Demux \<Rightarrow> (bytes \<times> nat) set" where
  "opened s s' = (\<Union>(i, conn, dcid) \<in> set (drop (length (dx_conns s)) (dx_conns s')).
     {(dcid, i), (local_cid (cids conn), i)})"

text \<open>
  \<open>demux_run hmac tc s owned seen\<close>: the state after some turns, each with updates from existing connections; \<open>owned\<close>
  are the registrations so far and \<open>seen\<close> the datagrams handled.  Between turns the connections read from their
  channels and drop them.
\<close>

inductive demux_run ::
    "(bytes \<Rightarrow> bytes \<Rightarrow> bytes) \<Rightarrow> TransportConfig \<Rightarrow> ('t, 's, 'x) Demux \<Rightarrow> (bytes \<times> nat) set \<Rightarrow> (bytes \<times> SocketAddr) set \<Rightarrow> bool"
  for hmac tc where
  start: "demux_run hmac tc (Demux_new tc) {} {}"
| turn: "demux_run hmac tc s owned seen \<Longrightarrow> env_hmac (de_conn env) = hmac
    \<Longrightarrow> \<forall>u \<in> set us. cu_conn_tx u < length (dx_chans s)
    \<Longrightarrow> demux_run hmac tc (demux_turn env us datagram peer s)
          (owned \<union> announced us \<union> opened s (demux_turn env us datagram peer s)) (insert (datagram, peer) seen)"
| taken: "demux_run hmac tc s owned seen
    \<Longrightarrow> demux_run hmac tc (s\<lparr>dx_chans := (dx_chans s)[i := (dx_chans s ! i)\<lparr>ch_queue := tl (ch_queue (dx_chans s ! i))\<rparr>]\<rparr>) owned seen"
| dropped: "demux_run hmac tc s owned seen
    \<Longrightarrow> demux_run hmac tc (s\<lparr>dx_chans := (dx_chans s)[i := (dx_chans s ! i)\<lparr>ch_closed := True\<rparr>]\<rparr>) owned seen"

section \<open>Isolation\<close>

definition routes_ok :: "(bytes \<times> nat) set \<Rightarrow> nat \<Rightarrow> Routes \<Rightarrow> bool" where
  "routes_ok owned n r \<longleftrightarrow>
     (\<forall>k i. initial_map r k = Some i \<longrightarrow> (k, i) \<in> owned \<and> i < n)
     \<and> (\<forall>k i. local_cid_map r k = Some i \<longrightarrow> (k, i) \<in> owned \<and> i < n)"

definition addressed :: "(bytes \<times> nat) set \<Rightarrow> nat \<Rightarrow> bytes \<times> SocketAddr \<Rightarrow> bool" where
  "addressed owned i msg \<longleftrightarrow> (\<exists>ty d. peek_dcid (fst msg) LOCAL_CID_LEN = Inr (ty, d) \<and> (d, i) \<in> owned)"

definition chan_ok :: "(bytes \<times> nat) set \<Rightarrow> nat \<Rightarrow> (bytes \<times> SocketAddr) Chan \<Rightarrow> bool" where
  "chan_ok owned i ch \<longleftrightarrow> chan_inv CHANNEL_CAPACITY ch \<and> (\<forall>msg \<in> set (ch_queue ch). addressed owned i msg)"

definition demux_inv :: "(bytes \<times> nat) set \<Rightarrow> ('t, 's, 'x) Demux \<Rightarrow> bool" where
  "demux_inv owned s \<longleftrightarrow> routes_ok owned (length (dx_chans s)) (dx_routes s)
     \<and> (\<forall>i < length (dx_chans s). chan_ok owned i (dx_chans s ! i))"

lemma demux_inv_mono: "demux_inv owned s \<Longrightarrow> owned \<subseteq> owned' \<Longrightarrow> demux_inv owned' s"
  unfolding demux_inv_def routes_ok_def chan_ok_def addressed_def by blast

lemma demux_inv_chan:
  "demux_inv owned s \<Longrightarrow> (i < length (dx_chans s) \<Longrightarrow> chan_ok owned i ch) \<Longrightarrow> demux_inv owned (s\<lparr>dx_chans := (dx_chans s)[i := ch]\<rparr>)"
  by (cases "i < length (dx_chans s)") (auto simp add: demux_inv_def nth_list_update)

lemma try_send_chan_ok:
  "chan_ok owned i ch \<Longrightarrow> addressed owned i msg \<Longrightarrow> chan_ok owned i (snd (try_send CHANNEL_CAPACITY msg ch))"
  using try_send_queue [of CHANNEL_CAPACITY msg ch] by (auto simp add: chan_ok_def try_send_inv)

lemma forward_to_inv:
  assumes "demux_inv owned s" and "addressed owned i msg"
  shows "demux_inv owned (snd (forward_to msg i s))"
proof -
  have "demux_inv owned (s\<lparr>dx_chans := (dx_chans s)[i := snd (try_send CHANNEL_CAPACITY msg (dx_chans s ! i))]\<rparr>)"
    using assms by (intro demux_inv_chan try_send_chan_ok) (simp_all add: demux_inv_def)
  then show ?thesis by (simp add: forward_to_def case_prod_unfold Let_def)
qed

lemma forward_local_inv:
  "demux_inv owned s \<Longrightarrow> addressed owned i msg \<Longrightarrow> demux_inv owned (forward_local msg key i s)"
  using forward_to_inv [of owned s i msg]
  by (auto simp add: forward_local_def case_prod_unfold Let_def demux_inv_def routes_ok_def)

lemma forward_initial_inv:
  "demux_inv owned s \<Longrightarrow> addressed owned i msg \<Longrightarrow> demux_inv owned (forward_initial msg key i s)"
  using forward_to_inv [of owned s i msg]
  by (auto simp add: forward_initial_def case_prod_unfold Let_def demux_inv_def routes_ok_def)

lemma forward_conns [simp]:
  "dx_conns (forward_local msg key i s) = dx_conns s" "dx_conns (forward_initial msg key i s) = dx_conns s"
  "dx_transport (forward_local msg key i s) = dx_transport s" "dx_transport (forward_initial msg key i s) = dx_transport s"
  by (simp_all add: forward_local_def forward_initial_def forward_to_def case_prod_unfold Let_def)

lemma send_retry_inv: "demux_inv owned (send_retry env dcid scid peer s) = demux_inv owned s"
  by (simp add: send_retry_def case_prod_unfold Let_def demux_inv_def split: option.splits)

lemma send_retry_conns [simp]: "dx_conns (send_retry env dcid scid peer s) = dx_conns s"
  by (simp add: send_retry_def case_prod_unfold Let_def split: option.splits)

text \<open>The two parsers of the first packet agree on the destination ID.\<close>

lemma initial_ids_dcid:
  assumes "parse_client_initial_ids d = Some (v, dcid, scid)" and "peek_dcid d n = Inr (ty, dcid')"
  shows "dcid' = dcid"
proof -
  obtain f bs where d: "d = f # bs" and "f AND 0x80 \<noteq> 0" and "ok_value (initial_id_fields (Buf_new d)) = Some (v, dcid, scid)"
    using assms(1) by (auto simp add: parse_client_initial_ids_def split: list.splits if_splits)
  then show ?thesis
    using assms(2)
    by (auto simp add: peek_dcid_def long_dcid_fields_def initial_id_fields_def bind_d_def return_d_def ok_value_def
        map_err_d_def map_err_def bind_result_def split: sum.splits prod.splits)
qed

text \<open>What a new connection changes: both routes, one channel with its first datagram, one task.\<close>

lemma create_connection_cases:
  obtains "routes_ok owned n (dx_routes (create_connection env dcid scid datagram peer s)) = routes_ok owned n (dx_routes s)"
    and "dx_chans (create_connection env dcid scid datagram peer s) = dx_chans s"
    and "dx_conns (create_connection env dcid scid datagram peer s) = dx_conns s"
  | conn where "create_connection env dcid scid datagram peer s =
      s\<lparr>dx_routes := (dx_routes s)\<lparr>initial_map := (initial_map (dx_routes s))(dcid \<mapsto> length (dx_chans s)),
          local_cid_map := (local_cid_map (dx_routes s))(local_cid (cids conn) \<mapsto> length (dx_chans s))\<rparr>,
        dx_chans := dx_chans s @ [Chan_new\<lparr>ch_queue := [(datagram, peer)]\<rparr>],
        dx_conns := dx_conns s @ [(length (dx_chans s), conn, dcid)]\<rparr>"
    and "peer_addr (migration conn) = peer"
proof (cases "de_server_tls env (apply_early_data_config (de_config_early env) (dx_transport s))
    (encode_transport_params (to_transport_params (dx_transport s)))")
  case (Inl e)
  then show thesis by (intro that(1)) (simp_all add: create_connection_def Let_def)
next
  case (Inr t)
  define conn where "conn = new_server (env_fp (de_conn env)) (env_hmac (de_conn env)) (env_tls (de_conn env)) t
    (env_rng (de_conn env)) dcid scid peer (to_transport_params (dx_transport s))
    \<lparr>mc_max_mtu = tc_max_mtu (dx_transport s), mc_discovery_enabled = True\<rparr> (env_wall (de_conn env))
    (tc_congestion_controller (dx_transport s)) (tc_datagram_receive_buffer_size (dx_transport s))"
  have "peer_addr (migration conn) = peer"
    by (simp add: conn_def new_server_def install_initial_keys_def new_inner_def Let_def)
  then show thesis
    using Inr that(1) that(2) [of conn]
    by (cases "length (local_cid (cids conn)) = LOCAL_CID_LEN")
      (simp_all add: create_connection_def Let_def conn_def try_send_def chan_full_def Chan_new_def CHANNEL_CAPACITY_def)
qed

lemma create_connection_inv:
  assumes inv: "demux_inv owned s" and peek: "peek_dcid datagram LOCAL_CID_LEN = Inr (ty, dcid)"
    and s': "s' = create_connection env dcid scid datagram peer s"
  shows "demux_inv (owned \<union> opened s s') s'"
proof (cases rule: create_connection_cases [of owned "length (dx_chans s)" env dcid scid datagram peer s])
  case 1
  then have "demux_inv owned s'" using inv by (simp add: demux_inv_def s')
  then show ?thesis by (rule demux_inv_mono) simp
next
  case (2 conn)
  let ?n = "length (dx_chans s)"
  have own: "opened s s' = {(dcid, ?n), (local_cid (cids conn), ?n)}" using 2(1) by (simp add: opened_def s')
  have upd: "initial_map (dx_routes s') = (initial_map (dx_routes s))(dcid \<mapsto> ?n)"
    "local_cid_map (dx_routes s') = (local_cid_map (dx_routes s))(local_cid (cids conn) \<mapsto> ?n)"
    "dx_chans s' = dx_chans s @ [Chan_new\<lparr>ch_queue := [(datagram, peer)]\<rparr>]"
    using 2(1) by (simp_all add: s')
  have "routes_ok (owned \<union> opened s s') (length (dx_chans s')) (dx_routes s')"
    using inv unfolding own by (auto simp add: demux_inv_def routes_ok_def upd split: if_splits intro: less_SucI)
  moreover have "chan_ok (owned \<union> opened s s') i (dx_chans s' ! i)" if "i < length (dx_chans s')" for i
  proof (cases "i = ?n")
    case True
    then show ?thesis
      using peek unfolding own by (auto simp add: chan_ok_def chan_inv_def addressed_def upd Chan_new_def CHANNEL_CAPACITY_def)
  next
    case False
    then show ?thesis
      using demux_inv_mono [OF inv, of "owned \<union> opened s s'"] that
      by (auto simp add: demux_inv_def upd nth_append)
  qed
  ultimately show ?thesis by (simp add: demux_inv_def)
qed

text \<open>One datagram, and one turn.\<close>

lemma accept_initial_inv:
  assumes inv: "demux_inv owned s" and peek: "peek_dcid datagram LOCAL_CID_LEN = Inr (ty, dcid)"
    and s': "s' = accept_initial env datagram peer s"
  shows "demux_inv (owned \<union> opened s s') s'"
proof (cases "parse_client_initial_ids datagram")
  case None
  then show ?thesis using demux_inv_mono [OF inv] by (simp add: s' accept_initial_def)
next
  case (Some ids)
  obtain v scid where ids: "ids = (v, dcid, scid)"
    using initial_ids_dcid peek Some by (metis surj_pair)
  have create: "demux_inv (owned \<union> opened s c) c" if "c = create_connection env dcid scid datagram peer s" for c
    using create_connection_inv [OF inv peek that] .
  have retry: "demux_inv (owned \<union> opened s c) c" if "c = send_retry env dcid scid peer s" for c
    using that demux_inv_mono [OF inv] by (simp add: send_retry_inv)
  show ?thesis
  proof (cases "v = QUIC_V1")
    case True
    then show ?thesis
      using create retry Some ids unfolding s' accept_initial_def by (simp add: Let_def split: option.splits)
  next
    case False
    then show ?thesis
      using demux_inv_mono [OF inv] Some ids by (simp add: s' accept_initial_def demux_inv_def)
  qed
qed

lemma demux_datagram_inv:
  assumes inv: "demux_inv owned s" and s': "s' = demux_datagram env datagram peer s"
  shows "demux_inv (owned \<union> opened s s') s'"
proof (cases "peek_dcid datagram LOCAL_CID_LEN")
  case (Inl e)
  then show ?thesis using demux_inv_mono [OF inv] by (simp add: s' demux_datagram_def)
next
  case (Inr r)
  then obtain ty dcid where peek: "peek_dcid datagram LOCAL_CID_LEN = Inr (ty, dcid)" by (cases r) simp
  have loc: "demux_inv owned (forward_local (datagram, peer) dcid i s)" if "local_cid_map (dx_routes s) dcid = Some i" for i
    using inv peek that by (intro forward_local_inv) (auto simp add: demux_inv_def routes_ok_def addressed_def)
  have ini: "demux_inv owned (forward_initial (datagram, peer) dcid i s)" if "initial_map (dx_routes s) dcid = Some i" for i
    using inv peek that by (intro forward_initial_inv) (auto simp add: demux_inv_def routes_ok_def addressed_def)
  have acc: "demux_inv (owned \<union> opened s c) c" if "c = accept_initial env datagram peer s" for c
    using accept_initial_inv [OF inv peek that] .
  have no: "opened s c = {}" if "dx_conns c = dx_conns s" for c using that by (simp add: opened_def)
  show ?thesis
    unfolding s' demux_datagram_def peek
    using loc ini acc inv by (auto simp add: no split: option.splits)
qed

lemma drain_route_updates_ok:
  assumes "routes_ok owned n r" and "\<forall>u \<in> set us. cu_conn_tx u < n"
  shows "routes_ok (owned \<union> announced us) n (drain_route_updates us r)"
  using assms
proof (induction us arbitrary: r owned)
  case (Cons u us)
  have "routes_ok (owned \<union> announced [u]) n (snd (apply_cid_route_update u r))"
    using Cons.prems by (auto simp add: apply_cid_route_update_def routes_ok_def announced_def split: CidEvent.splits if_splits)
  moreover have "owned \<union> announced (u # us) = (owned \<union> announced [u]) \<union> announced us"
    by (auto simp add: announced_def)
  ultimately show ?case
    using Cons.IH Cons.prems(2) by (simp add: drain_route_updates_def del: Un_assoc)
qed (auto simp add: drain_route_updates_def announced_def routes_ok_def)

lemma demux_turn_inv:
  assumes inv: "demux_inv owned s" and us: "\<forall>u \<in> set us. cu_conn_tx u < length (dx_chans s)"
    and s': "s' = demux_turn env us datagram peer s"
  shows "demux_inv (owned \<union> announced us \<union> opened s s') s'"
proof -
  let ?s = "s\<lparr>dx_routes := drain_route_updates us (dx_routes s)\<rparr>"
  have "routes_ok (owned \<union> announced us) (length (dx_chans s)) (drain_route_updates us (dx_routes s))"
    using inv us by (intro drain_route_updates_ok) (simp_all add: demux_inv_def)
  moreover have "demux_inv (owned \<union> announced us) s" using demux_inv_mono [OF inv] by simp
  ultimately have "demux_inv (owned \<union> announced us) ?s" by (simp add: demux_inv_def)
  moreover have "opened ?s s' = opened s s'" by (simp add: opened_def)
  ultimately show ?thesis
    using demux_datagram_inv [of "owned \<union> announced us" ?s s' env datagram peer] s' by (simp add: demux_turn_def)
qed

lemma in_set_tlD: "x \<in> set (tl xs) \<Longrightarrow> x \<in> set xs"
  by (cases xs) simp_all

lemma demux_run_inv: "demux_run hmac tc s owned seen \<Longrightarrow> demux_inv owned s"
proof (induction rule: demux_run.induct)
  case start
  show ?case by (simp add: demux_inv_def routes_ok_def Demux_new_def)
next
  case (turn s owned seen env us datagram peer)
  show ?case by (rule demux_turn_inv [OF turn.IH turn.hyps(3) refl])
next
  case (taken s owned seen i)
  then show ?case
    by (intro demux_inv_chan) (auto simp add: demux_inv_def chan_ok_def chan_inv_def dest: in_set_tlD)
next
  case (dropped s owned seen i)
  then show ?case by (intro demux_inv_chan) (auto simp add: demux_inv_def chan_ok_def chan_inv_def)
qed

section \<open>Retry\<close>

text \<open>The datagram that opened the connection came from its address and carried a token made with \<open>secret\<close>.\<close>

definition vouched ::
    "(bytes \<Rightarrow> bytes \<Rightarrow> bytes) \<Rightarrow> (bytes \<times> SocketAddr) set \<Rightarrow> bytes \<Rightarrow> ('t, 's, 'x) Connection \<Rightarrow> bytes \<Rightarrow> bool" where
  "vouched hmac seen secret conn dcid \<longleftrightarrow>
     (\<exists>datagram scid odcid tail.
        (datagram, peer_addr (migration conn)) \<in> seen
        \<and> parse_client_initial_ids datagram = Some (QUIC_V1, dcid, scid)
        \<and> parse_initial_token datagram = Some (word_of_nat (length odcid) # odcid
            @ hmac_retry_tag hmac secret odcid (peer_addr (migration conn)) @ tail))"

definition gated :: "(bytes \<Rightarrow> bytes \<Rightarrow> bytes) \<Rightarrow> (bytes \<times> SocketAddr) set \<Rightarrow> ('t, 's, 'x) Demux \<Rightarrow> bool" where
  "gated hmac seen s \<longleftrightarrow> tc_retry_enabled (dx_transport s)
     \<and> (\<forall>(i, conn, dcid) \<in> set (dx_conns s).
          \<exists>secret. tc_retry_secret (dx_transport s) = Some secret \<and> vouched hmac seen secret conn dcid)"

lemma vouched_mono: "vouched hmac seen secret conn dcid \<Longrightarrow> seen \<subseteq> seen' \<Longrightarrow> vouched hmac seen' secret conn dcid"
  unfolding vouched_def by blast

lemma gated_mono: "gated hmac seen s \<Longrightarrow> seen \<subseteq> seen' \<Longrightarrow> gated hmac seen' s"
  unfolding gated_def by (fastforce intro: vouched_mono)

lemma gated_cong: "dx_conns s' = dx_conns s \<Longrightarrow> dx_transport s' = dx_transport s \<Longrightarrow> gated hmac seen s' = gated hmac seen s"
  by (simp add: gated_def)

text \<open>A Retry draws the secret at most once.\<close>

lemma send_retry_transport:
  "tc_retry_enabled (dx_transport (send_retry env dcid scid peer s)) = tc_retry_enabled (dx_transport s)"
  "tc_retry_secret (dx_transport s) = Some k \<Longrightarrow> tc_retry_secret (dx_transport (send_retry env dcid scid peer s)) = Some k"
  by (auto simp add: send_retry_def generate_retry_token_def get_or_generate_retry_secret_def case_prod_unfold Let_def
      split: option.splits)

lemma send_retry_gated: "gated hmac seen s \<Longrightarrow> gated hmac seen (send_retry env dcid scid peer s)"
  by (fastforce simp add: gated_def send_retry_transport)

lemma create_connection_gated:
  assumes "gated hmac seen s" and ids: "parse_client_initial_ids datagram = Some (QUIC_V1, dcid, scid)"
    and tok: "parse_initial_token datagram = Some token"
    and ok: "validate_retry_token hmac token peer (dx_transport s) = Some odcid"
    and hmac: "\<And>k m. length (hmac k m) = 32"
  shows "gated hmac (insert (datagram, peer) seen) (create_connection env dcid scid datagram peer s)"
proof -
  have old: "gated hmac (insert (datagram, peer) seen) s" using assms(1) by (rule gated_mono) blast
  have tc: "dx_transport (create_connection env dcid scid datagram peer s) = dx_transport s"
    by (simp add: create_connection_def Let_def split: sum.splits)
  obtain secret tail where sec: "tc_retry_secret (dx_transport s) = Some secret"
    and token: "token = word_of_nat (length odcid) # odcid @ hmac_retry_tag hmac secret odcid peer @ tail"
    using ok hmac by (auto simp add: validate_retry_token_iff)
  show ?thesis
  proof (cases rule: create_connection_cases [of "{}" 0 env dcid scid datagram peer s])
    case 1
    then show ?thesis using old tc gated_cong by blast
  next
    case (2 conn)
    have "vouched hmac (insert (datagram, peer) seen) secret conn dcid"
      using ids tok token 2(2) unfolding vouched_def by blast
    then show ?thesis using old sec by (auto simp add: 2(1) gated_def)
  qed
qed

lemma accept_initial_gated:
  assumes "gated hmac seen s" and "env_hmac (de_conn env) = hmac" and "\<And>k m. length (hmac k m) = 32"
  shows "gated hmac (insert (datagram, peer) seen) (accept_initial env datagram peer s)"
proof (cases "parse_client_initial_ids datagram")
  case None
  then show ?thesis using assms(1) by (simp add: accept_initial_def gated_mono subset_insertI)
next
  case (Some ids)
  obtain v dcid scid where ids: "ids = (v, dcid, scid)" by (cases ids)
  have old: "gated hmac (insert (datagram, peer) seen) s" using assms(1) by (rule gated_mono) blast
  have retry: "gated hmac (insert (datagram, peer) seen) (send_retry env dcid scid peer s)"
    using old by (rule send_retry_gated)
  have on: "tc_retry_enabled (dx_transport s)" using assms(1) by (simp add: gated_def)
  show ?thesis
  proof (cases "v = QUIC_V1")
    case True
    then show ?thesis
      using Some ids on retry assms(2) create_connection_gated [OF assms(1) _ _ _ assms(3), of datagram dcid scid]
      by (auto simp add: accept_initial_def split: option.splits)
  next
    case False
    then show ?thesis using Some ids old by (simp add: accept_initial_def gated_def)
  qed
qed

lemma demux_turn_gated:
  assumes "gated hmac seen s" and "env_hmac (de_conn env) = hmac" and "\<And>k m. length (hmac k m) = 32"
  shows "gated hmac (insert (datagram, peer) seen) (demux_turn env us datagram peer s)"
proof -
  let ?s = "s\<lparr>dx_routes := drain_route_updates us (dx_routes s)\<rparr>"
  have s: "gated hmac seen ?s" using assms(1) by (simp add: gated_def)
  have old: "gated hmac (insert (datagram, peer) seen) ?s" using s by (rule gated_mono) blast
  have same: "gated hmac (insert (datagram, peer) seen) t" if "dx_conns t = dx_conns ?s" "dx_transport t = dx_transport ?s" for t
    using old gated_cong [OF that] by simp
  show ?thesis
    unfolding demux_turn_def demux_datagram_def
    using accept_initial_gated [OF s assms(2,3)] old
    by (auto intro!: same simp del: select_convs split: sum.splits option.splits)
qed

lemma demux_run_gated:
  assumes "demux_run hmac tc s owned seen" and "tc_retry_enabled tc" and "\<And>k m. length (hmac k m) = 32"
  shows "gated hmac seen s"
  using assms(1)
proof (induction rule: demux_run.induct)
  case start
  show ?case using assms(2) by (simp add: gated_def Demux_new_def)
next
  case (turn s owned seen env us datagram peer)
  show ?case by (rule demux_turn_gated [OF turn.IH turn.hyps(2) assms(3)])
qed (simp_all add: gated_def)

section \<open>A demonstration server\<close>

definition demo_tc :: TransportConfig where
  "demo_tc = TransportConfig_default\<lparr>tc_retry_enabled := True, tc_retry_secret := Some (replicate 32 5)\<rparr>"

definition demo_hmac :: "bytes \<Rightarrow> bytes \<Rightarrow> bytes" where
  "demo_hmac k m = replicate 32 (hd (k @ m))"

definition demo_server :: "(unit, unit, nat) demux_env" where
  "demo_server = \<lparr>de_conn = demo_env\<lparr>env_hmac := demo_hmac, env_rng := (\<lambda>_. Some (replicate 8 9))\<rparr>,
     de_server_tls = (\<lambda>_ _. Inr ()), de_config_early = 0, de_scid = None, de_secret = None, de_nanos = 0\<rparr>"

definition demo_dcid :: bytes where "demo_dcid = [3, 3, 3, 3, 3, 3, 3, 3]"

definition demo_token :: bytes where
  "demo_token = [2, 6, 6, 5, 5, 5, 5, 5, 5, 5, 5, 5, 5, 5, 5, 5, 5, 5, 5]"

definition demo_first :: bytes where
  "demo_first = [0xC0, 0, 0, 0, 1, 8] @ demo_dcid @ [0, 19] @ demo_token"

definition demo_run :: "(unit, unit, nat) Demux" where
  "demo_run = demux_turn demo_server [] demo_first (demo_addr 7) (Demux_new demo_tc)"

lemmas demo_parse = demo_first_def demo_dcid_def demo_token_def Buf_new_def bind_d_def return_d_def get_u8_def get_u16_def
  get_u32_def get_varint_def get_bytes_def checked_add_def map_err_d_def map_err_def bind_result_def ok_value_def U64_MAX_def

lemma demo_first_parses:
  "peek_dcid demo_first LOCAL_CID_LEN = Inr (PT_Initial, demo_dcid)"
  "parse_client_initial_ids demo_first = Some (QUIC_V1, demo_dcid, [])"
  "parse_initial_token demo_first = Some demo_token" "demo_token \<noteq> []"
  by (simp_all add: peek_dcid_def long_dcid_fields_def from_first_byte_and_version_def from_first_byte_def
      parse_client_initial_ids_def initial_id_fields_def QUIC_V1_def parse_initial_token_def initial_token_fields_def
      demo_parse)

lemma demo_token_ok: "validate_retry_token demo_hmac demo_token (demo_addr 7) demo_tc = Some [6, 6]"
proof -
  have "replicate 16 5 = [5, 5, 5, 5, 5, 5, 5, 5, 5, 5, 5, 5, 5, 5, 5, 5 :: u8]" by (simp add: numeral_eq_Suc)
  then show ?thesis
    by (simp add: validate_retry_token_def demo_tc_def demo_token_def slice_def hmac_retry_tag_def demo_hmac_def tags_differ_iff)
qed

lemma demo_server_simps:
  "tc_retry_enabled demo_tc" "env_hmac (de_conn demo_server) = demo_hmac" "de_server_tls demo_server n p = Inr ()"
  "env_rng (de_conn demo_server) k = Some (replicate 8 9)" "length (demo_hmac key m) = 32"
  "(8 = LOCAL_CID_LEN) = True"
  by (simp_all add: demo_tc_def demo_server_def demo_hmac_def LOCAL_CID_LEN_def)

lemma demo_run_opens:
  "dx_chans demo_run = [Chan_new\<lparr>ch_queue := [(demo_first, demo_addr 7)]\<rparr>]"
  "\<exists>conn. dx_conns demo_run = [(0, conn, demo_dcid)] \<and> peer_addr (migration conn) = demo_addr 7"
  by (simp_all add: demo_run_def demux_turn_def demux_datagram_def accept_initial_def create_connection_def demo_first_parses
      demo_token_ok Demux_new_def drain_route_updates_def demo_server_simps Let_def new_server_def install_initial_keys_def
      new_inner_def random_cid_def try_send_def chan_full_def Chan_new_def CHANNEL_CAPACITY_def)

lemma demo_run_run:
  "demux_run demo_hmac demo_tc demo_run (opened (Demux_new demo_tc) demo_run) {(demo_first, demo_addr 7)}"
  using demux_run.turn [OF demux_run.start, of demo_server demo_hmac "[]" demo_tc demo_first "demo_addr 7"]
  by (simp add: demo_run_def announced_def demo_server_simps)

section \<open>Properties\<close>

text \<open>
  C10. A connection is handed only its own datagrams: in every state the demultiplexer reaches, whatever arrives and
  whatever routing updates the connections send, each datagram waiting on a channel carries a destination ID that was
  registered for that channel, and no channel holds more than its capacity.
\<close>

theorem demux_isolation:
  assumes "demux_run hmac tc s owned seen" and "i < length (dx_chans s)"
  shows "length (ch_queue (dx_chans s ! i)) \<le> CHANNEL_CAPACITY
    \<and> (\<forall>(datagram, peer) \<in> set (ch_queue (dx_chans s ! i)).
         \<exists>pkt_type dcid. peek_dcid datagram LOCAL_CID_LEN = Inr (pkt_type, dcid) \<and> (dcid, i) \<in> owned)"
  using demux_run_inv [OF assms(1)] assms(2) by (fastforce simp add: demux_inv_def chan_ok_def chan_inv_def addressed_def)

theorem demux_isolation_witness:
  "(demo_first, demo_addr 7) \<in> set (ch_queue (dx_chans demo_run ! 0))
   \<and> (demo_dcid, 0) \<in> opened (Demux_new demo_tc) demo_run"
  using demux_isolation [OF demo_run_run, of 0] by (simp add: demo_run_opens demo_first_parses)



end
