(* ===== verification/Handles.thy ===== *)
theory Handles
  imports Channels Core_Types
begin

text \<open>
  \<^verbatim>\<open>oxiquic-transport/src/handle.rs\<close> and the stream adapters of \<^verbatim>\<open>h3_compat.rs\<close>: the ends of a stream that an
  application holds while a background task drives the connection.  The command channel of the connection and the data
  channel of the stream are arguments; \<^verbatim>\<open>BiStream\<close>, \<^verbatim>\<open>UniSendStream\<close> and \<^verbatim>\<open>UniRecvStream\<close> only pass calls on.
\<close>

section \<open>Commands\<close>

datatype WriteCmd = WriteData bytes bool | ResetCmd u64 | StopSendingCmd u64

type_synonym write_chan = "(StreamId \<times> WriteCmd) Chan"

definition WRITE_CAPACITY :: nat where "WRITE_CAPACITY = 256"

definition DATA_CAPACITY :: nat where "DATA_CAPACITY = 64"

datatype HandleError = BrokenPipe | WouldBlock

definition SendStreamHandle_reset :: "StreamId \<Rightarrow> u64 \<Rightarrow> write_chan \<Rightarrow> (OxiQuicError + unit) Poll \<times> write_chan" where
  "SendStreamHandle_reset sid error_code ch =
     (case poll_reserve WRITE_CAPACITY ch of
        Pending \<Rightarrow> (Pending, ch)
      | Ready (False, ch) \<Rightarrow> (Ready (Inl (E_Connection ''stream closed'')), ch)
      | Ready (True, ch) \<Rightarrow> (Ready (Inr ()), permit_send (sid, ResetCmd error_code) ch))"

definition RecvStreamHandle_stop_sending :: "StreamId \<Rightarrow> u64 \<Rightarrow> write_chan \<Rightarrow> (OxiQuicError + unit) Poll \<times> write_chan" where
  "RecvStreamHandle_stop_sending sid error_code ch =
     (case poll_reserve WRITE_CAPACITY ch of
        Pending \<Rightarrow> (Pending, ch)
      | Ready (False, ch) \<Rightarrow> (Ready (Inl (E_Connection ''stream closed'')), ch)
      | Ready (True, ch) \<Rightarrow> (Ready (Inr ()), permit_send (sid, StopSendingCmd error_code) ch))"

definition poll_write :: "StreamId \<Rightarrow> bytes \<Rightarrow> write_chan \<Rightarrow> (HandleError + nat) Poll \<times> write_chan" where
  "poll_write sid buf ch =
     (case try_send WRITE_CAPACITY (sid, WriteData buf False) ch of
        (SendOk, ch) \<Rightarrow> (Ready (Inr (length buf)), ch)
      | (SendFull, ch) \<Rightarrow> (Pending, ch)
      | (SendClosed, ch) \<Rightarrow> (Ready (Inl BrokenPipe), ch))"

definition poll_shutdown :: "StreamId \<Rightarrow> write_chan \<Rightarrow> (HandleError + unit) Poll \<times> write_chan" where
  "poll_shutdown sid ch = (Ready (Inr ()), snd (try_send WRITE_CAPACITY (sid, WriteData [] True) ch))"

section \<open>Reading\<close>

record RecvStreamHandle =
  rh_stream_id :: StreamId
  rh_buf :: bytes
  rh_buf_pos :: nat

definition RecvStreamHandle_new :: "StreamId \<Rightarrow> RecvStreamHandle" where
  "RecvStreamHandle_new sid = \<lparr>rh_stream_id = sid, rh_buf = [], rh_buf_pos = 0\<rparr>"

text \<open>\<open>room\<close> is what the caller's buffer has left; the result is what is put there, nothing at the end of the stream.\<close>

definition poll_read ::
    "nat \<Rightarrow> RecvStreamHandle \<Rightarrow> bytes Chan \<Rightarrow> bytes Poll \<times> RecvStreamHandle \<times> bytes Chan" where
  "poll_read room h ch =
     (if rh_buf_pos h < length (rh_buf h)
      then
        let available = drop (rh_buf_pos h) (rh_buf h);
            to_copy = min (length available) room
        in (Ready (take to_copy available), h\<lparr>rh_buf_pos := rh_buf_pos h + to_copy\<rparr>, ch)
      else case poll_recv ch of
        (Ready (Some data), ch) \<Rightarrow>
          let to_copy = min (length data) room
          in (Ready (take to_copy data),
              if to_copy < length data then h\<lparr>rh_buf := data, rh_buf_pos := to_copy\<rparr>
              else h\<lparr>rh_buf := [], rh_buf_pos := 0\<rparr>, ch)
      | (Ready None, ch) \<Rightarrow> (Ready [], h, ch)
      | (Pending, ch) \<Rightarrow> (Pending, h, ch))"

section \<open>The HTTP/3 adapters\<close>

text \<open>\<open>h3_permit\<close> is whether \<^verbatim>\<open>poll_ready\<close> holds a reserved slot for the next \<^verbatim>\<open>send_data\<close>.\<close>

record H3SendStream =
  h3_stream_id :: StreamId
  h3_permit :: bool

definition poll_ready :: "H3SendStream \<Rightarrow> write_chan \<Rightarrow> (HandleError + unit) Poll \<times> H3SendStream \<times> write_chan" where
  "poll_ready s ch =
     (if h3_permit s then (Ready (Inr ()), s, ch)
      else case poll_reserve WRITE_CAPACITY ch of
        Ready (True, ch) \<Rightarrow> (Ready (Inr ()), s\<lparr>h3_permit := True\<rparr>, ch)
      | Ready (False, ch) \<Rightarrow> (Ready (Inl BrokenPipe), s, ch)
      | Pending \<Rightarrow> (Pending, s, ch))"

definition send_payload :: "bytes \<Rightarrow> H3SendStream \<Rightarrow> write_chan \<Rightarrow> (HandleError + unit) \<times> H3SendStream \<times> write_chan" where
  "send_payload payload s ch =
     (if h3_permit s
      then (Inr (), s\<lparr>h3_permit := False\<rparr>, permit_send (h3_stream_id s, WriteData payload False) ch)
      else case try_send WRITE_CAPACITY (h3_stream_id s, WriteData payload False) ch of
        (SendOk, ch) \<Rightarrow> (Inr (), s, ch)
      | (SendFull, ch) \<Rightarrow> (Inl WouldBlock, s, ch)
      | (SendClosed, ch) \<Rightarrow> (Inl BrokenPipe, s, ch))"

text \<open>\<^verbatim>\<open>send_data\<close> collects the chunks of its buffer first.\<close>

definition h3_send_data ::
    "bytes list \<Rightarrow> H3SendStream \<Rightarrow> write_chan \<Rightarrow> (HandleError + unit) \<times> H3SendStream \<times> write_chan" where
  "h3_send_data chunks = send_payload (fold (\<lambda>chunk payload. payload @ chunk) chunks [])"

definition poll_finish :: "H3SendStream \<Rightarrow> write_chan \<Rightarrow> unit Poll \<times> write_chan" where
  "poll_finish s ch =
     (case poll_reserve WRITE_CAPACITY ch of
        Ready (True, ch) \<Rightarrow> (Ready (), permit_send (h3_stream_id s, WriteData [] True) ch)
      | Ready (False, ch) \<Rightarrow> (Ready (), ch)
      | Pending \<Rightarrow> (Pending, ch))"

definition h3_reset :: "u64 \<Rightarrow> H3SendStream \<Rightarrow> write_chan \<Rightarrow> write_chan" where
  "h3_reset reset_code s ch = snd (try_send WRITE_CAPACITY (h3_stream_id s, ResetCmd reset_code) ch)"

definition h3_stop_sending :: "StreamId \<Rightarrow> u64 \<Rightarrow> write_chan \<Rightarrow> write_chan" where
  "h3_stop_sending sid error_code ch = snd (try_send WRITE_CAPACITY (sid, StopSendingCmd error_code) ch)"

definition poll_data :: "bytes Chan \<Rightarrow> bytes option Poll \<times> bytes Chan" where
  "poll_data ch = poll_recv ch"

section \<open>Lemmas\<close>

text \<open>What a handle will still return, in order.\<close>

definition unread :: "RecvStreamHandle \<Rightarrow> bytes Chan \<Rightarrow> bytes" where
  "unread h ch = drop (rh_buf_pos h) (rh_buf h) @ concat (ch_queue ch)"

text \<open>A read moves bytes from the front of what is unread; if it has room and returns none, nothing is left.\<close>

lemma poll_read_moves:
  assumes "poll_read room h ch = (r, h', ch')"
  shows "unread h ch = (case r of Ready bs \<Rightarrow> bs | Pending \<Rightarrow> []) @ unread h' ch'"
    and "r = Ready bs \<Longrightarrow> length bs \<le> room"
    and "r = Ready [] \<Longrightarrow> 0 < room \<Longrightarrow> [] \<notin> set (ch_queue ch) \<Longrightarrow> ch_done ch \<and> unread h ch = []"
proof -
  show "unread h ch = (case r of Ready bs \<Rightarrow> bs | Pending \<Rightarrow> []) @ unread h' ch'"
  proof (cases "rh_buf_pos h < length (rh_buf h)")
    case True
    define n where "n = min (length (drop (rh_buf_pos h) (rh_buf h))) room"
    have "r = Ready (take n (drop (rh_buf_pos h) (rh_buf h)))" "h' = h\<lparr>rh_buf_pos := rh_buf_pos h + n\<rparr>" "ch' = ch"
      using assms True by (simp_all add: poll_read_def n_def Let_def)
    moreover have "drop (rh_buf_pos h) (rh_buf h)
        = take n (drop (rh_buf_pos h) (rh_buf h)) @ drop (rh_buf_pos h + n) (rh_buf h)"
      by (metis append_take_drop_id drop_drop add.commute)
    ultimately show ?thesis by (simp add: unread_def)
  qed (use assms in \<open>auto simp add: poll_read_def poll_recv_def unread_def Let_def split: list.splits if_splits\<close>)
  show "length bs \<le> room" if "r = Ready bs"
    using assms that by (auto simp add: poll_read_def poll_recv_def Let_def split: list.splits if_splits)
  show "ch_done ch \<and> unread h ch = []" if "r = Ready []" "0 < room" "[] \<notin> set (ch_queue ch)"
    using assms that
    by (auto simp add: poll_read_def poll_recv_def unread_def Let_def min_def split: list.splits if_splits)
qed

text \<open>After \<open>poll_ready\<close> succeeds, sending cannot fail, and the command channel stays within its capacity.\<close>

lemma poll_ready_holds:
  assumes "poll_ready s ch = (Ready (Inr ()), s', ch')" and "chan_inv WRITE_CAPACITY ch" and "h3_permit s \<Longrightarrow> 0 < ch_permits ch"
  shows "h3_permit s'" and "h3_stream_id s' = h3_stream_id s" and "0 < ch_permits ch'" and "chan_inv WRITE_CAPACITY ch'"
    and "ch_queue ch' = ch_queue ch" and "ch_closed ch' = ch_closed ch"
proof -
  have "h3_permit s' \<and> h3_stream_id s' = h3_stream_id s \<and> 0 < ch_permits ch' \<and> chan_inv WRITE_CAPACITY ch'
      \<and> ch_queue ch' = ch_queue ch \<and> ch_closed ch' = ch_closed ch"
  proof (cases "h3_permit s")
    case True
    then have "s' = s" "ch' = ch" using assms(1) by (simp_all add: poll_ready_def)
    then show ?thesis using True assms(2,3) by simp
  next
    case False
    then have "s' = s\<lparr>h3_permit := True\<rparr>" "ch' = ch\<lparr>ch_permits := ch_permits ch + 1\<rparr>"
      "poll_reserve WRITE_CAPACITY ch = Ready (True, ch')"
      using assms(1) by (simp_all add: poll_ready_def poll_reserve_def split: if_splits)
    then show ?thesis using poll_reserve_inv [OF _ assms(2)] by simp
  qed
  then show "h3_permit s'" "h3_stream_id s' = h3_stream_id s" "0 < ch_permits ch'" "chan_inv WRITE_CAPACITY ch'"
    "ch_queue ch' = ch_queue ch" "ch_closed ch' = ch_closed ch"
    by simp_all
qed

lemma h3_ready_then_send:
  assumes "poll_ready s ch = (Ready (Inr ()), s', ch')" and "chan_inv WRITE_CAPACITY ch" and "h3_permit s \<Longrightarrow> 0 < ch_permits ch"
    and "send_payload payload s' ch' = (r, s'', ch'')"
  shows "r = Inr ()" and "chan_inv WRITE_CAPACITY ch''"
    and "\<not> ch_closed ch \<Longrightarrow> ch_queue ch'' = ch_queue ch @ [(h3_stream_id s, WriteData payload False)]"
proof -
  note held = poll_ready_holds [OF assms(1-3)]
  have "r = Inr () \<and> ch'' = permit_send (h3_stream_id s, WriteData payload False) ch'"
    using assms(4) held(1,2) by (simp add: send_payload_def)
  then show "r = Inr ()" "chan_inv WRITE_CAPACITY ch''"
    and "\<not> ch_closed ch \<Longrightarrow> ch_queue ch'' = ch_queue ch @ [(h3_stream_id s, WriteData payload False)]"
    using held(3-6) by (simp_all add: permit_send_inv) (simp add: permit_send_def)
qed

text \<open>\<open>poll_shutdown\<close> reports success on a full channel, where nothing is sent.\<close>

lemma shutdown_loses_fin:
  "chan_full WRITE_CAPACITY ch \<Longrightarrow> poll_shutdown sid ch = (Ready (Inr ()), ch)"
  by (simp add: poll_shutdown_def try_send_def)

end
