(* ===== verification/Driven.thy ===== *)
theory Driven
  imports Endpoint Handles
begin

text \<open>
  \<^verbatim>\<open>oxiquic-transport/src/endpoint/driven.rs\<close>: the background task that owns a connection and serves the stream handles
  of \<open>Handles\<close>.  One step is one branch of its \<^verbatim>\<open>select!\<close>; the data channels are named by their position.  As in
  \<open>Endpoint\<close> the socket does not fail on sending, and the datagrams sent are collected.
\<close>

section \<open>State\<close>

definition ACCEPT_CAPACITY :: nat where "ACCEPT_CAPACITY = 64"

text \<open>
  \<open>dv_accept_bidi\<close> and \<open>dv_accept_uni\<close> hold the streams the application has not taken yet, each with its data channel,
  and \<open>dv_replies\<close> the answers to its requests to open one.
\<close>

record ('t, 's, 'x) Driven =
  dv_conn :: "('t, 's, 'x) Connection"
  dv_read_senders :: "nat bmap"
  dv_data :: "bytes Chan list"
  dv_write :: write_chan
  dv_accept_bidi :: "(StreamId \<times> nat) Chan"
  dv_accept_uni :: "(StreamId \<times> nat) Chan"
  dv_open_bidi :: bool
  dv_open_uni :: bool
  dv_replies :: "(StreamId \<times> nat option) list"
  dv_out :: "(bytes \<times> SocketAddr) list"
  dv_closed :: bool

definition into_driven :: "('t, 's, 'x) Driver \<Rightarrow> ('t, 's, 'x) Driven" where
  "into_driven d =
     \<lparr>dv_conn = dr_conn d, dv_read_senders = [], dv_data = [], dv_write = Chan_new, dv_accept_bidi = Chan_new,
      dv_accept_uni = Chan_new, dv_open_bidi = True, dv_open_uni = True, dv_replies = [], dv_out = [], dv_closed = False\<rparr>"

definition on_data :: "nat \<Rightarrow> (bytes Chan \<Rightarrow> bytes Chan) \<Rightarrow> ('t, 's, 'x) Driven \<Rightarrow> ('t, 's, 'x) Driven" where
  "on_data i f d = d\<lparr>dv_data := (dv_data d)[i := f (dv_data d ! i)]\<rparr>"

definition sender_gone :: "'m Chan \<Rightarrow> 'm Chan" where "sender_gone ch = ch\<lparr>ch_done := True\<rparr>"

definition receiver_gone :: "'m Chan \<Rightarrow> 'm Chan" where "receiver_gone ch = ch\<lparr>ch_closed := True\<rparr>"

section \<open>Streams and their channels\<close>

definition drop_sender :: "StreamId \<Rightarrow> ('t, 's, 'x) Driven \<Rightarrow> ('t, 's, 'x) Driven" where
  "drop_sender sid d =
     (case bmap_get sid (dv_read_senders d) of
        None \<Rightarrow> d
      | Some i \<Rightarrow> (on_data i sender_gone d)\<lparr>dv_read_senders := bmap_remove sid (dv_read_senders d)\<rparr>)"

text \<open>A new data channel for a stream, with its position; a sender registered before is dropped.\<close>

definition register :: "StreamId \<Rightarrow> ('t, 's, 'x) Driven \<Rightarrow> nat \<times> ('t, 's, 'x) Driven" where
  "register sid d =
     (let d = drop_sender sid d; i = length (dv_data d)
      in (i, d\<lparr>dv_data := dv_data d @ [Chan_new], dv_read_senders := bmap_insert sid i (dv_read_senders d)\<rparr>))"

definition surface_stream :: "StreamId \<Rightarrow> ('t, 's, 'x) Driven \<Rightarrow> ('t, 's, 'x) Driven" where
  "surface_stream sid d =
     (let (i, d) = register sid d in
      if stream_direction sid = Bidirectional
      then
        let (r, ch) = try_send ACCEPT_CAPACITY (sid, i) (dv_accept_bidi d);
            d = d\<lparr>dv_accept_bidi := ch\<rparr>
        in if r = SendOk then d else on_data i receiver_gone d
      else
        let (r, ch) = try_send ACCEPT_CAPACITY (sid, i) (dv_accept_uni d);
            d = d\<lparr>dv_accept_uni := ch\<rparr>
        in if r = SendOk then d else on_data i receiver_gone d)"

definition set_streams :: "ConnStreams \<Rightarrow> ('t, 's, 'x) Driven \<Rightarrow> ('t, 's, 'x) Driven" where
  "set_streams st d = d\<lparr>dv_conn := (dv_conn d)\<lparr>streams := st\<rparr>\<rparr>"

definition surface_all :: "('t, 's, 'x) Driven \<Rightarrow> ('t, 's, 'x) Driven" where
  "surface_all d =
     (let st = streams (dv_conn d)
      in fold surface_stream (new_peer_streams st) (set_streams (st\<lparr>new_peer_streams := []\<rparr>) d))"

text \<open>A chunk is put on the channel if there is room, and dropped otherwise.\<close>

definition forward_chunk :: "bytes \<Rightarrow> bytes Chan \<Rightarrow> bytes Chan" where
  "forward_chunk data ch = snd (try_send DATA_CAPACITY data ch)"

definition forward_data :: "StreamId \<Rightarrow> bytes \<Rightarrow> ('t, 's, 'x) Driven \<Rightarrow> ('t, 's, 'x) Driven" where
  "forward_data sid data d =
     (if data = [] then d
      else case bmap_get sid (dv_read_senders d) of
        Some i \<Rightarrow> on_data i (forward_chunk data) d
      | None \<Rightarrow> d)"

definition deliver :: "StreamId \<Rightarrow> ('t, 's, 'x) Driven \<Rightarrow> ('t, 's, 'x) Driven" where
  "deliver sid d =
     (case read_stream sid (streams (dv_conn d)) of
        (Inl _, st) \<Rightarrow> set_streams st d
      | (Inr (data, fin), st) \<Rightarrow>
          let d = set_streams st d;
              d = (if bmap_get sid (dv_read_senders d) = None \<and> (data \<noteq> [] \<or> fin)
                   then let (i, d) = register sid d in on_data i receiver_gone d else d);
              d = forward_data sid data d
          in if fin then drop_sender sid d else d)"

definition deliver_readable :: "('t, 's, 'x) Driven \<Rightarrow> ('t, 's, 'x) Driven" where
  "deliver_readable d =
     (let st = streams (dv_conn d) in fold deliver (readable st) (set_streams (st\<lparr>readable := []\<rparr>) d))"

section \<open>The loop\<close>

definition flush_conn ::
    "('t, 's, 'x) conn_env \<Rightarrow> instant \<Rightarrow> ('t, 's, 'x) Driven \<Rightarrow> ('t, 's, 'x) Driven option" where
  "flush_conn env now d =
     map_option (\<lambda>(out, c). d\<lparr>dv_conn := c, dv_out := dv_out d @ out\<rparr>) (flush env now (dv_conn d))"

definition apply_write :: "StreamId \<times> WriteCmd \<Rightarrow> ('t, 's, 'x) Driven \<Rightarrow> ('t, 's, 'x) Driven" where
  "apply_write msg d =
     (case msg of (sid, cmd) \<Rightarrow>
        let st = streams (dv_conn d) in
        set_streams
          (case cmd of
             WriteData data fin \<Rightarrow> snd (send_stream sid data fin st)
           | ResetCmd error_code \<Rightarrow> snd (reset_stream sid error_code st)
           | StopSendingCmd error_code \<Rightarrow> snd (stop_sending sid error_code st)) d)"

text \<open>The end of the task: what it held is dropped.\<close>

definition stop_driver :: "('t, 's, 'x) Driven \<Rightarrow> ('t, 's, 'x) Driven" where
  "stop_driver d =
     (let d = fold drop_sender (bmap_keys (dv_read_senders d)) d
      in d\<lparr>dv_write := receiver_gone (dv_write d), dv_accept_bidi := sender_gone (dv_accept_bidi d),
           dv_accept_uni := sender_gone (dv_accept_uni d), dv_closed := True\<rparr>)"

definition end_if_closed :: "('t, 's, 'x) Driven \<Rightarrow> ('t, 's, 'x) Driven" where
  "end_if_closed d = (if state (life (dv_conn d)) = Closed then stop_driver d else d)"

definition flush_and_check ::
    "('t, 's, 'x) conn_env \<Rightarrow> instant \<Rightarrow> ('t, 's, 'x) Driven \<Rightarrow> ('t, 's, 'x) Driven option" where
  "flush_and_check env now d = map_option end_if_closed (flush_conn env now d)"

text \<open>
  What makes a branch ready: a datagram, a refused or failed receive, a command or a request of the application, with
  whether the requester is still waiting, the last handle gone, or the timer.
\<close>

datatype DrivenEvent =
    InboundDatagram bytes | InboundRefused | InboundFailed | WriteCommand
  | OpenBidiRequest bool | OpenBidiGone | OpenUniRequest bool | OpenUniGone
  | CloseRequest "(u64 \<times> bytes) option" | ProtocolTimeout

definition on_inbound ::
    "('t, 's, 'x) conn_env \<Rightarrow> instant \<Rightarrow> bytes \<Rightarrow> ('t, 's, 'x) Driven \<Rightarrow> ('t, 's, 'x) Driven option" where
  "on_inbound env now datagram d =
     (case handle_datagram env now datagram (dv_conn d) of
        None \<Rightarrow> None
      | Some (Inl _, c) \<Rightarrow> Some (stop_driver (d\<lparr>dv_conn := c\<rparr>))
      | Some (Inr _, c) \<Rightarrow> flush_and_check env now (deliver_readable (surface_all (d\<lparr>dv_conn := c\<rparr>))))"

definition on_write ::
    "('t, 's, 'x) conn_env \<Rightarrow> instant \<Rightarrow> ('t, 's, 'x) Driven \<Rightarrow> ('t, 's, 'x) Driven option" where
  "on_write env now d =
     (case poll_recv (dv_write d) of
        (Ready (Some msg), ch) \<Rightarrow> flush_and_check env now (apply_write msg (d\<lparr>dv_write := ch\<rparr>))
      | (Ready None, _) \<Rightarrow> Some (stop_driver d)
      | (Pending, _) \<Rightarrow> Some d)"

definition on_open_bidi ::
    "('t, 's, 'x) conn_env \<Rightarrow> instant \<Rightarrow> bool \<Rightarrow> ('t, 's, 'x) Driven \<Rightarrow> ('t, 's, 'x) Driven option" where
  "on_open_bidi env now waiting d =
     (case open_bidi (streams (dv_conn d)) of
        (Inl _, st) \<Rightarrow> Some (set_streams st d)
      | (Inr sid, st) \<Rightarrow>
          let (i, d) = register sid (set_streams st d);
              d = (if waiting then d\<lparr>dv_replies := dv_replies d @ [(sid, Some i)]\<rparr> else on_data i receiver_gone d)
          in flush_and_check env now d)"

definition on_open_uni ::
    "('t, 's, 'x) conn_env \<Rightarrow> instant \<Rightarrow> bool \<Rightarrow> ('t, 's, 'x) Driven \<Rightarrow> ('t, 's, 'x) Driven option" where
  "on_open_uni env now waiting d =
     (case open_uni (streams (dv_conn d)) of
        (Inl _, st) \<Rightarrow> Some (set_streams st d)
      | (Inr sid, st) \<Rightarrow>
          let d = set_streams st d;
              d = (if waiting then d\<lparr>dv_replies := dv_replies d @ [(sid, None)]\<rparr> else d)
          in flush_and_check env now d)"

definition on_close ::
    "('t, 's, 'x) conn_env \<Rightarrow> instant \<Rightarrow> (u64 \<times> bytes) option \<Rightarrow> ('t, 's, 'x) Driven \<Rightarrow> ('t, 's, 'x) Driven option" where
  "on_close env now req d =
     (let ch = dv_write d;
          d = fold apply_write (ch_queue ch) (d\<lparr>dv_write := ch\<lparr>ch_queue := []\<rparr>\<rparr>)
      in Option.bind (flush_conn env now d) (\<lambda>d.
           let c = dv_conn d;
               d = (case req of
                      Some (code, reason) \<Rightarrow> d\<lparr>dv_conn := c\<lparr>life := close_connection code reason (life c)\<rparr>\<rparr>
                    | None \<Rightarrow> d)
           in map_option stop_driver (flush_conn env now d)))"

definition on_timeout ::
    "('t, 's, 'x) conn_env \<Rightarrow> instant \<Rightarrow> ('t, 's, 'x) Driven \<Rightarrow> ('t, 's, 'x) Driven option" where
  "on_timeout env now d =
     (let d = d\<lparr>dv_conn := handle_timeout (env_fp env) now (dv_conn d)\<rparr>
      in if state (life (dv_conn d)) = Closed then Some (stop_driver d) else flush_and_check env now d)"

definition driven_step ::
    "('t, 's, 'x) conn_env \<Rightarrow> instant \<Rightarrow> DrivenEvent \<Rightarrow> ('t, 's, 'x) Driven \<Rightarrow> ('t, 's, 'x) Driven option" where
  "driven_step env now ev d =
     (if dv_closed d then Some d
      else case ev of
        InboundDatagram datagram \<Rightarrow> on_inbound env now datagram d
      | InboundRefused \<Rightarrow> Some d
      | InboundFailed \<Rightarrow> Some (stop_driver d)
      | WriteCommand \<Rightarrow> on_write env now d
      | OpenBidiRequest waiting \<Rightarrow> if dv_open_bidi d then on_open_bidi env now waiting d else Some d
      | OpenBidiGone \<Rightarrow> Some (end_if_closed (d\<lparr>dv_open_bidi := False\<rparr>))
      | OpenUniRequest waiting \<Rightarrow> if dv_open_uni d then on_open_uni env now waiting d else Some d
      | OpenUniGone \<Rightarrow> Some (end_if_closed (d\<lparr>dv_open_uni := False\<rparr>))
      | CloseRequest req \<Rightarrow> on_close env now req d
      | ProtocolTimeout \<Rightarrow> on_timeout env now d)"

end
