(* ===== verification/Driven_Streams.thy ===== *)
theory Driven_Streams
  imports Driven Conn_Exchange
begin

text \<open>
  What the background driver guarantees to the stream handles: the bytes the connection hands over arrive in order, the
  end of a stream is seen exactly when it was received, and the end of the task ends every stream.
\<close>

section \<open>Runs\<close>

text \<open>Between the steps of the driver the application takes chunks, drops its receivers and writes commands.\<close>

inductive driven_run :: "('t, 's, 'x) conn_env \<Rightarrow> ('t, 's, 'x) Driven \<Rightarrow> bool" for env where
  start: "driven_run env (into_driven drv)"
| stepped: "driven_run env d \<Longrightarrow> driven_step env now ev d = Some d' \<Longrightarrow> driven_run env d'"
| taken: "driven_run env d \<Longrightarrow> driven_run env (on_data i (\<lambda>ch. snd (poll_recv ch)) d)"
| dropped: "driven_run env d \<Longrightarrow> driven_run env (on_data i receiver_gone d)"
| written: "driven_run env d \<Longrightarrow> driven_run env (d\<lparr>dv_write := ch\<rparr>)"

section \<open>The invariant\<close>

text \<open>A data channel is still open exactly when one stream is registered for it; its chunks are not empty.\<close>

definition chunk_chan :: "bytes Chan \<Rightarrow> bool" where
  "chunk_chan ch \<longleftrightarrow> ch_permits ch = 0 \<and> length (ch_queue ch) \<le> DATA_CAPACITY \<and> [] \<notin> set (ch_queue ch)"

definition registered :: "nat bmap \<Rightarrow> bytes Chan list \<Rightarrow> bool" where
  "registered m chs \<longleftrightarrow> bmap_ok m \<and> (\<forall>(sid, i) \<in> set m. i < length chs)
     \<and> (\<forall>i < length chs. chunk_chan (chs ! i) \<and> (\<not> ch_done (chs ! i) \<longleftrightarrow> (\<exists>sid. (sid, i) \<in> set m)))
     \<and> (\<forall>sid sid' i. (sid, i) \<in> set m \<longrightarrow> (sid', i) \<in> set m \<longrightarrow> sid = sid')"

abbreviation data_inv :: "('t, 's, 'x) Driven \<Rightarrow> bool" where
  "data_inv d \<equiv> registered (dv_read_senders d) (dv_data d)"

lemma registered_D:
  assumes "registered m chs" and "bmap_get sid m = Some i"
  shows "i < length chs" and "\<not> ch_done (chs ! i)" and "chunk_chan (chs ! i)"
proof -
  have "(sid, i) \<in> set m" using assms by (simp add: registered_def bmap_get_iff_mem)
  then show "i < length chs" using assms(1) by (auto simp add: registered_def)
  with \<open>(sid, i) \<in> set m\<close> show "\<not> ch_done (chs ! i)" "chunk_chan (chs ! i)"
    using assms(1) by (auto simp add: registered_def)
qed

lemma registered_update:
  assumes "registered m chs" and "chunk_chan (f (chs ! i))" and "ch_done (f (chs ! i)) = ch_done (chs ! i)"
  shows "registered m (chs[i := f (chs ! i)])"
  using assms by (cases "i < length chs") (auto simp add: registered_def nth_list_update)

lemma chunk_chan_ops [simp]:
  "chunk_chan (receiver_gone ch) = chunk_chan ch" "chunk_chan (sender_gone ch) = chunk_chan ch"
  "ch_done (receiver_gone ch) = ch_done ch" "chunk_chan Chan_new" "\<not> ch_done Chan_new"
  by (simp_all add: chunk_chan_def receiver_gone_def sender_gone_def Chan_new_def)

lemma poll_recv_chunk: "chunk_chan ch \<Longrightarrow> chunk_chan (snd (poll_recv ch)) \<and> ch_done (snd (poll_recv ch)) = ch_done ch"
  by (auto simp add: chunk_chan_def poll_recv_def split: list.splits)

lemma forward_chunk_chunk:
  "chunk_chan ch \<Longrightarrow> data \<noteq> [] \<Longrightarrow> chunk_chan (forward_chunk data ch) \<and> ch_done (forward_chunk data ch) = ch_done ch"
  by (auto simp add: chunk_chan_def forward_chunk_def try_send_def chan_full_def)

lemma registered_chunk: "registered m chs \<Longrightarrow> i < length chs \<Longrightarrow> chunk_chan (chs ! i)"
  by (simp add: registered_def)

lemma on_data_inv:
  assumes "data_inv d" and "\<And>ch. chunk_chan ch \<Longrightarrow> chunk_chan (f ch) \<and> ch_done (f ch) = ch_done ch"
  shows "data_inv (on_data i f d)"
proof (cases "i < length (dv_data d)")
  case True
  then show ?thesis
    using assms by (auto simp add: on_data_def intro!: registered_update dest: registered_chunk)
qed (use assms(1) in \<open>simp add: on_data_def list_update_beyond\<close>)

lemma registered_remove:
  assumes inv: "registered m chs" and get: "bmap_get sid m = Some i"
  shows "registered (bmap_remove sid m) (chs[i := sender_gone (chs ! i)])"
proof -
  have mem: "(sid, i) \<in> set m" using inv get by (simp add: registered_def bmap_get_iff_mem)
  then have "(sid', i) \<in> set m \<longleftrightarrow> sid' = sid" for sid' using inv by (auto simp add: registered_def)
  moreover have "(sid, j) \<in> set m \<longleftrightarrow> j = i" for j using inv mem bmap_unique by (auto simp add: registered_def)
  moreover have "i < length chs" using registered_D(1) [OF inv get] .
  ultimately show ?thesis
    using inv by (auto simp add: registered_def nth_list_update sender_gone_def chunk_chan_def)
qed

lemma drop_sender_inv: "data_inv d \<Longrightarrow> data_inv (drop_sender sid d)"
  by (auto simp add: drop_sender_def on_data_def intro: registered_remove split: option.splits)

lemma drop_sender_gone: "data_inv d \<Longrightarrow> bmap_get sid (dv_read_senders (drop_sender sid d)) = None"
  by (auto simp add: drop_sender_def bmap_simps split: option.splits)

lemma register_inv:
  assumes "data_inv d"
  shows "data_inv (snd (register sid d))" and "fst (register sid d) < length (dv_data (snd (register sid d)))"
    and "bmap_get sid (dv_read_senders (snd (register sid d))) = Some (fst (register sid d))"
proof -
  have inv: "data_inv (drop_sender sid d)" using assms by (rule drop_sender_inv)
  have "(sid, i) \<notin> set (dv_read_senders (drop_sender sid d))" for i
    using drop_sender_gone [OF assms, of sid] by (auto simp add: bmap_get_None_iff image_iff)
  with inv show "data_inv (snd (register sid d))"
    by (auto simp add: register_def Let_def registered_def bmap_insert_mem nth_append less_Suc_eq)
  show "fst (register sid d) < length (dv_data (snd (register sid d)))" by (simp add: register_def Let_def)
  show "bmap_get sid (dv_read_senders (snd (register sid d))) = Some (fst (register sid d))"
    using inv by (simp add: register_def Let_def bmap_simps registered_def)
qed

lemma set_streams_data [simp]:
  "dv_data (set_streams st d) = dv_data d" "dv_read_senders (set_streams st d) = dv_read_senders d"
  "dv_conn (set_streams st d) = (dv_conn d)\<lparr>streams := st\<rparr>"
  by (simp_all add: set_streams_def)

lemma surface_stream_inv: "data_inv d \<Longrightarrow> data_inv (surface_stream sid d)"
  using register_inv(1) [of d sid] on_data_inv [of _ receiver_gone]
  by (auto simp add: surface_stream_def Let_def case_prod_unfold on_data_def)

lemma fold_inv: "P d \<Longrightarrow> (\<And>x d. P d \<Longrightarrow> P (f x d)) \<Longrightarrow> P (fold f xs d)"
  by (induction xs arbitrary: d) auto

lemma surface_all_inv: "data_inv d \<Longrightarrow> data_inv (surface_all d)"
  unfolding surface_all_def Let_def by (rule fold_inv) (simp_all add: surface_stream_inv)

lemma forward_data_inv: "data_inv d \<Longrightarrow> data_inv (forward_data sid data d)"
  by (auto simp add: forward_data_def forward_chunk_chunk intro!: on_data_inv split: option.splits)

lemma deliver_inv: "data_inv d \<Longrightarrow> data_inv (deliver sid d)"
  by (auto simp add: deliver_def Let_def case_prod_unfold
      intro!: drop_sender_inv forward_data_inv on_data_inv register_inv(1) split: prod.splits sum.splits)

lemma deliver_readable_inv: "data_inv d \<Longrightarrow> data_inv (deliver_readable d)"
  unfolding deliver_readable_def Let_def by (rule fold_inv) (simp_all add: deliver_inv)

text \<open>Stopping drops every sender.\<close>

lemma drop_senders_mem:
  "set (dv_read_senders (fold drop_sender ks d)) \<subseteq> {e \<in> set (dv_read_senders d). fst e \<notin> set ks}"
proof (induction ks arbitrary: d)
  case (Cons k ks)
  have "set (dv_read_senders (drop_sender k d)) \<subseteq> {e \<in> set (dv_read_senders d). fst e \<noteq> k}"
    by (auto simp add: drop_sender_def bmap_get_None_iff split: option.splits)
  then show ?case using Cons.IH [of "drop_sender k d"] by auto
qed simp

lemma stop_driver_inv:
  assumes "data_inv d"
  shows "data_inv (stop_driver d)" and "dv_read_senders (stop_driver d) = []"
proof -
  let ?d = "fold drop_sender (bmap_keys (dv_read_senders d)) d"
  have "data_inv ?d" using assms by (rule fold_inv) (rule drop_sender_inv)
  then show "data_inv (stop_driver d)" by (simp add: stop_driver_def Let_def)
  have "e \<notin> set (dv_read_senders ?d)" for e
    using drop_senders_mem [of "bmap_keys (dv_read_senders d)" d] by (auto simp add: bmap_keys_def)
  then have "dv_read_senders ?d = []" by (metis list.set_intros(1) neq_Nil_conv)
  then show "dv_read_senders (stop_driver d) = []" by (simp add: stop_driver_def Let_def)
qed

definition driven_inv :: "('t, 's, 'x) Driven \<Rightarrow> bool" where
  "driven_inv d \<longleftrightarrow> data_inv d \<and> (dv_closed d \<longrightarrow> dv_read_senders d = [])"

lemma stop_driver_driven_inv: "data_inv d \<Longrightarrow> driven_inv (stop_driver d)"
  using stop_driver_inv [of d] unfolding driven_inv_def by blast

lemma drop_sender_closed [simp]: "dv_closed (drop_sender sid d) = dv_closed d"
  by (simp add: drop_sender_def on_data_def split: option.splits)

lemma register_closed [simp]: "dv_closed (snd (register sid d)) = dv_closed d"
  by (simp add: register_def Let_def)

lemma set_streams_closed [simp]: "dv_closed (set_streams st d) = dv_closed d"
  by (simp add: set_streams_def)

lemma on_data_closed [simp]: "dv_closed (on_data i f d) = dv_closed d"
  by (simp add: on_data_def)

lemma surface_stream_closed: "dv_closed (surface_stream sid d) = dv_closed d"
  by (simp add: surface_stream_def Let_def case_prod_unfold)

lemma deliver_closed: "dv_closed (deliver sid d) = dv_closed d"
  by (simp add: deliver_def forward_data_def Let_def case_prod_unfold split: sum.splits prod.splits option.splits)

lemma fold_closed: "(\<And>x d. dv_closed (f x d) = dv_closed d) \<Longrightarrow> dv_closed (fold f xs d) = dv_closed d"
  by (induction xs arbitrary: d) simp_all

lemma apply_write_same [simp]:
  "dv_data (apply_write m d) = dv_data d" "dv_read_senders (apply_write m d) = dv_read_senders d"
  "dv_closed (apply_write m d) = dv_closed d"
  by (simp_all add: apply_write_def Let_def case_prod_unfold)

lemma apply_writes_same:
  "dv_data (fold apply_write msgs d) = dv_data d" "dv_read_senders (fold apply_write msgs d) = dv_read_senders d"
  by (induction msgs arbitrary: d) simp_all

lemma flush_conn_same:
  assumes "flush_conn env now d = Some d'"
  shows "dv_data d' = dv_data d" "dv_read_senders d' = dv_read_senders d" "dv_closed d' = dv_closed d"
  using assms by (auto simp add: flush_conn_def)

lemma flush_and_check_inv:
  assumes "flush_and_check env now d = Some d'" and "data_inv d" and "\<not> dv_closed d"
  shows "driven_inv d'"
proof -
  obtain e where e: "flush_conn env now d = Some e" and d': "d' = end_if_closed e"
    using assms(1) by (auto simp add: flush_and_check_def)
  then show ?thesis
    using assms(2,3) flush_conn_same [OF e] stop_driver_driven_inv [of e] by (auto simp add: end_if_closed_def driven_inv_def)
qed

lemma on_inbound_inv:
  assumes "on_inbound env now datagram d = Some d'" and "data_inv d" and "\<not> dv_closed d"
  shows "driven_inv d'"
proof (cases "handle_datagram env now datagram (dv_conn d)")
  case (Some rc)
  obtain r c where rc: "rc = (r, c)" by (cases rc)
  let ?d = "deliver_readable (surface_all (d\<lparr>dv_conn := c\<rparr>))"
  have "data_inv ?d" using assms(2) by (intro deliver_readable_inv surface_all_inv) simp
  moreover have "dv_closed ?d = dv_closed d"
    by (simp add: deliver_readable_def surface_all_def Let_def fold_closed deliver_closed surface_stream_closed)
  ultimately show ?thesis
    using assms Some rc by (auto simp add: on_inbound_def intro: flush_and_check_inv stop_driver_driven_inv split: sum.splits)
qed (use assms in \<open>simp add: on_inbound_def\<close>)

lemma on_write_inv:
  assumes "on_write env now d = Some d'" and "data_inv d" and "\<not> dv_closed d"
  shows "driven_inv d'"
proof -
  have "driven_inv d'" if "flush_and_check env now (apply_write msg (d\<lparr>dv_write := ch\<rparr>)) = Some d'" for msg ch
    using that by (rule flush_and_check_inv) (use assms(2,3) in simp_all)
  moreover have "driven_inv d" "driven_inv (stop_driver d)"
    using assms(2,3) stop_driver_driven_inv [of d] by (auto simp add: driven_inv_def)
  ultimately show ?thesis
    using assms(1) by (auto simp add: on_write_def split: prod.splits Poll.splits option.splits)
qed

lemma on_open_inv:
  assumes "data_inv d" and "\<not> dv_closed d"
  shows "on_open_bidi env now waiting d = Some d' \<Longrightarrow> driven_inv d'"
    and "on_open_uni env now waiting d = Some d' \<Longrightarrow> driven_inv d'"
proof -
  have same: "driven_inv (set_streams st d)" "data_inv (set_streams st d)" for st
    using assms by (simp_all add: driven_inv_def)
  have reg: "driven_inv d'" if "flush_and_check env now e = Some d'"
    "e = (let (i, d) = register sid (set_streams st d)
          in if waiting then d\<lparr>dv_replies := dv_replies d @ [(sid, Some i)]\<rparr> else on_data i receiver_gone d)" for e sid st
  proof (rule flush_and_check_inv [OF that(1)])
    show "data_inv e"
      using register_inv(1) [OF same(2)] by (auto simp add: that(2) Let_def case_prod_unfold intro: on_data_inv)
    show "\<not> dv_closed e" using assms(2) by (simp add: that(2) Let_def case_prod_unfold)
  qed
  show "driven_inv d'" if "on_open_bidi env now waiting d = Some d'"
    using that same(1) reg by (auto simp add: on_open_bidi_def Let_def case_prod_unfold split: prod.splits sum.splits)
  have uni: "driven_inv d'" if "flush_and_check env now e = Some d'"
    "e = (let d = set_streams st d in if waiting then d\<lparr>dv_replies := dv_replies d @ [(sid, None)]\<rparr> else d)" for e sid st
    using that(1) by (rule flush_and_check_inv) (use same(2) assms(2) in \<open>simp_all add: that(2) Let_def\<close>)
  show "driven_inv d'" if "on_open_uni env now waiting d = Some d'"
    using that same(1) uni by (auto simp add: on_open_uni_def Let_def split: prod.splits sum.splits)
qed

lemma on_close_inv:
  assumes "on_close env now req d = Some d'" and "data_inv d"
  shows "driven_inv d'"
proof -
  let ?d = "fold apply_write (ch_queue (dv_write d)) (d\<lparr>dv_write := (dv_write d)\<lparr>ch_queue := []\<rparr>\<rparr>)"
  obtain e where e: "flush_conn env now ?d = Some e"
    using assms(1) by (auto simp add: on_close_def Let_def bind_eq_Some_conv)
  obtain f where f: "flush_conn env now (case req of
        Some (code, reason) \<Rightarrow> e\<lparr>dv_conn := (dv_conn e)\<lparr>life := close_connection code reason (life (dv_conn e))\<rparr>\<rparr>
      | None \<Rightarrow> e) = Some f" and d': "d' = stop_driver f"
    using assms(1) e by (auto simp add: on_close_def Let_def)
  have "data_inv f"
    using assms(2) flush_conn_same [OF e] flush_conn_same [OF f] by (simp add: apply_writes_same split: option.splits)
  then show ?thesis by (simp add: d' stop_driver_driven_inv)
qed

lemma on_timeout_inv:
  "on_timeout env now d = Some d' \<Longrightarrow> data_inv d \<Longrightarrow> \<not> dv_closed d \<Longrightarrow> driven_inv d'"
  by (auto simp add: on_timeout_def Let_def stop_driver_driven_inv elim: flush_and_check_inv split: if_splits)

lemma driven_step_inv:
  assumes "driven_step env now ev d = Some d'" and "driven_inv d"
  shows "driven_inv d'"
proof (cases "dv_closed d")
  case False
  have inv: "data_inv d" using assms(2) by (simp add: driven_inv_def)
  have "driven_inv (end_if_closed (d\<lparr>dv_open_bidi := False\<rparr>))" "driven_inv (end_if_closed (d\<lparr>dv_open_uni := False\<rparr>))"
    "driven_inv (stop_driver d)"
    using inv False stop_driver_driven_inv [of "d\<lparr>dv_open_bidi := False\<rparr>"] stop_driver_driven_inv [of "d\<lparr>dv_open_uni := False\<rparr>"]
      stop_driver_driven_inv [of d]
    by (auto simp add: end_if_closed_def driven_inv_def)
  with assms False inv show ?thesis
    by (cases ev) (auto simp add: driven_step_def elim: on_inbound_inv on_write_inv on_open_inv on_close_inv on_timeout_inv
        split: if_splits)
qed (use assms in \<open>simp add: driven_step_def\<close>)

lemma driven_run_inv: "driven_run env d \<Longrightarrow> driven_inv d"
proof (induction rule: driven_run.induct)
  case (start drv)
  show ?case by (simp add: driven_inv_def into_driven_def registered_def)
next
  case (stepped d now ev d')
  show ?case by (rule driven_step_inv [OF stepped.hyps(2) stepped.IH])
next
  case (taken d i)
  have "data_inv d" using taken.IH by (simp add: driven_inv_def)
  then have "data_inv (on_data i (\<lambda>ch. snd (poll_recv ch)) d)" by (rule on_data_inv) (rule poll_recv_chunk)
  then show ?case using taken.IH by (simp add: driven_inv_def on_data_def)
next
  case (dropped d i)
  have "data_inv d" using dropped.IH by (simp add: driven_inv_def)
  then have "data_inv (on_data i receiver_gone d)" by (rule on_data_inv) simp
  then show ?case using dropped.IH by (simp add: driven_inv_def on_data_def)
qed (simp add: driven_inv_def)

section \<open>Reading to the end\<close>

text \<open>\<open>read_n n k h ch\<close>: the results of \<open>n\<close> reads with room for \<open>k\<close> bytes each.\<close>

primrec read_n :: "nat \<Rightarrow> nat \<Rightarrow> RecvStreamHandle \<Rightarrow> bytes Chan \<Rightarrow> bytes Poll list" where
  "read_n 0 k h ch = []"
| "read_n (Suc n) k h ch = (case poll_read k h ch of (r, h, ch) \<Rightarrow> r # read_n n k h ch)"

lemma poll_read_done:
  assumes "ch_done ch" and "poll_read k h ch = (r, h', ch')"
  shows "r \<noteq> Pending" and "ch_done ch'" and "set (ch_queue ch') \<subseteq> set (ch_queue ch)"
  using assms by (auto simp add: poll_read_def poll_recv_def Let_def split: list.splits if_splits)

lemma read_to_end:
  assumes "ch_done ch" and "[] \<notin> set (ch_queue ch)" and "0 < k"
  shows "\<exists>bss. read_n (Suc (length bss)) k h ch = map Ready bss @ [Ready []] \<and> concat bss = unread h ch \<and> [] \<notin> set bss"
  using assms
proof (induction "length (unread h ch)" arbitrary: h ch rule: less_induct)
  case less
  obtain r h' ch' where step: "poll_read k h ch = (r, h', ch')" by (cases "poll_read k h ch") auto
  obtain bs where r: "r = Ready bs" using poll_read_done(1) [OF less.prems(1) step] by (cases r) auto
  have moves: "unread h ch = bs @ unread h' ch'" using poll_read_moves(1) [OF step] r by simp
  show ?case
  proof (cases "bs = []")
    case True
    then have "unread h ch = []" using poll_read_moves(3) [OF step] r less.prems by simp
    then show ?thesis using step r True by (intro exI [of _ "[]"]) simp
  next
    case False
    have "length (unread h' ch') < length (unread h ch)" using moves False by simp
    moreover have "ch_done ch'" "[] \<notin> set (ch_queue ch')" using poll_read_done [OF less.prems(1) step] less.prems(2) by auto
    ultimately obtain bss where "read_n (Suc (length bss)) k h' ch' = map Ready bss @ [Ready []]"
      "concat bss = unread h' ch'" "[] \<notin> set bss"
      using less.hyps less.prems(3) by blast
    then show ?thesis using step r moves False by (intro exI [of _ "bs # bss"]) simp
  qed
qed

text \<open>A chunk that finds its channel full is gone: the connection has handed it over, and the handle will not return it.\<close>

lemma full_channel_loses_data:
  assumes "bmap_get sid (dv_read_senders d) = Some i" and "i < length (dv_data d)"
    and "read_stream sid (streams (dv_conn d)) = (Inr (data, False), st)" and "chan_full DATA_CAPACITY (dv_data d ! i)"
  shows "unread h (dv_data (deliver sid d) ! i) = unread h (dv_data d ! i)" and "streams (dv_conn (deliver sid d)) = st"
  using assms
  by (simp_all add: deliver_def forward_data_def forward_chunk_def try_send_def on_data_def set_streams_def Let_def)

section \<open>A demonstration driver\<close>

text \<open>A connection that has received two bytes and the end of stream 1, which the application has not seen yet.\<close>

definition demo_quiet :: "(unit, unit, nat) conn_env" where
  "demo_quiet = demo_env\<lparr>env_tls := demo_tls\<lparr>is_handshaking := (\<lambda>_. True)\<rparr>\<rparr>"

definition demo_heard :: "(unit, unit, nat) Connection" where
  "demo_heard = demo_conn\<lparr>streams := (streams demo_conn)\<lparr>new_peer_streams := [1],
     recv_streams := [(1, RecvStream_new\<lparr>rv_read_offset := 2, rv_ready := [7, 8], rv_final_size := Some 2, rv_fin_delivered := True\<rparr>)]\<rparr>\<rparr>"

definition demo_driven :: "(unit, unit, nat) Driven" where
  "demo_driven = into_driven \<lparr>dr_conn = demo_heard, dr_peer = None, dr_routing = None\<rparr>"

lemma demo_flush:
  assumes "initial (spaces c) = PacketSpace_new" and "\<not> handshake_keys_ready (hs c)" and "\<not> one_rtt_ready (hs c)"
    and "pending_transport_close (life c) = None" and "pending_close (life c) = None"
  shows "flush demo_quiet now c = Some ([], if state (life c) = Closed then c else c\<lparr>streams := advance_recv_flow (streams c)\<rparr>)"
proof -
  have same: "c\<lparr>tls := ()\<rparr> = c" by (cases c) simp
  have "poll_transmit (env_hmac demo_quiet) (env_tls demo_quiet) (env_rng demo_quiet) (env_wall demo_quiet) now c
      = Some (transmit (env_tls demo_quiet) now c)"
    by (simp add: poll_transmit_def pump_write_hs_def pump_loop.simps queue_hs_bytes_def refresh_handshake_complete_def
        demo_quiet_def demo_tls_def) (rule arg_cong [OF same])
  moreover have "transmit (env_tls demo_quiet) now c
      = (None, [], if state (life c) = Closed then c else c\<lparr>streams := advance_recv_flow (streams c)\<rparr>)"
    using assms by (simp add: transmit_def transmit_data_def write_packets_def has_keys_def PacketSpace_new_def)
  ultimately show ?thesis by (simp add: flush.simps)
qed

lemma demo_driven_step:
  "\<exists>d. driven_step demo_quiet 0 (InboundDatagram []) demo_driven = Some d \<and> dv_read_senders d = [(1, 0)]
     \<and> dv_data d = [Chan_new] \<and> recv_streams (streams (dv_conn d)) = recv_streams (streams demo_heard) \<and> \<not> dv_closed d"
proof -
  let ?c = "note_arrival 0 0 demo_heard"
  have heard: "handle_datagram demo_quiet 0 [] demo_heard = Some (Inr (), ?c)"
    by (simp add: handle_datagram_def recv_packets.simps)
  let ?e = "deliver_readable (surface_all (demo_driven\<lparr>dv_conn := ?c\<rparr>))"
  have "streams ?c = streams demo_heard" "new_peer_streams (streams demo_heard) = [1]" "readable (streams demo_heard) = []"
    by (simp_all add: note_arrival_def demo_heard_def demo_conn_def new_inner_def streams_new_def Let_def)
  then have surfaced: "dv_read_senders ?e = [(1, 0)]" "dv_data ?e = [Chan_new]" "\<not> dv_closed ?e"
    "dv_conn ?e = ?c\<lparr>streams := (streams ?c)\<lparr>new_peer_streams := [], readable := []\<rparr>\<rparr>"
    by (simp_all add: demo_driven_def into_driven_def surface_all_def deliver_readable_def surface_stream_def register_def
        drop_sender_def bmap_get_def Let_def stream_direction_def try_send_def chan_full_def ACCEPT_CAPACITY_def Chan_new_def
        set_streams_def)
  have flushed: "flush demo_quiet 0 (dv_conn ?e) = Some ([], (dv_conn ?e)\<lparr>streams := advance_recv_flow (streams (dv_conn ?e))\<rparr>)"
    unfolding surfaced
    by (subst demo_flush) (simp_all add: note_arrival_def demo_heard_def demo_conn_def new_inner_def Let_def)
  have live: "state (life ?c) \<noteq> Closed"
    by (simp add: note_arrival_def demo_heard_def demo_conn_def new_inner_def Let_def)
  have recv: "recv_streams (advance_recv_flow ((streams ?c)\<lparr>new_peer_streams := [], readable := []\<rparr>))
      = recv_streams (streams demo_heard)"
    by (simp add: advance_recv_flow_def bmap_keys_def note_arrival_def demo_heard_def demo_conn_def new_inner_def
        streams_new_def Let_def split: prod.splits option.splits)
  have "\<not> dv_closed demo_driven" "dv_conn demo_driven = demo_heard" by (simp_all add: demo_driven_def into_driven_def)
  then show ?thesis
    using heard flushed surfaced live recv
    by (simp add: driven_step_def on_inbound_def flush_and_check_def flush_conn_def end_if_closed_def)
qed

lemma demo_driven_run:
  "\<exists>d. driven_run demo_quiet d \<and> dv_read_senders d = [(1, 0)] \<and> dv_data d = [Chan_new]
     \<and> (\<exists>st. read_stream 1 (streams (dv_conn d)) = (Inr ([7, 8], True), st))"
proof -
  obtain d where d: "driven_step demo_quiet 0 (InboundDatagram []) demo_driven = Some d" "dv_read_senders d = [(1, 0)]"
    "dv_data d = [Chan_new]" "recv_streams (streams (dv_conn d)) = recv_streams (streams demo_heard)"
    using demo_driven_step by blast
  have "driven_run demo_quiet demo_driven" unfolding demo_driven_def by (rule driven_run.start)
  then have "driven_run demo_quiet d" using d(1) by (rule driven_run.stepped)
  moreover have "\<exists>st. read_stream 1 (streams (dv_conn d)) = (Inr ([7, 8], True), st)"
    by (simp add: read_stream_def d(4) demo_heard_def bmap_get_def read_checked_def rv_read_def RecvStream_new_def Let_def)
  ultimately show ?thesis using d by blast
qed

section \<open>Properties\<close>

text \<open>
  C11. While the application keeps its handle and the channel of a stream has room, forwarding a stream appends what the
  connection has read to what the handle will return, in order and without touching any other stream; the handle sees
  the end of the stream exactly when the connection has reported it.
\<close>

theorem deliver_to_handle:
  assumes "driven_run env d" and "bmap_get sid (dv_read_senders d) = Some i"
    and "read_stream sid (streams (dv_conn d)) = (Inr (data, fin), st)"
    and "\<not> ch_closed (dv_data d ! i)" and "length (ch_queue (dv_data d ! i)) < DATA_CAPACITY"
  shows "unread h (dv_data (deliver sid d) ! i) = unread h (dv_data d ! i) @ data
    \<and> (ch_done (dv_data (deliver sid d) ! i) \<longleftrightarrow> fin)
    \<and> (\<forall>j. j \<noteq> i \<longrightarrow> dv_data (deliver sid d) ! j = dv_data d ! j)
    \<and> streams (dv_conn (deliver sid d)) = st"
proof -
  have inv: "data_inv d" using driven_run_inv [OF assms(1)] by (simp add: driven_inv_def)
  note ch = registered_D [OF inv assms(2)]
  have "\<not> chan_full DATA_CAPACITY (dv_data d ! i)" using ch(3) assms(5) by (simp add: chan_full_def chunk_chan_def)
  then show ?thesis
    using assms(2-4) ch(1,2)
    by (auto simp add: deliver_def forward_data_def forward_chunk_def try_send_def drop_sender_def on_data_def set_streams_def
        sender_gone_def unread_def Let_def nth_list_update)
qed

theorem deliver_to_handle_witness:
  "\<exists>d. driven_run demo_quiet d \<and> unread (RecvStreamHandle_new 1) (dv_data (deliver 1 d) ! 0) = [7, 8]
     \<and> ch_done (dv_data (deliver 1 d) ! 0)"
proof -
  obtain d st where d: "driven_run demo_quiet d" "dv_read_senders d = [(1, 0)]" "dv_data d = [Chan_new]"
    "read_stream 1 (streams (dv_conn d)) = (Inr ([7, 8], True), st)"
    using demo_driven_run by blast
  have "unread (RecvStreamHandle_new 1) Chan_new = []" by (simp add: unread_def RecvStreamHandle_new_def Chan_new_def)
  then show ?thesis
    using d deliver_to_handle [OF d(1) _ d(4), of 0 "RecvStreamHandle_new 1"]
    by (auto simp add: bmap_get_def Chan_new_def DATA_CAPACITY_def)
qed

text \<open>
  C12. When the driver task has ended, however it ended, a reader is not left waiting: repeated reads of any positive
  size return, in order, everything that was put on the stream's channel, and then the end of the stream.
\<close>

theorem driver_end_reaches_handles:
  assumes "driven_run env d" and "dv_closed d" and "i < length (dv_data d)" and "0 < k"
  shows "\<exists>bss. read_n (Suc (length bss)) k h (dv_data d ! i) = map Ready bss @ [Ready []]
    \<and> concat bss = unread h (dv_data d ! i) \<and> [] \<notin> set bss"
proof (rule read_to_end [OF _ _ assms(4)])
  have inv: "driven_inv d" using assms(1) by (rule driven_run_inv)
  then show "[] \<notin> set (ch_queue (dv_data d ! i))"
    using registered_chunk assms(3) by (auto simp add: driven_inv_def chunk_chan_def)
  show "ch_done (dv_data d ! i)"
    using inv assms(2,3) by (auto simp add: driven_inv_def registered_def)
qed

theorem driver_end_reaches_handles_witness:
  "\<exists>d. driven_run demo_quiet d \<and> dv_closed d \<and> read_n 1 10 (RecvStreamHandle_new 1) (dv_data d ! 0) = [Ready []]"
proof -
  obtain d where d: "driven_run demo_quiet d" "dv_read_senders d = [(1, 0)]" "dv_data d = [Chan_new]"
    using demo_driven_run by blast
  have "\<exists>e. driven_step demo_quiet 0 InboundFailed d = Some e \<and> (dv_closed e \<and> length (dv_data e) = 1
      \<and> unread (RecvStreamHandle_new 1) (dv_data e ! 0) = [])"
    using d(2,3)
    by (auto simp add: driven_step_def stop_driver_def bmap_keys_def drop_sender_def bmap_get_def on_data_def sender_gone_def
        Chan_new_def unread_def RecvStreamHandle_new_def)
  then obtain e where step: "driven_step demo_quiet 0 InboundFailed d = Some e" and e: "dv_closed e" "length (dv_data e) = 1"
    "unread (RecvStreamHandle_new 1) (dv_data e ! 0) = []"
    by blast
  have run: "driven_run demo_quiet e" using d(1) step by (rule driven_run.stepped)
  obtain bss where "read_n (Suc (length bss)) 10 (RecvStreamHandle_new 1) (dv_data e ! 0) = map Ready bss @ [Ready []]"
    "concat bss = []" "[] \<notin> set bss"
    using driver_end_reaches_handles [OF run e(1), of 0 10 "RecvStreamHandle_new 1"] e(2,3) by auto
  moreover from this have "bss = []" by (cases bss) auto
  ultimately show ?thesis using run e(1) by auto
qed

end
