(* ===== verification/H3_Message.thy ===== *)
theory H3_Message
  imports Core_Types
begin

text \<open>
  \<^verbatim>\<open>oxiquic-h3/src/message.rs\<close> and \<^verbatim>\<open>error.rs\<close>: requests and responses, and the HTTP/3 error codes.  Strings are
  ASCII.
\<close>

section \<open>Errors\<close>

datatype H3ErrorCode =
    H3_NoError | H3_GeneralProtocolError | H3_InternalError | H3_StreamCreationError | H3_ClosedCriticalStream
  | H3_FrameUnexpected | H3_FrameError | H3_ExcessiveLoad | H3_IdError | H3_SettingsError | H3_MissingSettings
  | H3_RequestRejected | H3_RequestCancelled | H3_RequestIncomplete | H3_MessageError | H3_ConnectError
  | H3_VersionFallback | H3_Qpack u64 | H3_Unknown u64

definition h3_named :: "(u64 \<times> H3ErrorCode) list" where
  "h3_named =
     [(0x0100, H3_NoError), (0x0101, H3_GeneralProtocolError), (0x0102, H3_InternalError),
      (0x0103, H3_StreamCreationError), (0x0104, H3_ClosedCriticalStream), (0x0105, H3_FrameUnexpected),
      (0x0106, H3_FrameError), (0x0107, H3_ExcessiveLoad), (0x0108, H3_IdError), (0x0109, H3_SettingsError),
      (0x010a, H3_MissingSettings), (0x010b, H3_RequestRejected), (0x010c, H3_RequestCancelled),
      (0x010d, H3_RequestIncomplete), (0x010e, H3_MessageError), (0x010f, H3_ConnectError), (0x0110, H3_VersionFallback)]"

definition h3_from_u64 :: "u64 \<Rightarrow> H3ErrorCode" where
  "h3_from_u64 v =
     (case map_of h3_named v of
        Some c \<Rightarrow> c
      | None \<Rightarrow> if 0x0200 \<le> v \<and> v \<le> 0x0202 then H3_Qpack v else H3_Unknown v)"

fun h3_to_u64 :: "H3ErrorCode \<Rightarrow> u64" where
  "h3_to_u64 H3_NoError = 0x0100"
| "h3_to_u64 H3_GeneralProtocolError = 0x0101"
| "h3_to_u64 H3_InternalError = 0x0102"
| "h3_to_u64 H3_StreamCreationError = 0x0103"
| "h3_to_u64 H3_ClosedCriticalStream = 0x0104"
| "h3_to_u64 H3_FrameUnexpected = 0x0105"
| "h3_to_u64 H3_FrameError = 0x0106"
| "h3_to_u64 H3_ExcessiveLoad = 0x0107"
| "h3_to_u64 H3_IdError = 0x0108"
| "h3_to_u64 H3_SettingsError = 0x0109"
| "h3_to_u64 H3_MissingSettings = 0x010a"
| "h3_to_u64 H3_RequestRejected = 0x010b"
| "h3_to_u64 H3_RequestCancelled = 0x010c"
| "h3_to_u64 H3_RequestIncomplete = 0x010d"
| "h3_to_u64 H3_MessageError = 0x010e"
| "h3_to_u64 H3_ConnectError = 0x010f"
| "h3_to_u64 H3_VersionFallback = 0x0110"
| "h3_to_u64 (H3_Qpack v) = v"
| "h3_to_u64 (H3_Unknown v) = v"

datatype H3Error =
    H3E_Protocol string | H3E_Qpack string | H3E_Stream string | H3E_Connection string | H3E_FrameUnexpected string
  | H3E_SettingsError string | H3E_MissingSettings | H3E_IdError string | H3E_Tls string | H3E_Io string

fun h3_error_code :: "H3Error \<Rightarrow> H3ErrorCode" where
  "h3_error_code (H3E_Protocol _) = H3_GeneralProtocolError"
| "h3_error_code (H3E_Qpack _) = H3_Qpack 0x0200"
| "h3_error_code (H3E_Stream _) = H3_StreamCreationError"
| "h3_error_code (H3E_Connection _) = H3_InternalError"
| "h3_error_code (H3E_Io _) = H3_InternalError"
| "h3_error_code (H3E_FrameUnexpected _) = H3_FrameUnexpected"
| "h3_error_code (H3E_SettingsError _) = H3_SettingsError"
| "h3_error_code H3E_MissingSettings = H3_MissingSettings"
| "h3_error_code (H3E_IdError _) = H3_IdError"
| "h3_error_code (H3E_Tls _) = H3_GeneralProtocolError"

fun h3_error_text :: "H3Error \<Rightarrow> string" where
  "h3_error_text (H3E_Protocol s) = ''HTTP/3 protocol error: '' @ s"
| "h3_error_text (H3E_Qpack s) = ''QPACK error: '' @ s"
| "h3_error_text (H3E_Stream s) = ''HTTP/3 stream error: '' @ s"
| "h3_error_text (H3E_Connection s) = ''HTTP/3 connection error: '' @ s"
| "h3_error_text (H3E_FrameUnexpected s) = ''unexpected HTTP/3 frame: '' @ s"
| "h3_error_text (H3E_SettingsError s) = ''HTTP/3 settings error: '' @ s"
| "h3_error_text H3E_MissingSettings = ''HTTP/3 SETTINGS frame missing''"
| "h3_error_text (H3E_IdError s) = ''HTTP/3 ID error: '' @ s"
| "h3_error_text (H3E_Tls s) = ''TLS error: '' @ s"
| "h3_error_text (H3E_Io s) = ''I/O error: '' @ s"

definition quic_error_of_h3 :: "H3Error \<Rightarrow> OxiQuicError" where
  "quic_error_of_h3 err =
     (case err of H3E_Io io \<Rightarrow> E_Io io | H3E_Tls msg \<Rightarrow> E_Tls msg | other \<Rightarrow> E_Protocol (h3_error_text other))"

text \<open>How a code reported by the HTTP/3 library becomes an error; \<open>txt\<close> is the text the library gives.\<close>

definition h3_code_error :: "(string \<Rightarrow> H3Error) \<Rightarrow> u64 \<Rightarrow> string \<Rightarrow> H3Error" where
  "h3_code_error other code txt =
     (case h3_from_u64 code of
        H3_FrameUnexpected \<Rightarrow> H3E_FrameUnexpected txt
      | H3_SettingsError \<Rightarrow> H3E_SettingsError txt
      | H3_MissingSettings \<Rightarrow> H3E_MissingSettings
      | H3_IdError \<Rightarrow> H3E_IdError txt
      | H3_Qpack _ \<Rightarrow> H3E_Qpack txt
      | _ \<Rightarrow> other txt)"

section \<open>Messages\<close>

definition DEFAULT_MAX_FIELD_SECTION_SIZE :: u64 where "DEFAULT_MAX_FIELD_SECTION_SIZE = 16384"

record H3Settings =
  max_field_section_size :: u64
  qpack_max_table_capacity :: u64
  qpack_blocked_streams :: u64

definition H3Settings_default :: H3Settings where
  "H3Settings_default =
     \<lparr>max_field_section_size = DEFAULT_MAX_FIELD_SECTION_SIZE, qpack_max_table_capacity = 0, qpack_blocked_streams = 0\<rparr>"

definition ascii_lower :: "char \<Rightarrow> char" where
  "ascii_lower c = (let n = of_char c :: nat in if 65 \<le> n \<and> n \<le> 90 then char_of (n + 32) else c)"

definition to_ascii_lowercase :: "string \<Rightarrow> string" where
  "to_ascii_lowercase s = map ascii_lower s"

record H3Request =
  rq_method :: string
  rq_uri :: string
  rq_headers :: "(string \<times> string) list"

definition H3Request_new :: "string \<Rightarrow> string \<Rightarrow> H3Request" where
  "H3Request_new m uri = \<lparr>rq_method = m, rq_uri = uri, rq_headers = []\<rparr>"

definition request_with_header :: "string \<Rightarrow> string \<Rightarrow> H3Request \<Rightarrow> H3Request" where
  "request_with_header name v r = r\<lparr>rq_headers := rq_headers r @ [(to_ascii_lowercase name, v)]\<rparr>"

record H3Response =
  rs_status :: nat
  rs_headers :: "(string \<times> string) list"
  rs_body :: bytes

definition H3Response_new :: "nat \<Rightarrow> H3Response" where
  "H3Response_new status = \<lparr>rs_status = status, rs_headers = [], rs_body = []\<rparr>"

definition response_with_header :: "string \<Rightarrow> string \<Rightarrow> H3Response \<Rightarrow> H3Response" where
  "response_with_header name v r = r\<lparr>rs_headers := rs_headers r @ [(to_ascii_lowercase name, v)]\<rparr>"

definition response_with_body :: "bytes \<Rightarrow> H3Response \<Rightarrow> H3Response" where
  "response_with_body b r = r\<lparr>rs_body := b\<rparr>"

definition response_header :: "string \<Rightarrow> H3Response \<Rightarrow> string option" where
  "response_header name r =
     (let lname = to_ascii_lowercase name in map_option snd (find (\<lambda>(n, _). n = lname) (rs_headers r)))"

text \<open>\<^verbatim>\<open>str::trim\<close> and \<^verbatim>\<open>str::parse::<u64>\<close>.\<close>

definition is_space :: "char \<Rightarrow> bool" where
  "is_space c = (let n = of_char c :: nat in n = 32 \<or> (9 \<le> n \<and> n \<le> 13))"

definition trim :: "string \<Rightarrow> string" where
  "trim s = rev (dropWhile is_space (rev (dropWhile is_space s)))"

fun parse_digits :: "nat \<Rightarrow> string \<Rightarrow> nat option" where
  "parse_digits acc [] = Some acc"
| "parse_digits acc (c # s) =
     (let n = of_char c :: nat in
      if 48 \<le> n \<and> n \<le> 57 \<and> acc * 10 + (n - 48) \<le> U64_MAX then parse_digits (acc * 10 + (n - 48)) s else None)"

definition parse_u64 :: "string \<Rightarrow> nat option" where
  "parse_u64 s =
     (let ds = (case s of c # s' \<Rightarrow> if c = CHR ''+'' then s' else s | [] \<Rightarrow> [])
      in if ds = [] then None else parse_digits 0 ds)"

definition content_length :: "H3Response \<Rightarrow> nat option" where
  "content_length r = Option.bind (response_header ''content-length'' r) (\<lambda>v. parse_u64 (trim v))"

definition content_type :: "H3Response \<Rightarrow> string option" where
  "content_type r = response_header ''content-type'' r"

definition is_success :: "H3Response \<Rightarrow> bool" where
  "is_success r \<longleftrightarrow> 200 \<le> rs_status r \<and> rs_status r < 300"

definition error_for_status :: "H3Response \<Rightarrow> H3Error + H3Response" where
  "error_for_status r = (if is_success r then Inr r else Inl (H3E_Protocol (''HTTP error: '' @ decimal (rs_status r))))"

section \<open>Lemmas\<close>

text \<open>Every wire value survives decoding, and decoding returns every code but the two catch-alls of assigned values.\<close>

lemma h3_code_roundtrip: "h3_to_u64 (h3_from_u64 v) = v"
proof (cases "map_of h3_named v")
  case (Some c)
  then have "(v, c) \<in> set h3_named" by (rule map_of_SomeD)
  then have "h3_to_u64 c = v" by (auto simp add: h3_named_def)
  then show ?thesis by (simp add: h3_from_u64_def Some)
qed (simp add: h3_from_u64_def)

lemma h3_named_code_roundtrip:
  "(\<forall>v. c \<noteq> H3_Qpack v \<and> c \<noteq> H3_Unknown v) \<Longrightarrow> h3_from_u64 (h3_to_u64 c) = c"
  by (cases c) (simp_all add: h3_from_u64_def h3_named_def)

lemma ascii_lower_idem [simp]: "ascii_lower (ascii_lower c) = ascii_lower c"
  by (simp add: ascii_lower_def Let_def)

lemma lowercase_idem [simp]: "to_ascii_lowercase (to_ascii_lowercase s) = to_ascii_lowercase s"
  by (simp add: to_ascii_lowercase_def)

text \<open>The first value of a name wins, whatever the case of the name.\<close>

lemma find_append: "find P (xs @ ys) = (case find P xs of Some x \<Rightarrow> Some x | None \<Rightarrow> find P ys)"
  by (induction xs) auto

lemma header_with_header:
  "response_header n (response_with_header m v r) =
     (case response_header n r of
        Some w \<Rightarrow> Some w
      | None \<Rightarrow> if to_ascii_lowercase m = to_ascii_lowercase n then Some v else None)"
  by (simp add: response_header_def response_with_header_def find_append Let_def split: option.splits)

lemma response_header_case: "to_ascii_lowercase m = to_ascii_lowercase n \<Longrightarrow> response_header m r = response_header n r"
  by (simp add: response_header_def)

end
