(* ===== verification/H3_Pool.thy ===== *)
theory H3_Pool
  imports H3_Message Multipath
begin

text \<open>
  \<^verbatim>\<open>oxiquic-h3/src/pool.rs\<close>: the pool of idle HTTP/3 connections.  A connection is a value of a type parameter;
  opening one and issuing a request on one are parameters, as they run in the \<^verbatim>\<open>h3\<close> library.  The map is locked in
  \<open>acquire\<close>, \<open>release\<close> and \<open>evict\<close> only, so requests interleave at these operations.
\<close>

section \<open>Operations\<close>

record OriginKey =
  ok_addr :: SocketAddr
  ok_server_name :: string

type_synonym 'c idle_map = "OriginKey \<rightharpoonup> 'c list"

text \<open>An idle connection of the origin, if there is one.\<close>

definition take_idle :: "OriginKey \<Rightarrow> 'c idle_map \<Rightarrow> 'c option \<times> 'c idle_map" where
  "take_idle origin idle =
     (case idle origin of
        Some (c # q) \<Rightarrow> (Some c, idle(origin \<mapsto> q))
      | _ \<Rightarrow> (None, idle))"

definition acquire ::
    "(string \<Rightarrow> H3Error + 'tls) \<Rightarrow> ('tls \<Rightarrow> OriginKey \<Rightarrow> H3Error + 'c) \<Rightarrow> OriginKey \<Rightarrow> 'c idle_map
      \<Rightarrow> (H3Error + 'c) \<times> 'c idle_map" where
  "acquire tls_factory connect_h3 origin idle =
     (case take_idle origin idle of
        (Some client, idle) \<Rightarrow> (Inr client, idle)
      | (None, idle) \<Rightarrow>
          (bind_result (tls_factory (ok_server_name origin)) (\<lambda>tls_cfg. connect_h3 tls_cfg origin), idle))"

definition release :: "nat \<Rightarrow> OriginKey \<Rightarrow> 'c \<Rightarrow> 'c idle_map \<Rightarrow> 'c idle_map" where
  "release max_idle origin client idle =
     (let q = (case idle origin of Some q \<Rightarrow> q | None \<Rightarrow> []);
          q = (if length q \<ge> max_idle then butlast q else q)
      in idle(origin \<mapsto> client # q))"

definition evict :: "OriginKey \<Rightarrow> 'c idle_map \<Rightarrow> 'c idle_map" where
  "evict origin idle = idle(origin := None)"

definition idle_count :: "OriginKey \<Rightarrow> 'c idle_map \<Rightarrow> nat" where
  "idle_count origin idle = (case idle origin of Some q \<Rightarrow> length q | None \<Rightarrow> 0)"

text \<open>\<open>request\<close> for one task: \<open>between\<close> is what the other tasks do to the pool while the request is under way.\<close>

definition pool_request ::
    "(string \<Rightarrow> H3Error + 'tls) \<Rightarrow> ('tls \<Rightarrow> OriginKey \<Rightarrow> H3Error + 'c)
      \<Rightarrow> (H3Request \<Rightarrow> bytes option \<Rightarrow> 'c \<Rightarrow> (H3Error + H3Response) \<times> 'c) \<Rightarrow> nat \<Rightarrow> ('c idle_map \<Rightarrow> 'c idle_map)
      \<Rightarrow> OriginKey \<Rightarrow> H3Request \<Rightarrow> bytes option \<Rightarrow> 'c idle_map \<Rightarrow> (H3Error + H3Response) \<times> 'c idle_map" where
  "pool_request tls_factory connect_h3 issue max_idle between origin req body idle =
     (case acquire tls_factory connect_h3 origin idle of
        (Inl e, idle) \<Rightarrow> (Inl e, idle)
      | (Inr client, idle) \<Rightarrow>
          let idle = between idle in
          (case issue req body client of
             (Inr resp, client) \<Rightarrow> (Inr resp, release max_idle origin client idle)
           | (Inl e, _) \<Rightarrow> (Inl e, idle)))"

section \<open>Runs\<close>

text \<open>
  Any interleaving of requests: \<open>lent\<close> are the connections out on a request and \<open>home\<close> the origin each connection was
  opened for.  A connection that is opened is a new one.
\<close>

inductive pool_run :: "nat \<Rightarrow> 'c idle_map \<Rightarrow> 'c set \<Rightarrow> ('c \<rightharpoonup> OriginKey) \<Rightarrow> bool" for max_idle where
  start: "pool_run max_idle Map.empty {} Map.empty"
| reuse: "pool_run max_idle idle lent home \<Longrightarrow> take_idle origin idle = (Some c, idle')
    \<Longrightarrow> pool_run max_idle idle' (insert c lent) home"
| open_new: "pool_run max_idle idle lent home \<Longrightarrow> take_idle origin idle = (None, idle') \<Longrightarrow> home c = None
    \<Longrightarrow> pool_run max_idle idle' (insert c lent) (home(c \<mapsto> origin))"
| give_back: "pool_run max_idle idle lent home \<Longrightarrow> c \<in> lent \<Longrightarrow> home c = Some origin
    \<Longrightarrow> pool_run max_idle (release max_idle origin c idle) (lent - {c}) home"
| discard: "pool_run max_idle idle lent home \<Longrightarrow> pool_run max_idle idle (lent - {c}) home"
| evicted: "pool_run max_idle idle lent home \<Longrightarrow> pool_run max_idle (evict origin idle) lent home"

definition pool_inv :: "nat \<Rightarrow> 'c idle_map \<Rightarrow> 'c set \<Rightarrow> ('c \<rightharpoonup> OriginKey) \<Rightarrow> bool" where
  "pool_inv max_idle idle lent home \<longleftrightarrow>
     (\<forall>origin q. idle origin = Some q \<longrightarrow>
        length q \<le> max 1 max_idle \<and> distinct q \<and> set q \<inter> lent = {} \<and> (\<forall>c \<in> set q. home c = Some origin))
     \<and> lent \<subseteq> dom home"

lemma pool_invD:
  assumes "pool_inv max_idle idle lent home" and "idle origin = Some q"
  shows "length q \<le> max 1 max_idle" and "distinct q" and "set q \<inter> lent = {}" and "\<forall>c \<in> set q. home c = Some origin"
  using assms unfolding pool_inv_def by blast+

lemma pool_inv_take:
  assumes inv: "pool_inv max_idle idle lent home" and run: "take_idle origin idle = (r, idle')"
  shows "case r of
      Some c \<Rightarrow> pool_inv max_idle idle' (insert c lent) home
    | None \<Rightarrow> idle' = idle"
proof (cases r)
  case None
  then show ?thesis using run by (auto simp add: take_idle_def split: option.splits list.splits)
next
  case (Some c)
  obtain q where q: "idle origin = Some (c # q)" "idle' = idle(origin \<mapsto> q)"
    using run Some by (auto simp add: take_idle_def split: option.splits list.splits)
  note was = pool_invD [OF inv q(1)]
  have c: "home c = Some origin" "c \<notin> set q" "c \<notin> lent" using was(2-4) by auto
  have other: "c \<notin> set q'" if "idle o' = Some q'" "o' \<noteq> origin" for o' q'
    using inv that c(1) by (auto simp add: pool_inv_def)
  have "length q \<le> max 1 max_idle \<and> distinct q \<and> set q \<inter> insert c lent = {} \<and> (\<forall>d \<in> set q. home d = Some origin)"
    using was c(2) by auto
  moreover have "insert c lent \<subseteq> dom home" using inv c(1) by (auto simp add: pool_inv_def)
  ultimately show ?thesis using inv other unfolding pool_inv_def q(2) by (simp add: Some)
qed

lemma pool_inv_open:
  assumes inv: "pool_inv max_idle idle lent home" and new: "home c = None"
  shows "pool_inv max_idle idle (insert c lent) (home(c \<mapsto> origin))"
proof -
  have "c \<notin> set q" if "idle o' = Some q" for o' q using inv new that by (auto simp add: pool_inv_def)
  moreover have "insert c lent \<subseteq> dom (home(c \<mapsto> origin))" using inv by (auto simp add: pool_inv_def)
  ultimately show ?thesis using inv unfolding pool_inv_def by (metis Int_insert_right_if0 fun_upd_other)
qed

lemma pool_inv_release:
  assumes inv: "pool_inv max_idle idle lent home" and "c \<in> lent" and "home c = Some origin"
  shows "pool_inv max_idle (release max_idle origin c idle) (lent - {c}) home"
proof -
  define q where "q = (case idle origin of Some q \<Rightarrow> q | None \<Rightarrow> [])"
  define q' where "q' = (if length q \<ge> max_idle then butlast q else q)"
  have q: "length q \<le> max 1 max_idle" "distinct q" "set q \<inter> lent = {}" "\<forall>d \<in> set q. home d = Some origin"
    using pool_invD [OF inv, of origin] by (cases "idle origin"; simp add: q_def)+
  have q': "set q' \<subseteq> set q" "distinct q'" "length q' < max 1 max_idle"
    using q(1,2) by (auto simp add: q'_def distinct_butlast dest: in_set_butlastD)
  have "length (c # q') \<le> max 1 max_idle \<and> distinct (c # q') \<and> set (c # q') \<inter> (lent - {c}) = {}
      \<and> (\<forall>d \<in> set (c # q'). home d = Some origin)"
    using q q' assms(2,3) by auto
  moreover have "release max_idle origin c idle = idle(origin \<mapsto> c # q')"
    by (simp add: release_def q_def q'_def Let_def)
  ultimately show ?thesis using inv unfolding pool_inv_def by auto
qed

lemma pool_run_inv: "pool_run max_idle idle lent home \<Longrightarrow> pool_inv max_idle idle lent home"
proof (induction rule: pool_run.induct)
  case start
  show ?case by (simp add: pool_inv_def)
next
  case (reuse idle lent home origin c idle')
  show ?case using pool_inv_take [OF reuse.IH reuse.hyps(2)] by simp
next
  case (open_new idle lent home origin idle' c)
  have "idle' = idle" using pool_inv_take [OF open_new.IH open_new.hyps(2)] by simp
  then show ?case using pool_inv_open [OF open_new.IH open_new.hyps(3)] by blast
next
  case (give_back idle lent home c origin)
  then show ?case by (intro pool_inv_release)
next
  case (discard idle lent home c)
  then show ?case unfolding pool_inv_def by blast
next
  case (evicted idle lent home origin)
  then show ?case by (auto simp add: pool_inv_def evict_def)
qed

text \<open>With a limit of zero the pool still keeps one connection.\<close>

lemma zero_limit_keeps_one: "idle_count origin (release 0 origin c Map.empty) = 1"
  by (simp add: idle_count_def release_def Let_def)

section \<open>Properties\<close>


definition demo_origin :: OriginKey where
  "demo_origin = \<lparr>ok_addr = demo_addr 7, ok_server_name = ''example''\<rparr>"

lemma demo_pool_run:
  "pool_run 2 (release 2 demo_origin (1 :: nat) Map.empty) {} (Map.empty(1 \<mapsto> demo_origin))"
proof -
  have "pool_run 2 Map.empty {1 :: nat} (Map.empty(1 \<mapsto> demo_origin))"
    by (rule pool_run.open_new [OF pool_run.start]) (simp_all add: take_idle_def)
  from pool_run.give_back [OF this, of 1 demo_origin] show ?thesis by simp
qed


end
