(* ===== verification/Spec2Isabelle.thy ===== *)
theory Spec2Isabelle
  imports Packet_Space Stream_Transfer Flow_Control Recovery Cc_Dispatch Cid_Pool Params_Codec Stream_Limits Ack_Exchange Endpoint_Routing Driven_Streams H3_Pool
begin

text \<open>
  A verification development for OxiQUIC, a QUIC (RFC 9000, 9001, 9002, 9221) and HTTP/3 stack in Rust.  Source paths
  are relative to \<^verbatim>\<open>src/crates/\<close>; \<^verbatim>\<open>transport\<close> is short for \<^verbatim>\<open>oxiquic-transport/src\<close>.

  \<^bold>\<open>The program.\<close>  A \<^verbatim>\<open>Connection\<close> (\<^verbatim>\<open>transport/connection/\<close>) is a state machine without I/O.  \<^verbatim>\<open>handle_datagram\<close> parses
  the packets of a datagram, opens them with the keys of their packet-number space and processes their frames;
  \<^verbatim>\<open>poll_transmit\<close> fills packets from the ACK state, the CRYPTO streams, the application streams and the pending control
  frames, within flow control and the congestion window; \<^verbatim>\<open>handle_timeout\<close> runs loss detection and probes.  An
  endpoint (\<^verbatim>\<open>transport/endpoint/mod.rs\<close>) routes the datagrams of one socket to its connections and drives each one;
  alternatively a background task (\<^verbatim>\<open>transport/endpoint/driven.rs\<close>) owns the connection and serves stream handles
  (\<^verbatim>\<open>transport/handle.rs\<close>) over bounded channels.  The HTTP/3 crate (\<^verbatim>\<open>oxiquic-h3\<close>) puts messages and a connection pool
  on top of those.

  \<^bold>\<open>Conventions.\<close>  A \<^verbatim>\<open>u8\<close> is an \<^verbatim>\<open>8 word\<close>; other unsigned integers, \<^verbatim>\<open>Instant\<close> and \<^verbatim>\<open>Duration\<close> (in nanoseconds) are \<^verbatim>\<open>nat\<close>,
  with wrapping, saturation and masking written out where the source has them.  \<^verbatim>\<open>Result\<close> is a sum with the error on the
  left, \<^verbatim>\<open>BTreeMap\<close> a sorted association list, a \<^verbatim>\<open>HashMap\<close> a map.  A struct is a record with the source's field names
  (prefixed where two structs share one), an enum a datatype, a method a function from the old state to the new.  Code
  outside the repository is an argument: HMAC-SHA256, the block ciphers and AEADs, AES-GCM for Retry, rustls (the
  record \<^verbatim>\<open>tls_ops\<close>), the random generator, the clock, and the \<^verbatim>\<open>f64\<close> operations (the record \<^verbatim>\<open>f64_ops\<close>).  What a theorem
  relies on of such code is a premise, and its witness instantiates the argument.

  \<^bold>\<open>Theories, bottom up.\<close>

  \<^item> \<^verbatim>\<open>Prelude\<close>: integers, results, decoders, ordered maps and the lemmas shared by all components.
  \<^item> \<^verbatim>\<open>Core_Types\<close>: \<^verbatim>\<open>oxiquic-core/src\<close>, the identifiers, registries, errors and transport parameters.  Stream IDs are
    a bijection; the numeric registries round-trip.
  \<^item> \<^verbatim>\<open>Coding\<close>: \<^verbatim>\<open>transport/coding.rs\<close>, cursor, varints and packet numbers.  The locale \<^verbatim>\<open>wire_codec\<close> is the contract of
    an encoder and a decoder; varints, ACK ranges, 32-bit integers and frames interpret it.
  \<^item> \<^verbatim>\<open>Frames\<close>: \<^verbatim>\<open>transport/frame.rs\<close>.  Round trip, soundness on arbitrary bytes, and the error code of each failure.
  \<^item> \<^verbatim>\<open>Quic_Crypto\<close>, \<^verbatim>\<open>Packets\<close>, \<^verbatim>\<open>Packet_Roundtrip\<close>: \<^verbatim>\<open>oxiquic-crypto/src/quic.rs\<close> and \<^verbatim>\<open>transport/packet.rs\<close>, packet and
    header protection, long and short packets, Version Negotiation and Retry.  What is built parses back; Retry tags
    are checked; a long packet padded for header protection is refused by the receiver.
  \<^item> \<^verbatim>\<open>Packet_Space\<close>: \<^verbatim>\<open>transport/space.rs\<close>.  The range list represents exactly the received numbers, through the locale
    \<^verbatim>\<open>number_record\<close>.
  \<^item> \<^verbatim>\<open>Sent_Packets\<close>, \<^verbatim>\<open>Ack_Exchange\<close>: \<^verbatim>\<open>transport/sent_packet.rs\<close>.  Acknowledgement and loss detection remove exactly the
    right packets, also when the ACK frame travels over the wire.
  \<^item> \<^verbatim>\<open>Reassembly\<close>, \<^verbatim>\<open>Crypto_Stream\<close>, \<^verbatim>\<open>Streams\<close>, \<^verbatim>\<open>Stream_Transfer\<close>: \<^verbatim>\<open>transport/crypto_stream.rs\<close> and
    \<^verbatim>\<open>transport/stream.rs\<close>.  The locales \<^verbatim>\<open>reassembler\<close> and \<^verbatim>\<open>complete_reassembler\<close> are interpreted by both streams; a step
    relation over a network that loses, duplicates and reorders frames shows that a reader gets a prefix, and at the
    end of the stream everything.
  \<^item> \<^verbatim>\<open>Flow_Control\<close>: \<^verbatim>\<open>transport/flow_control.rs\<close>.  The locales \<^verbatim>\<open>credit_account\<close> and \<^verbatim>\<open>receive_window\<close> are each
    interpreted at connection and at stream level.
  \<^item> \<^verbatim>\<open>Recovery\<close>, \<^verbatim>\<open>Congestion\<close>, \<^verbatim>\<open>Bbr\<close>, \<^verbatim>\<open>Cc_Dispatch\<close>: \<^verbatim>\<open>transport/recovery.rs\<close>, \<^verbatim>\<open>congestion.rs\<close>, \<^verbatim>\<open>cubic.rs\<close>, \<^verbatim>\<open>bbr.rs\<close> and
    \<^verbatim>\<open>cc_dispatch.rs\<close>.  RTT bounds and probe back-off; every controller, and the dispatch over them, interprets the
    locale \<^verbatim>\<open>congestion_controller\<close>; the BBR state machine.
  \<^item> \<^verbatim>\<open>Cid_Pool\<close>, \<^verbatim>\<open>Params_Codec\<close>, \<^verbatim>\<open>Mtu\<close>, \<^verbatim>\<open>Multipath\<close>: \<^verbatim>\<open>transport/connection/cid.rs\<close>, \<^verbatim>\<open>params_codec.rs\<close>, the path-MTU
    fields of \<^verbatim>\<open>connection/mod.rs\<close>, and \<^verbatim>\<open>connection/multipath.rs\<close>, with their invariants and round trips.
  \<^item> \<^verbatim>\<open>Conn_Streams\<close>, \<^verbatim>\<open>Stream_Limits\<close>: \<^verbatim>\<open>connection/streams.rs\<close> and the stream parts of \<^verbatim>\<open>recv.rs\<close> and \<^verbatim>\<open>send.rs\<close>.  No
    sequence of calls and frames makes the connection send past the peer's limits or past the packet budget.
  \<^item> \<^verbatim>\<open>Connection\<close>, \<^verbatim>\<open>Conn_Recovery\<close>, \<^verbatim>\<open>Conn_Send\<close>, \<^verbatim>\<open>Conn_Recv\<close>: the composed state of \<^verbatim>\<open>connection/mod.rs\<close> with
    \<^verbatim>\<open>keys_path.rs\<close>, \<^verbatim>\<open>recovery.rs\<close>, \<^verbatim>\<open>send.rs\<close> and \<^verbatim>\<open>recv.rs\<close>.  The bytes in flight of the controller are those of the
    outstanding packets.
  \<^item> \<^verbatim>\<open>Conn_Exchange\<close>: two connections.  A packet of one is opened by the other, a key update keeps them in agreement,
    and a close reaches the peer.
  \<^item> \<^verbatim>\<open>Config\<close>, \<^verbatim>\<open>Endpoint\<close>, \<^verbatim>\<open>Endpoint_Routing\<close>: \<^verbatim>\<open>transport/config.rs\<close> and \<^verbatim>\<open>endpoint/mod.rs\<close>.  Over any run of the
    demultiplexer datagrams reach only the connection their ID is registered for, and Retry admits only addresses that
    returned a token.
  \<^item> \<^verbatim>\<open>Channels\<close>, \<^verbatim>\<open>Handles\<close>, \<^verbatim>\<open>Driven\<close>, \<^verbatim>\<open>Driven_Streams\<close>: bounded channels, \<^verbatim>\<open>transport/handle.rs\<close> with the stream adapters
    of \<^verbatim>\<open>h3_compat.rs\<close>, and \<^verbatim>\<open>endpoint/driven.rs\<close>.  What the connection reads is what a handle returns while its channel
    has room, and the end of the task ends every stream.
  \<^item> \<^verbatim>\<open>H3_Message\<close>, \<^verbatim>\<open>H3_Pool\<close>: \<^verbatim>\<open>oxiquic-h3/src/message.rs\<close>, \<^verbatim>\<open>error.rs\<close> and \<^verbatim>\<open>pool.rs\<close>.  The pool never lends a connection
    twice and respects its limit.

  \<^bold>\<open>Loops and bounds.\<close>  Loops over data are total functions, with a measure where the recursion is not structural.
  \<^verbatim>\<open>process_frames\<close> carries as fuel the bytes of its payload, which suffices since every frame takes at least one
  (\<^verbatim>\<open>process_loop_fuel\<close>).  The handshake pump (\<^verbatim>\<open>pump_loop\<close>), the packets of a datagram (\<^verbatim>\<open>recv_packets\<close>) and flushing
  (\<^verbatim>\<open>flush\<close>) call code that could go on for ever, such as rustls; they are partial functions whose value \<^verbatim>\<open>None\<close> is not
  returning, and the theorems that use them prove the value they return or state it as a premise.

  \<^bold>\<open>Behaviour the lemmas record.\<close>  Some lemmas state what the code does where its documentation promises otherwise:
  \<^verbatim>\<open>fin_below_received_data_accepted\<close>, \<^verbatim>\<open>every_ack_starts_a_round\<close>, \<^verbatim>\<open>peer_pool_limit_exceeded\<close>,
  \<^verbatim>\<open>zero_token_matches_new_pool\<close>, \<^verbatim>\<open>retry_leaks_bytes_in_flight\<close>, \<^verbatim>\<open>retry_tag_ambiguous\<close>, \<^verbatim>\<open>full_channel_loses_data\<close>,
  \<^verbatim>\<open>shutdown_loses_fin\<close> and \<^verbatim>\<open>zero_limit_keeps_one\<close>.

  \<^bold>\<open>Not modelled.\<close>

  \<^item> Sockets and tasks: \<^verbatim>\<open>bind\<close>, \<^verbatim>\<open>accept\<close>, \<^verbatim>\<open>Incoming\<close>, \<^verbatim>\<open>recv_inbound\<close> and \<^verbatim>\<open>try_recv_inbound\<close> of \<^verbatim>\<open>endpoint/mod.rs\<close> are I/O;
    their datagrams are inputs of the model, and sending on a socket does not fail.
  \<^item> \<^verbatim>\<open>endpoint/zero_rtt.rs\<close>: \<^verbatim>\<open>connect\<close> followed by a flag in an already resolved future.
  \<^item> \<^verbatim>\<open>OxiQuicOpenStreams\<close> and \<^verbatim>\<open>OxiQuicH3Connection\<close> of \<^verbatim>\<open>h3_compat.rs\<close>, and \<^verbatim>\<open>client.rs\<close>, \<^verbatim>\<open>server.rs\<close>, \<^verbatim>\<open>h3_io.rs\<close> and
    \<^verbatim>\<open>push.rs\<close> of \<^verbatim>\<open>oxiquic-h3\<close>: adapters between the h3 and http libraries, which do the HTTP/3 framing, and the
    operations above.  Of \<^verbatim>\<open>message.rs\<close> the parts that depend on UTF-8 and serde.
  \<^item> \<^verbatim>\<open>aead.rs\<close>, \<^verbatim>\<open>hash.rs\<close>, \<^verbatim>\<open>hkdf.rs\<close>, \<^verbatim>\<open>hmac.rs\<close> and \<^verbatim>\<open>suites.rs\<close> of \<^verbatim>\<open>oxiquic-crypto\<close>: adapters of cryptographic primitives
    to the rustls traits.  Secrecy and authenticity of those primitives are outside a functional model.
  \<^item> The facade crate \<^verbatim>\<open>oxiquic\<close> (re-exports), the ALPN constants, \<^verbatim>\<open>Display\<close> and \<^verbatim>\<open>Debug\<close> texts other than the error texts the code returns,
    plain getters, tests and benches.
\<close>

end
